theory Spec2Isabelle
  imports Complex_Main
begin

section \<open>The particle-field engine of the SVG particle generator\<close>

text \<open>
  A shallow embedding of the engine in \<^verbatim>\<open>script.js\<close> (module \<^verbatim>\<open>ParticleApp\<close>): the point
  selector (\<^verbatim>\<open>samplePoints\<close>), the choice of representation (\<^verbatim>\<open>createParticles\<close>), the
  settings reader (\<^verbatim>\<open>getSettings\<close>) and the per-frame motion model
  (\<^verbatim>\<open>updateTraditionalParticles\<close>, \<^verbatim>\<open>updateInstancedParticles\<close>).

  JavaScript numbers are doubles. Integers that the source obtains from \<^verbatim>\<open>parseInt\<close> or
  from \<^verbatim>\<open>length\<close> are modelled as integers. In the point selector, where the rounding of a
  double decides how many points of each kind and which of them are selected, every
  rounding is written out.
  The coordinates of the motion model are modelled as real numbers, without rounding.
  \<^verbatim>\<open>NaN\<close> and infinities are outside the model. The colour of a particle, its material, its
  size and the scene graph are left out where no property below depends on them.
\<close>

subsection \<open>Point selection\<close>

text \<open>
  An entry of the array returned by \<^verbatim>\<open>samplePoints\<close>: \<^verbatim>\<open>{point, isStroke, color}\<close>.
  The type \<open>'p\<close> stands for references to \<^verbatim>\<open>THREE.Vector3\<close> objects, so equality on \<open>'p\<close>
  is object identity, which is what \<^verbatim>\<open>Array.prototype.includes\<close> compares. A colour is a
  string, or \<^verbatim>\<open>undefined\<close> (here \<open>None\<close>) when colours are not preserved.
\<close>

record 'p sampled =
  point :: 'p
  isStroke :: bool
  color :: "string option"

text \<open>\<^verbatim>\<open>colors[index]\<close>: reading past the end of an array gives \<^verbatim>\<open>undefined\<close>.\<close>

definition colorAt :: "string option list \<Rightarrow> nat \<Rightarrow> string option" where
  "colorAt colors index = (if index < length colors then colors ! index else None)"

text \<open>
  Rounding to the nearest double. A division or a multiplication of doubles returns the
  rounded exact result; \<open>rn\<close> stands for that rounding, and the doubles are the values that
  it leaves as they are. \<open>doubleRounding\<close> collects what the proofs use of it: in the range
  of the normal doubles the result is within the relative error \<open>1 / 2 ^ 53\<close> of the exact
  value, below that range it is within \<open>1 / 2 ^ 1075\<close> of it, the result of a value that is
  not negative is not negative, the result is a double, and the integers up to \<open>2 ^ 53\<close> are
  doubles.
\<close>

definition doubleRounding :: "(real \<Rightarrow> real) \<Rightarrow> bool" where
  "doubleRounding rn =
     ((\<forall>x. 1 / 2 ^ 1022 \<le> \<bar>x\<bar> \<and> \<bar>x\<bar> \<le> 2 ^ 1023 \<longrightarrow> \<bar>rn x - x\<bar> \<le> \<bar>x\<bar> / 2 ^ 53) \<and>
      (\<forall>x. \<bar>x\<bar> < 1 / 2 ^ 1022 \<longrightarrow> \<bar>rn x - x\<bar> \<le> 1 / 2 ^ 1075) \<and>
      (\<forall>x. 0 \<le> x \<longrightarrow> 0 \<le> rn x) \<and>
      (\<forall>x. rn (rn x) = rn x) \<and>
      (\<forall>n::int. \<bar>n\<bar> \<le> 2 ^ 53 \<longrightarrow> rn (real_of_int n) = real_of_int n))"

text \<open>
  \<^verbatim>\<open>Math.floor(Math.random() * n)\<close> for a value \<open>r\<close> returned by \<^verbatim>\<open>Math.random()\<close>: the
  floor of the rounded product. The values of \<^verbatim>\<open>Math.random()\<close> are doubles in \<open>[0, 1)\<close>,
  so none is above \<open>1 - 1 / 2 ^ 53\<close>, the greatest double below 1; \<open>validRandom\<close> says of a
  list that its members are such values.
\<close>

definition randomIndex :: "(real \<Rightarrow> real) \<Rightarrow> real \<Rightarrow> nat \<Rightarrow> nat" where
  "randomIndex rn r n = nat \<lfloor>rn (r * real n)\<rfloor>"

definition validRandom :: "(real \<Rightarrow> real) \<Rightarrow> real list \<Rightarrow> bool" where
  "validRandom rn rs = list_all (\<lambda>r. rn r = r \<and> 0 \<le> r \<and> r \<le> 1 - 1 / 2 ^ 53) rs"

text \<open>
  The loop \<^verbatim>\<open>while (indices.size < quota) indices.add(Math.floor(Math.random() * n))\<close>.
  A JavaScript \<^verbatim>\<open>Set\<close> iterates in insertion order, so it is a duplicate-free list \<open>acc\<close>.
  The loop draws from the successive values \<open>rs\<close> of \<^verbatim>\<open>Math.random()\<close> and returns the
  indices with the values it has not used. It ends only when enough distinct indices have
  come up: on a list that is used up first the result is \<open>None\<close>.
\<close>

fun drawIndices ::
  "(real \<Rightarrow> real) \<Rightarrow> int \<Rightarrow> nat \<Rightarrow> real list \<Rightarrow> nat list \<Rightarrow> (nat list \<times> real list) option" where
  "drawIndices rn quota n [] acc = (if int (length acc) < quota then None else Some (acc, []))"
| "drawIndices rn quota n (r # rs) acc =
     (if int (length acc) < quota
      then drawIndices rn quota n rs
             (if randomIndex rn r n \<in> set acc then acc else acc @ [randomIndex rn r n])
      else Some (acc, r # rs))"

text \<open>
  \<^verbatim>\<open>samplePoints(points, strokePoints, fillPoints, targetCount, colors, strokeColors,
  fillColors)\<close>, with the rounding of doubles and the values of \<^verbatim>\<open>Math.random()\<close> as
  further arguments; the result carries the values left over. \<^verbatim>\<open>strokeRatio\<close> is a rounded
  quotient and \<^verbatim>\<open>strokeCount\<close> the floor of a rounded product, so it can be one less than
  the floor of the exact product. The subtraction that gives \<^verbatim>\<open>fillCount\<close> is exact on
  integers.
\<close>

definition samplePoints ::
  "(real \<Rightarrow> real) \<Rightarrow> 'p list \<Rightarrow> 'p list \<Rightarrow> 'p list \<Rightarrow> int \<Rightarrow> string option list \<Rightarrow> string option list \<Rightarrow>
   string option list \<Rightarrow> real list \<Rightarrow> ('p sampled list \<times> real list) option" where
  "samplePoints rn points strokePoints fillPoints targetCount colors strokeColors fillColors rs =
     (if int (length points) \<le> targetCount then
        Some (map (\<lambda>index. \<lparr>point = points ! index,
                             isStroke = (points ! index \<in> set strokePoints),
                             color = colorAt colors index\<rparr>) [0..<length points], rs)
      else
        let strokeRatio = rn (real (length strokePoints) / real (length points));
            strokeCount = \<lfloor>rn (real_of_int targetCount * strokeRatio)\<rfloor>;
            fillCount = targetCount - strokeCount
        in
        (case (if length strokePoints > 0
               then drawIndices rn (min strokeCount (int (length strokePoints)))
                      (length strokePoints) rs []
               else Some ([], rs)) of
           None \<Rightarrow> None
         | Some (strokeIndices, rs1) \<Rightarrow>
         (case (if length fillPoints > 0
                then drawIndices rn (min fillCount (int (length fillPoints)))
                       (length fillPoints) rs1 []
                else Some ([], rs1)) of
            None \<Rightarrow> None
          | Some (fillIndices, rs2) \<Rightarrow>
          (let sampledPoints =
                 map (\<lambda>index. \<lparr>point = strokePoints ! index, isStroke = True,
                                color = colorAt strokeColors index\<rparr>) strokeIndices @
                 map (\<lambda>index. \<lparr>point = fillPoints ! index, isStroke = False,
                                color = colorAt fillColors index\<rparr>) fillIndices
           in
           if length sampledPoints = 0 then
             (case drawIndices rn targetCount (length points) rs2 [] of
                None \<Rightarrow> None
              | Some (indices, rs3) \<Rightarrow>
                  Some (map (\<lambda>index. \<lparr>point = points ! index, isStroke = False,
                                       color = colorAt colors index\<rparr>) indices, rs3))
           else Some (sampledPoints, rs2)))))"

text \<open>
  A list of values of \<^verbatim>\<open>Math.random()\<close> on which the index \<open>i\<close> of every \<open>i < n\<close> comes up:
  the doubles nearest to the midpoints \<open>(i + 1/2) / n\<close>.
\<close>

definition sweep :: "(real \<Rightarrow> real) \<Rightarrow> nat \<Rightarrow> real list" where
  "sweep rn n = map (\<lambda>i. rn ((real i + 1 / 2) / real n)) [0..<n]"

text \<open>
  The sampling loop seen on the indices it draws: \<^verbatim>\<open>Set.prototype.add\<close> on the list that
  stands for the set, the set after a number of draws, and the loop run on a list of indices
  in place of values of \<^verbatim>\<open>Math.random()\<close>.
\<close>

definition addIndex :: "nat list \<Rightarrow> nat \<Rightarrow> nat list" where
  "addIndex acc i = (if i \<in> set acc then acc else acc @ [i])"

definition collected :: "(real \<Rightarrow> real) \<Rightarrow> nat \<Rightarrow> real list \<Rightarrow> nat list" where
  "collected rn n used = foldl addIndex [] (map (\<lambda>r. randomIndex rn r n) used)"

fun pickIndices :: "int \<Rightarrow> nat list \<Rightarrow> nat list \<Rightarrow> nat list option" where
  "pickIndices quota [] acc = (if int (length acc) < quota then None else Some acc)"
| "pickIndices quota (i # is) acc =
     (if int (length acc) < quota then pickIndices quota is (addIndex acc i) else Some acc)"

subsection \<open>Vectors\<close>

text \<open>
  \<^verbatim>\<open>THREE.Vector3\<close> and the operations of the three.js library that the engine calls.
  \<^verbatim>\<open>normalize\<close> divides by \<^verbatim>\<open>length() || 1\<close>, so the zero vector stays zero.
\<close>

record vec3 =
  vx :: real
  vy :: real
  vz :: real

definition vzero :: vec3 where
  "vzero = \<lparr>vx = 0, vy = 0, vz = 0\<rparr>"

definition vadd :: "vec3 \<Rightarrow> vec3 \<Rightarrow> vec3" where
  "vadd a b = \<lparr>vx = vx a + vx b, vy = vy a + vy b, vz = vz a + vz b\<rparr>"

definition vsub :: "vec3 \<Rightarrow> vec3 \<Rightarrow> vec3" where
  "vsub a b = \<lparr>vx = vx a - vx b, vy = vy a - vy b, vz = vz a - vz b\<rparr>"

definition multiplyScalar :: "vec3 \<Rightarrow> real \<Rightarrow> vec3" where
  "multiplyScalar a s = \<lparr>vx = vx a * s, vy = vy a * s, vz = vz a * s\<rparr>"

definition vlength :: "vec3 \<Rightarrow> real" where
  "vlength a = sqrt (vx a * vx a + vy a * vy a + vz a * vz a)"

definition distanceTo :: "vec3 \<Rightarrow> vec3 \<Rightarrow> real" where
  "distanceTo a b = vlength (vsub a b)"

definition normalize :: "vec3 \<Rightarrow> vec3" where
  "normalize a = multiplyScalar a (1 / (if vlength a = 0 then 1 else vlength a))"

subsection \<open>Settings\<close>

text \<open>
  The JavaScript values that \<^verbatim>\<open>getSettings\<close> handles, with truthiness and the operator
  \<^verbatim>\<open>||\<close>. An element of the page has a \<^verbatim>\<open>checked\<close> and a \<^verbatim>\<open>value\<close> property, and
  \<^verbatim>\<open>document.getElementById\<close> is a map from identifiers to elements (\<open>None\<close> is \<^verbatim>\<open>null\<close>).
\<close>

datatype jsval = Undefined | Boolean bool | String string | Number real

fun truthy :: "jsval \<Rightarrow> bool" where
  "truthy Undefined = False"
| "truthy (Boolean b) = b"
| "truthy (String s) = (s \<noteq> [])"
| "truthy (Number r) = (r \<noteq> 0)"

definition js_or :: "jsval \<Rightarrow> jsval \<Rightarrow> jsval" where
  "js_or a b = (if truthy a then a else b)"

record element =
  checked :: bool
  val :: string

type_synonym document = "string \<Rightarrow> element option"

text \<open>\<^verbatim>\<open>element?.checked\<close> and \<^verbatim>\<open>element?.value\<close>.\<close>

definition optChecked :: "element option \<Rightarrow> jsval" where
  "optChecked e = (case e of None \<Rightarrow> Undefined | Some el \<Rightarrow> Boolean (checked el))"

definition optValue :: "element option \<Rightarrow> jsval" where
  "optValue e = (case e of None \<Rightarrow> Undefined | Some el \<Rightarrow> String (val el))"

record settings =
  particleCount :: int
  particleDensity :: int
  minSize :: real
  maxSize :: real
  color :: jsval
  useGradient :: bool
  gradientColor1 :: jsval
  gradientColor2 :: jsval
  preserveColors :: bool
  animationSpeed :: real
  mouseInteraction :: bool
  sandEffect :: bool
  sandStrength :: real
  sandReturn :: real
  repelEffect :: bool
  interactionRadius :: int
  interactionStrength :: real
  interactionSensitivity :: int
  glowEffect :: bool
  bloomStrength :: real
  bloomRadius :: real
  bloomThreshold :: real
  noiseMovement :: bool
  noiseScale :: real
  includeStrokes :: bool
  strokeWidth :: int
  strokeDetail :: int
  enableOrbit :: bool
  orbitSensitivity :: real
  zoomSpeed :: real
  panSpeed :: real
  svgScale :: real
  svgDepth :: int
  useInstanced :: bool

text \<open>
  \<^verbatim>\<open>getSettings()\<close>. The built-in functions \<^verbatim>\<open>parseInt\<close> and \<^verbatim>\<open>parseFloat\<close> are parameters.
  Nothing in the \<^verbatim>\<open>try\<close> block throws, so the \<^verbatim>\<open>catch\<close> branch, which returns the
  defaults below, is not a branch of the model.
\<close>

definition getSettings :: "(jsval \<Rightarrow> int) \<Rightarrow> (jsval \<Rightarrow> real) \<Rightarrow> document \<Rightarrow> settings" where
  "getSettings parseInt parseFloat doc = \<lparr>
     particleCount = parseInt (js_or (optValue (doc ''particle-count'')) (Number 1500)),
     particleDensity = parseInt (js_or (optValue (doc ''particle-density'')) (Number 4)),
     minSize = parseFloat (js_or (optValue (doc ''min-size'')) (Number 0.5)),
     maxSize = parseFloat (js_or (optValue (doc ''max-size'')) (Number 1.5)),
     color = js_or (optValue (doc ''particle-color'')) (String ''#6366f1''),
     useGradient = truthy (js_or (optChecked (doc ''use-gradient'')) (Boolean True)),
     gradientColor1 = js_or (optValue (doc ''gradient-color1'')) (String ''#6366f1''),
     gradientColor2 = js_or (optValue (doc ''gradient-color2'')) (String ''#ec4899''),
     preserveColors = truthy (js_or (optChecked (doc ''preserve-colors'')) (Boolean False)),
     animationSpeed = parseFloat (js_or (optValue (doc ''animation-speed'')) (Number 1)),
     mouseInteraction = truthy (js_or (optChecked (doc ''mouse-interaction'')) (Boolean True)),
     sandEffect = truthy (js_or (optChecked (doc ''sand-effect'')) (Boolean False)),
     sandStrength = parseFloat (js_or (optValue (doc ''sand-strength'')) (Number 5)),
     sandReturn = parseFloat (js_or (optValue (doc ''sand-return'')) (Number 1)),
     repelEffect = truthy (js_or (optChecked (doc ''repel-effect'')) (Boolean False)),
     interactionRadius = parseInt (js_or (optValue (doc ''interaction-radius'')) (Number 80)),
     interactionStrength = parseFloat (js_or (optValue (doc ''interaction-strength'')) (Number 3)),
     interactionSensitivity =
       parseInt (js_or (optValue (doc ''interaction-sensitivity'')) (Number 5)),
     glowEffect = truthy (js_or (optChecked (doc ''glow-effect'')) (Boolean True)),
     bloomStrength = parseFloat (js_or (optValue (doc ''bloom-strength'')) (Number 0.9)),
     bloomRadius = parseFloat (js_or (optValue (doc ''bloom-radius'')) (Number 0.4)),
     bloomThreshold = parseFloat (js_or (optValue (doc ''bloom-threshold'')) (Number 0.85)),
     noiseMovement = truthy (js_or (optChecked (doc ''noise-movement'')) (Boolean True)),
     noiseScale = parseFloat (js_or (optValue (doc ''noise-scale'')) (Number 0.02)),
     includeStrokes = truthy (js_or (optChecked (doc ''include-strokes'')) (Boolean True)),
     strokeWidth = parseInt (js_or (optValue (doc ''stroke-width'')) (Number 2)),
     strokeDetail = parseInt (js_or (optValue (doc ''stroke-detail'')) (Number 5)),
     enableOrbit = truthy (js_or (optChecked (doc ''enable-orbit'')) (Boolean True)),
     orbitSensitivity = parseFloat (js_or (optValue (doc ''orbit-sensitivity'')) (Number 1)),
     zoomSpeed = parseFloat (js_or (optValue (doc ''zoom-speed'')) (Number 1)),
     panSpeed = parseFloat (js_or (optValue (doc ''pan-speed'')) (Number 1)),
     svgScale = parseFloat (js_or (optValue (doc ''svg-scale'')) (Number 1)),
     svgDepth = parseInt (js_or (optValue (doc ''svg-depth'')) (Number 20)),
     useInstanced =
       truthy (js_or (optChecked (doc ''use-instanced-rendering'')) (Boolean True))\<rparr>"

text \<open>The defaults that \<^verbatim>\<open>getSettings\<close> lists in its \<^verbatim>\<open>catch\<close> branch.\<close>

definition defaultSettings :: settings where
  "defaultSettings = \<lparr>
     particleCount = 1500, particleDensity = 4, minSize = 0.5, maxSize = 1.5,
     color = String ''#6366f1'', useGradient = True,
     gradientColor1 = String ''#6366f1'', gradientColor2 = String ''#ec4899'',
     preserveColors = False, animationSpeed = 1, mouseInteraction = True,
     sandEffect = False, sandStrength = 5, sandReturn = 1, repelEffect = False,
     interactionRadius = 80, interactionStrength = 3, interactionSensitivity = 5,
     glowEffect = True, bloomStrength = 0.9, bloomRadius = 0.4, bloomThreshold = 0.85,
     noiseMovement = True, noiseScale = 0.02, includeStrokes = True, strokeWidth = 2,
     strokeDetail = 5, enableOrbit = True, orbitSensitivity = 1, zoomSpeed = 1,
     panSpeed = 1, svgScale = 1, svgDepth = 20, useInstanced = True\<rparr>"

subsection \<open>Sample points and particles\<close>

text \<open>
  The position that \<^verbatim>\<open>createParticlesFromSVGString\<close> gives to the pixel \<open>(x, y)\<close> of the
  2000 by 2000 canvas, for fill and for stroke points alike; \<open>depthFactor\<close> is the value of
  \<^verbatim>\<open>Math.random()\<close> drawn for the point.
\<close>

definition samplePoint :: "real \<Rightarrow> real \<Rightarrow> int \<Rightarrow> real \<Rightarrow> vec3" where
  "samplePoint x y depth depthFactor =
     \<lparr>vx = (x - 2000 / 2) * 0.1,
      vy = - (y - 2000 / 2) * 0.1,
      vz = (if depth > 0 then (depthFactor - 0.5) * 2 * real_of_int depth else 0)\<rparr>"

text \<open>
  A particle: the mesh of the per-object representation with its \<^verbatim>\<open>userData\<close>, or an entry
  of \<^verbatim>\<open>layer.instanceData\<close> with the translation of its slot in the batch. \<open>position\<close> is
  \<^verbatim>\<open>mesh.position\<close>, respectively the position that \<^verbatim>\<open>decompose\<close> reads from the slot's
  matrix; \<open>visible\<close> is the visibility of the mesh, respectively of the batch object;
  \<open>stroke\<close> is the field \<^verbatim>\<open>isStroke\<close> and \<open>psize\<close> the field \<^verbatim>\<open>size\<close>. Both builders
  always set \<^verbatim>\<open>originalPosition\<close>.
\<close>

record particle =
  position :: vec3
  visible :: bool
  originalPosition :: vec3
  psize :: real
  stroke :: bool
  angle :: real
  speed :: real
  amplitude :: real
  offset :: vec3
  velocity :: vec3
  noiseOffset :: vec3
  rotationX :: real
  rotationY :: real

text \<open>The values of \<^verbatim>\<open>Math.random()\<close> that a builder draws for one particle.\<close>

record draws =
  rSize :: real
  rAngle :: real
  rSpeed :: real
  rAmplitude :: real
  rNoiseX :: real
  rNoiseY :: real
  rNoiseZ :: real

text \<open>
  What \<^verbatim>\<open>createTraditionalParticles\<close> and \<^verbatim>\<open>createInstancedParticles\<close> store for the
  sampled point at \<open>pt\<close> (the field \<^verbatim>\<open>depthFactor\<close>, which the frame update never reads, is
  left out).
\<close>

definition newParticle :: "settings \<Rightarrow> vec3 \<Rightarrow> bool \<Rightarrow> draws \<Rightarrow> particle" where
  "newParticle st pt isStr d =
     \<lparr>position = pt,
      visible = True,
      originalPosition = pt,
      psize = (minSize st + rSize d * (maxSize st - minSize st)) * (if isStr then 0.8 else 1.0),
      stroke = isStr,
      angle = rAngle d * pi * 2,
      speed = 0.05 + rSpeed d * 0.05,
      amplitude = rAmplitude d * 2,
      offset = vzero,
      velocity = vzero,
      noiseOffset = \<lparr>vx = rNoiseX d * 1000, vy = rNoiseY d * 1000, vz = rNoiseZ d * 1000\<rparr>,
      rotationX = 0,
      rotationY = 0\<rparr>"

text \<open>
  A layer. \<open>layer_particles\<close> are the primitives of the per-object representation,
  \<open>layer_instanceData\<close> the slots of the batched one, \<open>layer_scale\<close> is
  \<^verbatim>\<open>layer.group.scale.x\<close>.
\<close>

record layer =
  layer_visible :: bool
  layer_useInstanced :: bool
  layer_scale :: real
  layer_particles :: "particle list"
  layer_instanceData :: "particle list"
  layer_originalPositions :: "vec3 list"
  layer_particleCount :: nat

text \<open>
  The two builders. \<open>coords\<close> reads the coordinates of a point object and \<open>ds i\<close> are the
  random values drawn for the \<open>i\<close>-th particle. The batched builder also pushes one reference
  to the batch object per particle on \<^verbatim>\<open>layer.particles\<close>; no primitive of the per-object
  representation is created, so \<open>layer_particles\<close> is empty there.
\<close>

definition createTraditionalParticles ::
  "('p \<Rightarrow> vec3) \<Rightarrow> layer \<Rightarrow> 'p sampled list \<Rightarrow> settings \<Rightarrow> (nat \<Rightarrow> draws) \<Rightarrow> layer" where
  "createTraditionalParticles coords l sampledPoints st ds =
     l\<lparr>layer_particles :=
          map (\<lambda>i. newParticle st (coords (point (sampledPoints ! i)))
                      (isStroke (sampledPoints ! i)) (ds i)) [0..<length sampledPoints],
        layer_originalPositions := map (\<lambda>sp. coords (point sp)) sampledPoints\<rparr>"

definition createInstancedParticles ::
  "('p \<Rightarrow> vec3) \<Rightarrow> layer \<Rightarrow> 'p sampled list \<Rightarrow> settings \<Rightarrow> (nat \<Rightarrow> draws) \<Rightarrow> layer" where
  "createInstancedParticles coords l sampledPoints st ds =
     l\<lparr>layer_particles := [],
        layer_instanceData :=
          map (\<lambda>i. newParticle st (coords (point (sampledPoints ! i)))
                      (isStroke (sampledPoints ! i)) (ds i)) [0..<length sampledPoints],
        layer_originalPositions := map (\<lambda>sp. coords (point sp)) sampledPoints\<rparr>"

text \<open>
  \<^verbatim>\<open>createParticles\<close>: the representation is decided on \<^verbatim>\<open>points.length\<close>, the number
  of candidate points, before the points are sampled. \<open>rn\<close> is the rounding of doubles that
  \<^verbatim>\<open>samplePoints\<close> uses.
\<close>

definition createParticles ::
  "(real \<Rightarrow> real) \<Rightarrow> ('p \<Rightarrow> vec3) \<Rightarrow> layer \<Rightarrow> 'p list \<Rightarrow> 'p list \<Rightarrow> 'p list \<Rightarrow> settings \<Rightarrow>
   string option list \<Rightarrow> string option list \<Rightarrow> string option list \<Rightarrow>
   real list \<Rightarrow> (nat \<Rightarrow> draws) \<Rightarrow> (layer \<times> real list) option" where
  "createParticles rn coords l points strokePoints fillPoints st colors strokeColors fillColors
       rs ds =
     (let useInst = (layer_useInstanced l \<and> length points > 500) in
      case samplePoints rn points strokePoints fillPoints (particleCount st)
             colors strokeColors fillColors rs of
        None \<Rightarrow> None
      | Some (sampledPoints, rs') \<Rightarrow>
          Some ((if useInst then createInstancedParticles coords l sampledPoints st ds
                 else createTraditionalParticles coords l sampledPoints st ds)
                \<lparr>layer_scale := svgScale st,
                 layer_particleCount := length sampledPoints\<rparr>, rs'))"

subsection \<open>The motion model\<close>

text \<open>
  What \<^verbatim>\<open>updateParticlesAnimation\<close> computes once per frame and passes to the update of
  every layer: \<^verbatim>\<open>time\<close>, \<^verbatim>\<open>settings\<close>, \<^verbatim>\<open>mouseInteraction\<close>, \<^verbatim>\<open>repelEffect\<close>,
  \<^verbatim>\<open>interactionRadius\<close>, \<^verbatim>\<open>interactionStrength\<close>, \<^verbatim>\<open>sandEffect\<close>, \<^verbatim>\<open>sandStrength\<close>
  and \<^verbatim>\<open>sandReturn\<close>.
\<close>

record frame =
  frTime :: real
  frSettings :: settings
  frMouseInteraction :: bool
  frRepelEffect :: bool
  frInteractionRadius :: int
  frInteractionStrength :: real
  frSandEffect :: bool
  frSandStrength :: real
  frSandReturn :: real

text \<open>
  The procedural displacement: coherent noise when \<^verbatim>\<open>settings.noiseMovement\<close> holds, the
  oscillator otherwise. The result stores the displacement in \<open>offset\<close>. \<open>noise3D\<close> is
  \<^verbatim>\<open>state.simplex.noise3D\<close>, a function of the noise library.
\<close>

definition applyProcedural :: "(real \<Rightarrow> real \<Rightarrow> real \<Rightarrow> real) \<Rightarrow> frame \<Rightarrow> particle \<Rightarrow> particle" where
  "applyProcedural noise3D fr p =
     (let st = frSettings fr in
      if noiseMovement st then
        let no = \<lparr>vx = vx (noiseOffset p) + 0.002 * animationSpeed st,
                  vy = vy (noiseOffset p) + 0.002 * animationSpeed st,
                  vz = vz (noiseOffset p) + 0.002 * animationSpeed st\<rparr>;
            noiseX = noise3D (vx no) (vy no) 0 * noiseScale st * 100;
            noiseY = noise3D (vy no) (vz no) 0 * noiseScale st * 100;
            noiseZ = noise3D (vz no) (vx no) 0 * noiseScale st * 50
        in p\<lparr>noiseOffset := no,
             offset := \<lparr>vx = noiseX, vy = noiseY,
                        vz = noiseZ * (if svgDepth st > 0 then 1 else 0)\<rparr>\<rparr>
      else
        let a = angle p + speed p * animationSpeed st in
        p\<lparr>angle := a,
          offset := \<lparr>vx = sin (a + frTime fr) * amplitude p,
                     vy = cos (a + frTime fr * 1.5) * amplitude p,
                     vz = (if svgDepth st > 0
                           then sin (a + frTime fr * 0.7) * amplitude p * 0.5
                           else vz (offset p))\<rparr>\<rparr>)"

text \<open>\<^verbatim>\<open>if (isStroke) offset.multiplyScalar(1.2)\<close>, which follows \<^verbatim>\<open>newPosition.add(offset)\<close>.\<close>

definition scaleStroke :: "particle \<Rightarrow> particle" where
  "scaleStroke p = (if stroke p then p\<lparr>offset := multiplyScalar (offset p) 1.2\<rparr> else p)"

text \<open>
  The pointer force. \<open>pos\<close> is the position the particle has at the start of the frame
  (\<^verbatim>\<open>particle.position\<close>, respectively the position read from the slot), \<open>newPosition\<close> the
  position being computed; the result is the new \<open>newPosition\<close> with the particle, whose
  velocity changes in sand mode.
\<close>

definition applyMouse :: "vec3 \<Rightarrow> real \<Rightarrow> frame \<Rightarrow> vec3 \<Rightarrow> vec3 \<Rightarrow> particle \<Rightarrow> vec3 \<times> particle" where
  "applyMouse mousePos scale fr pos newPosition p =
     (if frMouseInteraction fr \<and> vlength mousePos > 0 then
        let distanceToMouse = distanceTo pos mousePos in
        if distanceToMouse < real_of_int (frInteractionRadius fr) * scale then
          let forceFactor = (real_of_int (frInteractionRadius fr) * scale - distanceToMouse)
                              / (real_of_int (frInteractionRadius fr) * scale);
              force = frInteractionStrength fr * forceFactor;
              forceDirection = normalize (vsub pos mousePos);
              mouseDisplacement = multiplyScalar forceDirection force
          in (if frRepelEffect fr then vadd newPosition mouseDisplacement
              else vsub newPosition mouseDisplacement,
              if frSandEffect fr then
                (if frRepelEffect fr
                 then p\<lparr>velocity := vadd (velocity p)
                        (multiplyScalar mouseDisplacement (frSandStrength fr * 0.1))\<rparr>
                 else p\<lparr>velocity := vsub (velocity p)
                        (multiplyScalar mouseDisplacement (frSandStrength fr * 0.1))\<rparr>)
              else p)
        else (newPosition, p)
      else (newPosition, p))"

text \<open>
  The spring (sand) physics. \<open>currentPosition\<close> is the position at the start of the frame;
  \<^verbatim>\<open>layer.originalPositions[index]\<close> is \<^verbatim>\<open>undefined\<close> past the end of the array.
\<close>

definition applySand :: "layer \<Rightarrow> frame \<Rightarrow> nat \<Rightarrow> vec3 \<Rightarrow> vec3 \<Rightarrow> particle \<Rightarrow> vec3 \<times> particle" where
  "applySand l fr index currentPosition newPosition p =
     (if frSandEffect fr then
        let targetPosition =
              (if index < length (layer_originalPositions l)
               then vadd (layer_originalPositions l ! index) (offset p)
               else newPosition);
            direction = vsub targetPosition currentPosition;
            returnForce = multiplyScalar direction (0.05 * frSandReturn fr);
            v = multiplyScalar (vadd (velocity p) returnForce) 0.95
        in (vadd currentPosition v, p\<lparr>velocity := v\<rparr>)
      else (newPosition, p))"

text \<open>
  The body of the loop of \<^verbatim>\<open>updateTraditionalParticles\<close> for the particle at \<open>index\<close>;
  \<open>mousePos\<close> is \<^verbatim>\<open>state.mousePosition\<close>.
\<close>

definition updateTraditionalParticle ::
  "(real \<Rightarrow> real \<Rightarrow> real \<Rightarrow> real) \<Rightarrow> vec3 \<Rightarrow> layer \<Rightarrow> frame \<Rightarrow> nat \<Rightarrow> particle \<Rightarrow> particle" where
  "updateTraditionalParticle noise3D mousePos l fr index p =
     (if \<not> visible p then p
      else
        let currentPosition = position p;
            p1 = applyProcedural noise3D fr p;
            newPosition = vadd (originalPosition p) (offset p1);
            p2 = scaleStroke p1;
            (newPosition2, p3) = applyMouse mousePos (layer_scale l) fr (position p) newPosition p2;
            (newPosition3, p4) = applySand l fr index currentPosition newPosition2 p3
        in p4\<lparr>position := newPosition3,
              rotationX := rotationX p4 + 0.01 * animationSpeed (frSettings fr),
              rotationY := rotationY p4 + 0.01 * animationSpeed (frSettings fr)\<rparr>)"

definition updateTraditionalParticles ::
  "(real \<Rightarrow> real \<Rightarrow> real \<Rightarrow> real) \<Rightarrow> vec3 \<Rightarrow> layer \<Rightarrow> frame \<Rightarrow> layer" where
  "updateTraditionalParticles noise3D mousePos l fr =
     (if length (layer_particles l) = 0 then l
      else l\<lparr>layer_particles :=
                map (\<lambda>index. updateTraditionalParticle noise3D mousePos l fr index
                                (layer_particles l ! index)) [0..<length (layer_particles l)]\<rparr>)"

text \<open>
  The body of the loop of \<^verbatim>\<open>updateInstancedParticles\<close>. The slot receives a matrix made of
  the new position, a rotation by \<^verbatim>\<open>0.01 * animationSpeed\<close> about two axes and the size.
\<close>

definition updateInstancedParticle ::
  "(real \<Rightarrow> real \<Rightarrow> real \<Rightarrow> real) \<Rightarrow> vec3 \<Rightarrow> layer \<Rightarrow> frame \<Rightarrow> nat \<Rightarrow> particle \<Rightarrow> particle" where
  "updateInstancedParticle noise3D mousePos l fr index p =
     (if \<not> visible p then p
      else
        let pos = position p;
            p1 = applyProcedural noise3D fr p;
            newPosition = vadd (originalPosition p) (offset p1);
            p2 = scaleStroke p1;
            (newPosition2, p3) = applyMouse mousePos (layer_scale l) fr pos newPosition p2;
            (newPosition3, p4) = applySand l fr index pos newPosition2 p3
        in p4\<lparr>position := newPosition3,
              rotationX := 0.01 * animationSpeed (frSettings fr),
              rotationY := 0.01 * animationSpeed (frSettings fr)\<rparr>)"

definition updateInstancedParticles ::
  "(real \<Rightarrow> real \<Rightarrow> real \<Rightarrow> real) \<Rightarrow> vec3 \<Rightarrow> layer \<Rightarrow> frame \<Rightarrow> layer" where
  "updateInstancedParticles noise3D mousePos l fr =
     (if length (layer_instanceData l) = 0 then l
      else l\<lparr>layer_instanceData :=
                map (\<lambda>index. updateInstancedParticle noise3D mousePos l fr index
                                (layer_instanceData l ! index)) [0..<length (layer_instanceData l)]\<rparr>)"

text \<open>The part of the global \<^verbatim>\<open>state\<close> that the frame update reads and writes.\<close>

record appState =
  layers :: "layer list"
  mousePosition :: vec3
  mouseMoved :: bool

definition clearMousePosition :: "appState \<Rightarrow> appState" where
  "clearMousePosition s = s\<lparr>mousePosition := vzero, mouseMoved := False\<rparr>"

text \<open>
  \<^verbatim>\<open>updateParticlesAnimation\<close>; \<open>now\<close> is the value of \<^verbatim>\<open>performance.now()\<close> and \<open>doc\<close>
  the page that \<^verbatim>\<open>getSettings\<close> reads.
\<close>

definition frameOf :: "settings \<Rightarrow> real \<Rightarrow> appState \<Rightarrow> frame" where
  "frameOf st now s =
     \<lparr>frTime = now * 0.001 * animationSpeed st * 0.5,
      frSettings = st,
      frMouseInteraction = (mouseInteraction st \<and> mouseMoved s),
      frRepelEffect = repelEffect st,
      frInteractionRadius = interactionRadius st,
      frInteractionStrength = interactionStrength st,
      frSandEffect = sandEffect st,
      frSandStrength = sandStrength st,
      frSandReturn = sandReturn st\<rparr>"

definition updateParticlesAnimation ::
  "(jsval \<Rightarrow> int) \<Rightarrow> (jsval \<Rightarrow> real) \<Rightarrow> (real \<Rightarrow> real \<Rightarrow> real \<Rightarrow> real) \<Rightarrow> document \<Rightarrow> real \<Rightarrow>
   appState \<Rightarrow> appState" where
  "updateParticlesAnimation parseInt parseFloat noise3D doc now s =
     (if length (layers s) = 0 then s
      else
        let fr = frameOf (getSettings parseInt parseFloat doc) now s in
        s\<lparr>layers :=
            map (\<lambda>l. if \<not> layer_visible l then l
                      else if layer_useInstanced l
                      then updateInstancedParticles noise3D (mousePosition s) l fr
                      else updateTraditionalParticles noise3D (mousePosition s) l fr)
                (layers s)\<rparr>)"

text \<open>
  Successive frames for one particle: each step carries the pointer position and the frame
  values of its frame.
\<close>

definition runTraditional ::
  "(real \<Rightarrow> real \<Rightarrow> real \<Rightarrow> real) \<Rightarrow> layer \<Rightarrow> nat \<Rightarrow> (vec3 \<times> frame) list \<Rightarrow> particle \<Rightarrow> particle" where
  "runTraditional noise3D l index steps p =
     foldl (\<lambda>q (m, fr). updateTraditionalParticle noise3D m l fr index q) p steps"

definition runInstanced ::
  "(real \<Rightarrow> real \<Rightarrow> real \<Rightarrow> real) \<Rightarrow> layer \<Rightarrow> nat \<Rightarrow> (vec3 \<times> frame) list \<Rightarrow> particle \<Rightarrow> particle" where
  "runInstanced noise3D l index steps p =
     foldl (\<lambda>q (m, fr). updateInstancedParticle noise3D m l fr index q) p steps"

subsection \<open>The pointer force as the specification words it\<close>

text \<open>
  The specification measures the pointer force from the base position of the particle (its
  original position plus the procedural displacement): the distance to the pointer and the
  unit vector from the pointer are both taken at \<open>base\<close>. This definition follows the
  specification, not the source; it serves to compare the two.
\<close>

definition specPointerStep :: "vec3 \<Rightarrow> real \<Rightarrow> frame \<Rightarrow> vec3 \<Rightarrow> vec3" where
  "specPointerStep mousePos scale fr base =
     (if frMouseInteraction fr \<and> vlength mousePos > 0 then
        let distance = distanceTo base mousePos;
            reach = real_of_int (frInteractionRadius fr) * scale
        in if distance < reach then
             let forceFactor = (reach - distance) / reach;
                 force = frInteractionStrength fr * forceFactor;
                 direction = normalize (vsub base mousePos)
             in if frRepelEffect fr then vadd base (multiplyScalar direction force)
                else vsub base (multiplyScalar direction force)
           else base
      else base)"

subsection \<open>Concrete inputs\<close>

text \<open>
  Inputs for the examples below: a visible particle with the given position, original
  position, velocity and stroke flag, whose oscillator has amplitude 0; a visible layer of
  scale 1 in the per-object representation; and the frame values that
  \<^verbatim>\<open>updateParticlesAnimation\<close> derives from given settings at time 0 with the pointer moved
  or not; a noise function that is constant, point objects numbered along the \<open>x\<close> axis
  and random values that are all 0.
\<close>

text \<open>
  A rounding for the examples: it rounds the quotient \<open>30/44\<close> and the product of 22 and the
  rounded quotient as doubles do, to \<open>15 / 22 - 5 / (11 * 2 ^ 53)\<close> and to
  \<open>15 - 1 / 2 ^ 49\<close>, and leaves every other number as it is. The values of
  \<^verbatim>\<open>Math.random()\<close> in the examples are multiples of \<open>1/64\<close>, and the other quotients and
  products that the examples compute from them are doubles, which every rounding leaves as
  they are; only the example with 501 candidates draws the midpoints \<open>(i + 1/2) / 501\<close>,
  which are not doubles and select the index \<open>i\<close> whether they are rounded or not.
\<close>

definition exampleRounding :: "real \<Rightarrow> real" where
  "exampleRounding x =
     (if x = 15 / 22 then 15 / 22 - 5 / (11 * 2 ^ 53)
      else if x = 15 - 10 / 2 ^ 53 then 15 - 1 / 2 ^ 49
      else x)"

definition constNoise :: "real \<Rightarrow> real \<Rightarrow> real \<Rightarrow> real \<Rightarrow> real" where
  "constNoise c a b d = c"

definition pointOnLine :: "nat \<Rightarrow> vec3" where
  "pointOnLine i = \<lparr>vx = real i, vy = 0, vz = 0\<rparr>"

definition zeroDraws :: "nat \<Rightarrow> draws" where
  "zeroDraws i = \<lparr>rSize = 0, rAngle = 0, rSpeed = 0, rAmplitude = 0,
                  rNoiseX = 0, rNoiseY = 0, rNoiseZ = 0\<rparr>"

definition particleAt :: "vec3 \<Rightarrow> vec3 \<Rightarrow> vec3 \<Rightarrow> bool \<Rightarrow> particle" where
  "particleAt pos orig vel isStr =
     \<lparr>position = pos, visible = True, originalPosition = orig, psize = 1, stroke = isStr,
      angle = 0, speed = 0.05, amplitude = 0, offset = vzero, velocity = vel,
      noiseOffset = vzero, rotationX = 0, rotationY = 0\<rparr>"

definition layerOf :: "particle list \<Rightarrow> layer" where
  "layerOf ps =
     \<lparr>layer_visible = True, layer_useInstanced = False, layer_scale = 1,
      layer_particles = ps, layer_instanceData = [],
      layer_originalPositions = map originalPosition ps,
      layer_particleCount = length ps\<rparr>"

definition frameAt :: "settings \<Rightarrow> bool \<Rightarrow> frame" where
  "frameAt st moved = frameOf st 0 \<lparr>layers = [], mousePosition = vzero, mouseMoved = moved\<rparr>"

text \<open>
  What a call of \<^verbatim>\<open>createParticles\<close> leaves in the layer: \<^verbatim>\<open>layer.particleCount\<close>, the
  number of slots of the batched representation and the number of primitives of the
  per-object representation.
\<close>

definition builtCounts :: "(layer \<times> real list) option \<Rightarrow> (nat \<times> nat \<times> nat) option" where
  "builtCounts r =
     map_option (\<lambda>(l, rs). (layer_particleCount l, length (layer_instanceData l),
                             length (layer_particles l))) r"

text \<open>A particle that lies in the plane \<open>z = 0\<close> and neither moves nor is displaced out of it.\<close>

definition flat :: "particle \<Rightarrow> bool" where
  "flat p = (vz (originalPosition p) = 0 \<and> vz (position p) = 0 \<and> vz (offset p) = 0 \<and>
     vz (velocity p) = 0)"

subsection \<open>The energy of the spring\<close>

text \<open>
  Quantities for the analysis of spring mode, not taken from the source: the inner product,
  and for a return setting \<open>s\<close> a quadratic form in the displacement from the original
  position and the velocity, with its discriminant. With \<open>k = 0.95 * 0.05 * s\<close> one frame maps
  displacement \<open>d\<close> and velocity \<open>v\<close> to \<open>d + v'\<close> and \<open>v' = 0.95 * v - k * d\<close>.
\<close>

definition vdot :: "vec3 \<Rightarrow> vec3 \<Rightarrow> real" where
  "vdot a b = vx a * vx b + vy a * vy b + vz a * vz b"

definition springEnergy :: "real \<Rightarrow> particle \<Rightarrow> real" where
  "springEnergy s p =
     (let k = 19 * s / 400;
          d = vsub (position p) (originalPosition p);
          v = velocity p
      in k * vdot d d + (1 / 20 - k) * vdot d v + 19 / 20 * vdot v v)"

definition springDiscriminant :: "real \<Rightarrow> real" where
  "springDiscriminant s = (let k = 19 * s / 400 in 19 / 5 * k - (1 / 20 - k) * (1 / 20 - k))"

text \<open>
  The setting of the spring property: a visible particle whose oscillator has amplitude 0 and
  no stored displacement along \<open>z\<close>, with its original position stored in the layer at its
  index; and a frame with pointer interaction off, spring mode on, return setting \<open>s\<close> and the
  oscillator as procedural mode.
\<close>

definition springReady :: "layer \<Rightarrow> nat \<Rightarrow> particle \<Rightarrow> bool" where
  "springReady l index p =
     (visible p \<and> amplitude p = 0 \<and> vz (offset p) = 0 \<and>
      index < length (layer_originalPositions l) \<and>
      layer_originalPositions l ! index = originalPosition p)"

definition springFrame :: "real \<Rightarrow> frame \<Rightarrow> bool" where
  "springFrame s fr =
     (\<not> frMouseInteraction fr \<and> frSandEffect fr \<and> frSandReturn fr = s \<and>
      \<not> noiseMovement (frSettings fr))"

section \<open>Properties\<close>

subsection \<open>Point selection: rounding of doubles\<close>

lemma doubleRounding_int:
  assumes "doubleRounding rn" and "\<bar>n\<bar> \<le> 2 ^ 53"
  shows "rn (real_of_int n) = real_of_int n"
  using assms unfolding doubleRounding_def by blast

lemma doubleRounding_rel:
  assumes "doubleRounding rn" and "1 / 2 ^ 26 \<le> x" and "x \<le> 2 ^ 26"
  shows "\<bar>rn x - x\<bar> \<le> x / 2 ^ 53"
proof -
  have p: "(2::real) ^ 26 \<le> 2 ^ 1022" "(2::real) ^ 26 \<le> 2 ^ 1023"
    by (rule power_increasing; simp)+
  have "1 / (2::real) ^ 1022 \<le> 1 / 2 ^ 26"
    using p(1) by (intro divide_left_mono) simp_all
  with assms(2) have lo: "1 / 2 ^ 1022 \<le> x" by linarith
  have "(0::real) < 1 / 2 ^ 26" by simp
  with assms(2) have x0: "0 < x" by linarith
  from assms(3) p(2) have hi: "x \<le> 2 ^ 1023" by linarith
  from assms(1) have "1 / 2 ^ 1022 \<le> \<bar>x\<bar> \<and> \<bar>x\<bar> \<le> 2 ^ 1023 \<longrightarrow> \<bar>rn x - x\<bar> \<le> \<bar>x\<bar> / 2 ^ 53"
    unfolding doubleRounding_def by blast
  then show ?thesis using lo hi unfolding abs_of_pos[OF x0] by blast
qed

lemma doubleRounding_nonneg:
  assumes "doubleRounding rn" and "0 \<le> x"
  shows "0 \<le> rn x"
  using assms unfolding doubleRounding_def by blast

lemma doubleRounding_idem:
  assumes "doubleRounding rn"
  shows "rn (rn x) = rn x"
  using assms unfolding doubleRounding_def by blast

lemma doubleRounding_small:
  assumes "doubleRounding rn" and "0 \<le> x" and "x < 1 / 2 ^ 1022"
  shows "\<bar>rn x - x\<bar> \<le> 1 / 2 ^ 1075"
proof -
  from assms(1) have "\<bar>x\<bar> < 1 / 2 ^ 1022 \<longrightarrow> \<bar>rn x - x\<bar> \<le> 1 / 2 ^ 1075"
    unfolding doubleRounding_def by blast
  then show ?thesis using assms(2,3) by simp
qed

lemma doubleRounding_normal:
  assumes "doubleRounding rn" and "1 / 2 ^ 1022 \<le> x" and "x \<le> 2 ^ 25"
  shows "\<bar>rn x - x\<bar> \<le> x / 2 ^ 53"
proof -
  have p: "(2::real) ^ 25 \<le> 2 ^ 1023" by (rule power_increasing; simp)
  have "(0::real) < 1 / 2 ^ 1022" by simp
  with assms(2) have x0: "0 < x" by linarith
  from assms(3) p have hi: "x \<le> 2 ^ 1023" by linarith
  from assms(1) have "1 / 2 ^ 1022 \<le> \<bar>x\<bar> \<and> \<bar>x\<bar> \<le> 2 ^ 1023 \<longrightarrow> \<bar>rn x - x\<bar> \<le> \<bar>x\<bar> / 2 ^ 53"
    unfolding doubleRounding_def by blast
  then show ?thesis using assms(2) hi unfolding abs_of_pos[OF x0] by blast
qed

lemma doubleRounding_near:
  assumes dr: "doubleRounding rn" and x0: "0 \<le> x" and x25: "x \<le> 2 ^ 25"
  shows "\<bar>rn x - x\<bar> \<le> 1 / 2 ^ 28"
proof (cases "x < 1 / 2 ^ 1022")
  case True
  have "(2::real) ^ 28 \<le> 2 ^ 1075" by (rule power_increasing; simp)
  then have "1 / (2::real) ^ 1075 \<le> 1 / 2 ^ 28" by (intro divide_left_mono) simp_all
  with doubleRounding_small[OF dr x0 True] show ?thesis by linarith
next
  case False
  then have "1 / 2 ^ 1022 \<le> x" by simp
  from doubleRounding_normal[OF dr this x25] have "\<bar>rn x - x\<bar> \<le> x / 2 ^ 53" .
  also have "\<dots> \<le> 2 ^ 25 / 2 ^ 53" using x25 by (intro divide_right_mono) simp_all
  also have "\<dots> = 1 / 2 ^ 28" by simp
  finally show ?thesis .
qed

lemma doubleRounding_below:
  assumes dr: "doubleRounding rn" and x0: "0 \<le> x" and n1: "1 \<le> y" and y25: "y \<le> 2 ^ 25"
    and xy: "x \<le> y * (1 - 1 / 2 ^ 53)"
  shows "rn x < y"
proof (cases "x < 1 / 2 ^ 1022")
  case True
  have "(2::real) ^ 1 \<le> 2 ^ 1075" by (rule power_increasing; simp)
  then have a: "1 / (2::real) ^ 1075 \<le> 1 / 2 ^ 1" by (intro divide_left_mono) simp_all
  have "(2::real) ^ 1 \<le> 2 ^ 1022" by (rule power_increasing; simp)
  then have b: "1 / (2::real) ^ 1022 \<le> 1 / 2 ^ 1" by (intro divide_left_mono) simp_all
  from doubleRounding_small[OF dr x0 True] have "rn x \<le> x + 1 / 2 ^ 1075" by linarith
  with a b True have "rn x < 1" by simp
  with n1 show ?thesis by linarith
next
  case False
  then have lo: "1 / 2 ^ 1022 \<le> x" by simp
  have "y * (1 - 1 / 2 ^ 53) \<le> y" using n1 by simp
  with xy y25 have x25: "x \<le> 2 ^ 25" by linarith
  from doubleRounding_normal[OF dr lo x25] have "rn x \<le> x + x / 2 ^ 53" by linarith
  also have "\<dots> = x * (1 + 1 / 2 ^ 53)" by (simp add: algebra_simps)
  also have "\<dots> \<le> (y * (1 - 1 / 2 ^ 53)) * (1 + 1 / 2 ^ 53)"
    using xy by (intro mult_right_mono) simp_all
  also have "\<dots> = y * (1 - 1 / 2 ^ 106)" by (simp add: algebra_simps)
  also have "\<dots> < y" using n1 by simp
  finally show ?thesis .
qed

lemma strokeCount_div:
  "\<lfloor>real_of_int T * (real S / real N)\<rfloor> = (T * int S) div int N"
proof -
  have "real_of_int T * (real S / real N) = real_of_int (T * int S) / real_of_int (int N)"
    by simp
  then show ?thesis by (simp only: floor_divide_of_int_eq)
qed

lemma quota_bounds:
  fixes T :: int and F S :: nat
  assumes "0 \<le> T" "T < int (F + S)"
  defines "k \<equiv> (T * int S) div int (F + S)"
  shows "0 \<le> k" "k \<le> int S" "k \<le> T" "T - k \<le> int F"
proof -
  define N where "N = int (F + S)"
  have N: "0 < N" and TN: "T \<le> N" and NFS: "N = int F + int S"
    using assms by (simp_all add: N_def)
  have k: "k = (T * int S) div N" by (simp add: k_def N_def)
  show "0 \<le> k" unfolding k using assms(1) N by (simp add: pos_imp_zdiv_nonneg_iff)
  have "T * int S \<le> N * int S" using TN by (intro mult_right_mono) simp_all
  then have "k \<le> (N * int S) div N" unfolding k by (rule zdiv_mono1) (rule N)
  then show "k \<le> int S" using N by simp
  have "T * int S \<le> T * N" using assms(1) NFS by (intro mult_left_mono) simp_all
  then have "k \<le> (T * N) div N" unfolding k by (rule zdiv_mono1) (rule N)
  then show "k \<le> T" using N by simp
  have "T * int F \<le> N * int F" using TN by (intro mult_right_mono) simp_all
  then have "(T - int F) * N \<le> T * int S" unfolding NFS by (simp add: algebra_simps)
  then have "((T - int F) * N) div N \<le> k" unfolding k by (rule zdiv_mono1) (rule N)
  then show "T - k \<le> int F" using N by simp
qed

lemma double_product_close:
  fixes T :: int and S N :: nat
  assumes dr: "doubleRounding rn" and T1: "1 \<le> T" and TN: "T < int N" and S1: "1 \<le> S"
    and SN: "S \<le> N" and Nb: "N \<le> 2 ^ 25"
  defines "x \<equiv> real_of_int T * real S / real N"
  defines "y \<equiv> rn (real_of_int T * rn (real S / real N))"
  shows "\<bar>y - x\<bar> < 1 / real N" and "0 < y"
proof -
  define r where "r = real S / real N"
  define u where "u = (1::real) / 2 ^ 53"
  define p where "p = real_of_int T * rn r"
  have N0: "0 < real N" using S1 SN by simp
  have NbR: "real N \<le> 2 ^ 25" using Nb by (metis of_nat_le_iff of_nat_numeral of_nat_power)
  have invN: "1 / 2 ^ 25 \<le> 1 / real N" using N0 NbR by (intro divide_left_mono) simp_all
  have r_lo: "1 / real N \<le> r" unfolding r_def using S1 N0 by (intro divide_right_mono) simp_all
  have r_hi: "r \<le> 1" unfolding r_def using SN N0 by simp
  have r0: "0 < r" unfolding r_def using S1 N0 by simp
  have r25: "1 / 2 ^ 25 \<le> r" using invN r_lo by linarith
  have "1 / (2::real) ^ 26 \<le> 1 / 2 ^ 25" by simp
  then have r26: "1 / 2 ^ 26 \<le> r" using r25 by linarith
  have "r \<le> 2 ^ 26" using r_hi by simp
  from doubleRounding_rel[OF dr r26 this] have er: "\<bar>rn r - r\<bar> \<le> r * u" by (simp add: u_def)
  have T1r: "1 \<le> real_of_int T" using T1 by simp
  have x: "x = real_of_int T * r" by (simp add: x_def r_def)
  have x_lo: "r \<le> x" unfolding x using T1r r0 by (simp add: mult_le_cancel_right1)
  have TNr: "real_of_int T \<le> real N" using TN by linarith
  have "x \<le> real N * r" unfolding x using TNr r0 by (intro mult_right_mono) simp_all
  also have "\<dots> = real S" using N0 by (simp add: r_def)
  finally have x_S: "x \<le> real S" .
  then have x_hi: "x \<le> 2 ^ 25" using SN NbR by linarith
  have x0: "0 < x" using x_lo r0 by linarith
  have "\<bar>p - x\<bar> = real_of_int T * \<bar>rn r - r\<bar>"
    unfolding p_def x using T1r by (simp add: abs_mult right_diff_distrib[symmetric])
  also have "\<dots> \<le> real_of_int T * (r * u)" using er T1r by (intro mult_left_mono) simp_all
  finally have ep: "\<bar>p - x\<bar> \<le> x * u" by (simp add: x mult.assoc)
  have u_small: "u \<le> 1 / 2" "0 < u" by (simp_all add: u_def)
  have xu: "x * u \<le> x / 2" using x0 u_small by simp
  from ep have ep1: "p - x \<le> x * u" and ep2: "x - p \<le> x * u" by (simp_all add: abs_le_iff)
  have p_lo: "x / 2 \<le> p" using ep2 xu by linarith
  have p_hi: "p \<le> 2 * x" using ep1 xu x0 by linarith
  have "1 / 2 ^ 26 \<le> x / 2" using r25 x_lo by simp
  then have p26: "1 / 2 ^ 26 \<le> p" using p_lo by linarith
  have "p \<le> 2 ^ 26" using p_hi x_hi by simp
  from doubleRounding_rel[OF dr p26 this] have ey: "\<bar>y - p\<bar> \<le> p * u"
    by (simp add: y_def p_def r_def u_def)
  have "p * u \<le> (2 * x) * u" using p_hi u_small by (intro mult_right_mono) simp_all
  with ey have ey': "\<bar>y - p\<bar> \<le> 2 * x * u" by linarith
  have "\<bar>y - x\<bar> \<le> \<bar>y - p\<bar> + \<bar>p - x\<bar>" by simp
  with ey' ep have "\<bar>y - x\<bar> \<le> 3 * (x * u)" by linarith
  also have "\<dots> \<le> 3 * (2 ^ 25 * u)" using x_hi u_small by simp
  also have "\<dots> < 1 / 2 ^ 25" by (simp add: u_def)
  finally show "\<bar>y - x\<bar> < 1 / real N" using invN by linarith
  have "p * u \<le> p / 2" using p26 u_small by simp
  moreover have "0 < p" using p_lo x0 by linarith
  moreover from ey have "p - y \<le> p * u" by (simp add: abs_le_iff)
  ultimately show "0 < y" by linarith
qed

lemma double_stroke_count:
  fixes T :: int and F S :: nat
  assumes dr: "doubleRounding rn" and T0: "0 \<le> T" and TN: "T < int (F + S)"
    and Nb: "F + S \<le> 2 ^ 25"
  defines "k \<equiv> (T * int S) div int (F + S)"
  defines "s \<equiv> \<lfloor>rn (real_of_int T * rn (real S / real (F + S)))\<rfloor>"
  shows "0 \<le> s" and "s \<le> int S" and "s \<le> T" and "T - s \<le> int F"
    and "k - 1 \<le> s" and "s \<le> k"
proof -
  note qb = quota_bounds[OF T0 TN, folded k_def]
  have rn0: "rn 0 = 0" using doubleRounding_int[OF dr, of 0] by simp
  have rn1: "rn 1 = 1" using doubleRounding_int[OF dr, of 1] by simp
  have Tb: "\<bar>T\<bar> \<le> 2 ^ 53"
  proof -
    have "int (F + S) \<le> 2 ^ 25" using Nb by (metis of_nat_le_iff of_nat_numeral of_nat_power)
    moreover have "(2::int) ^ 25 \<le> 2 ^ 53" by simp
    ultimately show ?thesis using T0 TN by linarith
  qed
  have rnT: "rn (real_of_int T) = real_of_int T" by (rule doubleRounding_int[OF dr Tb])
  have all: "0 \<le> s \<and> s \<le> int S \<and> s \<le> T \<and> T - s \<le> int F \<and> k - 1 \<le> s \<and> s \<le> k"
  proof (cases "S = 0 \<or> T = 0")
    case True
    then have "s = 0" by (auto simp: s_def rn0)
    moreover from True have "k = 0" by (auto simp: k_def)
    ultimately show ?thesis using T0 TN True qb by auto
  next
    case False
    then have S1: "1 \<le> S" and T1: "1 \<le> T" using T0 by auto
    show ?thesis
    proof (cases "F = 0")
      case True
      then have "s = T" using S1 by (simp add: s_def rn1 rnT)
      moreover from True S1 have "k = T" by (simp add: k_def)
      ultimately show ?thesis using T0 TN True by simp
    next
      case Fpos: False
      define N where "N = F + S"
      define x where "x = real_of_int T * real S / real N"
      define y where "y = rn (real_of_int T * rn (real S / real N))"
      define m where "m = (T * int S) mod int N"
      have N0: "0 < N" using S1 by (simp add: N_def)
      have SN: "S \<le> N" by (simp add: N_def)
      from double_product_close[OF dr T1 TN[folded N_def] S1 SN Nb[folded N_def]]
      have close: "\<bar>y - x\<bar> < 1 / real N" and ypos: "0 < y" by (simp_all add: x_def y_def)
      have s: "s = \<lfloor>y\<rfloor>" by (simp add: s_def y_def N_def)
      have k: "k = (T * int S) div int N" by (simp add: k_def N_def)
      have m: "0 \<le> m" "m < int N" using N0 by (simp_all add: m_def)
      have "T * int S = k * int N + m" by (simp add: k m_def)
      then have "real_of_int (T * int S) = real_of_int (k * int N + m)" by simp
      then have "real_of_int T * real S = real_of_int k * real N + real_of_int m" by simp
      then have xk: "x = real_of_int k + real_of_int m / real N"
        unfolding x_def using N0 by (simp add: field_simps)
      have m_hi: "real_of_int m / real N \<le> 1 - 1 / real N"
      proof -
        have "real_of_int m \<le> real N - 1" using m(2) by linarith
        then have "real_of_int m / real N \<le> (real N - 1) / real N"
          using N0 by (intro divide_right_mono) simp_all
        also have "\<dots> = 1 - 1 / real N" using N0 by (simp add: field_simps)
        finally show ?thesis .
      qed
      have m_lo: "0 \<le> real_of_int m / real N" using m(1) N0 by simp
      have inv1: "1 / real N \<le> 1" using N0 by simp
      from close have c1: "y - x < 1 / real N" and c2: "x - y < 1 / real N"
        by (simp_all add: abs_less_iff)
      have "y < real_of_int (k + 1)" using c1 xk m_hi by simp
      then have "\<lfloor>y\<rfloor> < k + 1" by (simp only: floor_less_iff)
      then have sk: "s \<le> k" unfolding s by simp
      have "real_of_int (k - 1) \<le> y" using c2 xk m_lo inv1 by simp
      then have "k - 1 \<le> \<lfloor>y\<rfloor>" by (simp only: le_floor_iff)
      then have ks: "k - 1 \<le> s" unfolding s by simp
      have s0: "0 \<le> s" unfolding s using ypos by simp
      have fill: "T - s \<le> int F"
      proof (cases "s = k")
        case True
        then show ?thesis using qb(4) by simp
      next
        case False
        with sk ks have sk1: "s = k - 1" by simp
        then have "\<lfloor>y\<rfloor> < k" using s by simp
        then have "y < real_of_int k" by (simp add: floor_less_iff)
        with c2 xk have "real_of_int m / real N < 1 / real N" by simp
        then have "real_of_int m < 1" using N0 by (simp add: divide_less_cancel)
        then have "m = 0" using m(1) by linarith
        then have e: "T * int S = k * int N" by (simp add: m_def k) (metis mult.commute mod_eq_0_iff_dvd dvd_div_mult_self)
        have "(T - k) * int N = T * int F" using e by (simp add: N_def algebra_simps)
        moreover have "T * int F < int N * int F" using TN Fpos by (simp add: N_def)
        ultimately have "(T - k) * int N < int F * int N" by (simp add: mult.commute)
        then have "T - k < int F" using N0 by (simp add: mult_less_cancel_right)
        then show ?thesis using sk1 by simp
      qed
      from s0 sk ks fill qb show ?thesis by simp
    qed
  qed
  from all show "0 \<le> s" and "s \<le> int S" and "s \<le> T" and "T - s \<le> int F"
    and "k - 1 \<le> s" and "s \<le> k" by simp_all
qed

lemma exampleRounding_double: "doubleRounding exampleRounding"
  unfolding doubleRounding_def
proof (intro conjI allI impI)
  fix x :: real
  assume "1 / 2 ^ 1022 \<le> \<bar>x\<bar> \<and> \<bar>x\<bar> \<le> 2 ^ 1023"
  show "\<bar>exampleRounding x - x\<bar> \<le> \<bar>x\<bar> / 2 ^ 53"
    by (simp add: exampleRounding_def)
next
  fix x :: real
  assume a: "\<bar>x\<bar> < 1 / 2 ^ 1022"
  have "(2::real) ^ 1 \<le> 2 ^ 1022" by (rule power_increasing; simp)
  then have "1 / (2::real) ^ 1022 \<le> 1 / 2 ^ 1" by (intro divide_left_mono) simp_all
  with a have "\<bar>x\<bar> < 1 / 2" by simp
  then have "x \<noteq> 15 / 22" "x \<noteq> 15 - 10 / 2 ^ 53" by auto
  then show "\<bar>exampleRounding x - x\<bar> \<le> 1 / 2 ^ 1075"
    by (simp add: exampleRounding_def)
next
  fix x :: real
  assume "0 \<le> x"
  then show "0 \<le> exampleRounding x" by (simp add: exampleRounding_def)
next
  fix x :: real
  show "exampleRounding (exampleRounding x) = exampleRounding x"
    by (simp add: exampleRounding_def)
next
  fix n :: int
  assume "\<bar>n\<bar> \<le> 2 ^ 53"
  have a: "real_of_int n \<noteq> 15 / 22"
  proof
    assume "real_of_int n = 15 / 22"
    then have "real_of_int (22 * n) = real_of_int 15" by simp
    then have "22 * n = 15" by (simp only: of_int_eq_iff)
    then show False by presburger
  qed
  have b: "real_of_int n \<noteq> 15 - 10 / 2 ^ 53"
  proof
    assume "real_of_int n = 15 - 10 / 2 ^ 53"
    then have "real_of_int (2 ^ 53 * n) = real_of_int (15 * 2 ^ 53 - 10)" by simp
    then have "2 ^ 53 * n = 15 * 2 ^ 53 - 10" by (simp only: of_int_eq_iff)
    then have e: "9007199254740992 * n = (135107988821114870::int)" by simp
    show False
    proof (cases "n \<le> 14")
      case True
      with e show False by linarith
    next
      case False
      with e show False by linarith
    qed
  qed
  show "exampleRounding (real_of_int n) = real_of_int n"
    using a b by (simp add: exampleRounding_def)
qed

lemma exampleRounding_rounds_down:
  "\<lfloor>exampleRounding (real_of_int 22 * exampleRounding (real 30 / real 44))\<rfloor> = 14"
  "\<lfloor>real_of_int 22 * real 30 / real 44\<rfloor> = 15"
  by (simp_all add: exampleRounding_def)

subsection \<open>Point selection: the sampling loop\<close>

lemma drawIndices_length:
  "drawIndices rn quota n rs acc = Some (idx, rs') \<Longrightarrow> length idx = max (length acc) (nat quota)"
proof (induction rs arbitrary: acc)
  case Nil
  then show ?case by (auto split: if_splits)
next
  case (Cons r rs)
  show ?case
  proof (cases "int (length acc) < quota")
    case True
    with Cons.prems have "drawIndices rn quota n rs (if randomIndex rn r n \<in> set acc then acc else acc @ [randomIndex rn r n]) = Some (idx, rs')"
      by simp
    from Cons.IH[OF this] True show ?thesis by (auto split: if_splits)
  next
    case False
    with Cons.prems show ?thesis by auto
  qed
qed

lemma drawIndices_distinct:
  "drawIndices rn quota n rs acc = Some (idx, rs') \<Longrightarrow> distinct acc \<Longrightarrow> distinct idx"
  by (induction rs arbitrary: acc) (auto split: if_splits)

lemma randomIndex_less:
  assumes dr: "doubleRounding rn" and r0: "0 \<le> r" and r1: "r \<le> 1 - 1 / 2 ^ 53"
    and n0: "0 < n" and nb: "n \<le> 2 ^ 25"
  shows "randomIndex rn r n < n"
proof -
  have n1: "1 \<le> real n" using n0 by simp
  have n25: "real n \<le> 2 ^ 25" using nb by (metis of_nat_le_iff of_nat_numeral of_nat_power)
  have x0: "0 \<le> r * real n" using r0 by simp
  have "r * real n \<le> (1 - 1 / 2 ^ 53) * real n" using r1 by (intro mult_right_mono) simp_all
  then have xy: "r * real n \<le> real n * (1 - 1 / 2 ^ 53)" by (simp add: mult.commute)
  from doubleRounding_below[OF dr x0 n1 n25 xy] have "rn (r * real n) < real n" .
  then have "\<lfloor>rn (r * real n)\<rfloor> < int n" by (simp add: floor_less_iff)
  moreover have "0 \<le> \<lfloor>rn (r * real n)\<rfloor>" using doubleRounding_nonneg[OF dr x0] by simp
  ultimately show ?thesis unfolding randomIndex_def by linarith
qed

lemma drawIndices_range:
  "drawIndices rn quota n rs acc = Some (idx, rs') \<Longrightarrow> doubleRounding rn \<Longrightarrow>
   validRandom rn rs \<Longrightarrow> 0 < n \<Longrightarrow> n \<le> 2 ^ 25 \<Longrightarrow> set acc \<subseteq> {..<n} \<Longrightarrow>
   set idx \<subseteq> {..<n}"
  by (induction rs arbitrary: acc) (auto split: if_splits simp: validRandom_def randomIndex_less)

lemma drawIndices_append:
  "drawIndices rn quota n rs acc = Some (idx, rest) \<Longrightarrow>
   drawIndices rn quota n (rs @ extra) acc = Some (idx, rest @ extra)"
proof (induction rs arbitrary: acc)
  case Nil
  then show ?case by (cases extra) (auto split: if_splits)
next
  case (Cons r rs)
  then show ?case by (auto split: if_splits)
qed

lemma drawIndices_enough:
  "distinct acc \<Longrightarrow> quota \<le> int (card (set acc \<union> (\<lambda>r. randomIndex rn r n) ` set rs)) \<Longrightarrow>
   \<exists>idx rest. drawIndices rn quota n rs acc = Some (idx, rest)"
proof (induction rs arbitrary: acc)
  case Nil
  then show ?case by (simp add: distinct_card)
next
  case (Cons r rs)
  let ?acc = "if randomIndex rn r n \<in> set acc then acc else acc @ [randomIndex rn r n]"
  have d: "distinct ?acc" using Cons.prems(1) by simp
  have s: "set ?acc \<union> (\<lambda>r. randomIndex rn r n) ` set rs
           = set acc \<union> (\<lambda>r. randomIndex rn r n) ` set (r # rs)" by auto
  from Cons.IH[OF d] Cons.prems(2) s
  have "\<exists>idx rest. drawIndices rn quota n rs ?acc = Some (idx, rest)" by simp
  then show ?case by simp
qed

lemma midpoint_rounded:
  assumes dr: "doubleRounding rn" and i: "i < n" and nb: "n \<le> 2 ^ 25"
  defines "q \<equiv> (real i + 1 / 2) / real n"
  shows "rn (rn q) = rn q" and "0 \<le> rn q" and "rn q \<le> 1 - 1 / 2 ^ 53"
    and "\<bar>rn q * real n - (real i + 1 / 2)\<bar> \<le> 1 / 2 ^ 28"
proof -
  have n0: "0 < real n" using i by simp
  have n25: "real n \<le> 2 ^ 25" using nb by (metis of_nat_le_iff of_nat_numeral of_nat_power)
  have i1: "real i + 1 \<le> real n" using i by linarith
  have q0: "0 \<le> q" using n0 by (simp add: q_def)
  have qn: "q * real n = real i + 1 / 2" using n0 by (simp add: q_def)
  have qlo: "1 / 2 ^ 26 \<le> q"
  proof -
    have "1 / (2 * real n) \<le> q" using n0 by (simp add: q_def field_simps)
    moreover have "1 / (2 * 2 ^ 25) \<le> 1 / (2 * real n)"
      using n0 n25 by (intro divide_left_mono) simp_all
    ultimately show ?thesis by simp
  qed
  have qhi: "q \<le> 1 - 1 / (2 * real n)"
  proof -
    have "real i + 1 / 2 \<le> real n - 1 / 2" using i1 by linarith
    then have "q \<le> (real n - 1 / 2) / real n"
      unfolding q_def using n0 by (intro divide_right_mono) simp_all
    also have "\<dots> = 1 - 1 / (2 * real n)" using n0 by (simp add: field_simps)
    finally show ?thesis .
  qed
  have "1 / (2 * 2 ^ 25) \<le> 1 / (2 * real n)"
    using n0 n25 by (intro divide_left_mono) simp_all
  with qhi have qhi': "q \<le> 1 - 1 / 2 ^ 26" by simp
  then have q26: "q \<le> 2 ^ 26" by simp
  from doubleRounding_rel[OF dr qlo q26] have e: "\<bar>rn q - q\<bar> \<le> q / 2 ^ 53" .
  have e': "\<bar>rn q - q\<bar> \<le> 1 / 2 ^ 53"
  proof -
    have "q / 2 ^ 53 \<le> 1 / 2 ^ 53" using qhi' by (intro divide_right_mono) simp_all
    with e show ?thesis by linarith
  qed
  show "rn (rn q) = rn q" by (rule doubleRounding_idem[OF dr])
  show "0 \<le> rn q" by (rule doubleRounding_nonneg[OF dr q0])
  have c: "(1::real) - 1 / 2 ^ 26 + 1 / 2 ^ 53 \<le> 1 - 1 / 2 ^ 53" by simp
  show "rn q \<le> 1 - 1 / 2 ^ 53" using abs_le_D1[OF e'] qhi' c by linarith
  have "rn q * real n - (real i + 1 / 2) = (rn q - q) * real n"
    unfolding qn[symmetric] by (simp add: algebra_simps)
  then have "\<bar>rn q * real n - (real i + 1 / 2)\<bar> = \<bar>rn q - q\<bar> * real n"
    using n0 by (simp add: abs_mult)
  also have "\<dots> \<le> 1 / 2 ^ 53 * 2 ^ 25" using e' n25 by (intro mult_mono) simp_all
  also have "\<dots> = 1 / 2 ^ 28" by simp
  finally show "\<bar>rn q * real n - (real i + 1 / 2)\<bar> \<le> 1 / 2 ^ 28" .
qed

lemma sweep_valid:
  assumes "doubleRounding rn" and "n \<le> 2 ^ 25"
  shows "validRandom rn (sweep rn n)"
  using midpoint_rounded(1,2,3)[OF assms(1) _ assms(2)]
  by (auto simp: sweep_def validRandom_def list_all_iff)

lemma randomIndex_sweep:
  assumes dr: "doubleRounding rn" and i: "i < n" and nb: "n \<le> 2 ^ 25"
  shows "randomIndex rn (rn ((real i + 1 / 2) / real n)) n = i"
proof -
  define x where "x = rn ((real i + 1 / 2) / real n) * real n"
  have n25: "real n \<le> 2 ^ 25" using nb by (metis of_nat_le_iff of_nat_numeral of_nat_power)
  have i1: "real i + 1 \<le> real n" using i by linarith
  from midpoint_rounded(4)[OF dr i nb] have m: "\<bar>x - (real i + 1 / 2)\<bar> \<le> 1 / 2 ^ 28"
    by (simp add: x_def)
  from abs_le_D1[OF m] abs_le_D2[OF m]
  have xl: "real i + 1 / 2 - 1 / 2 ^ 28 \<le> x" and xu: "x \<le> real i + 1 / 2 + 1 / 2 ^ 28"
    by linarith+
  have x0: "0 \<le> x" using xl by simp
  have c: "(1::real) / 2 + 1 / 2 ^ 28 \<le> 1" by simp
  have x25: "x \<le> 2 ^ 25" using xu i1 n25 c by linarith
  from doubleRounding_near[OF dr x0 x25] have e: "\<bar>rn x - x\<bar> \<le> 1 / 2 ^ 28" .
  have c2: "2 * (1 / 2 ^ 28) < (1::real) / 2" by simp
  from abs_le_D1[OF e] abs_le_D2[OF e] xl xu c2
  have "real i \<le> rn x" "rn x < real i + 1" by linarith+
  then have "\<lfloor>rn x\<rfloor> = int i" by (simp add: floor_eq_iff)
  then show ?thesis by (simp add: randomIndex_def x_def)
qed

lemma sweep_image:
  assumes dr: "doubleRounding rn" and nb: "n \<le> 2 ^ 25"
  shows "{..<n} \<subseteq> (\<lambda>r. randomIndex rn r n) ` set (sweep rn n)"
proof
  fix i assume "i \<in> {..<n}"
  then have i: "i < n" by simp
  have "rn ((real i + 1 / 2) / real n) \<in> set (sweep rn n)" using i by (simp add: sweep_def)
  with randomIndex_sweep[OF dr i nb] show "i \<in> (\<lambda>r. randomIndex rn r n) ` set (sweep rn n)"
    by (metis image_eqI)
qed

lemma drawIndices_rest_valid:
  "drawIndices rn quota n rs acc = Some (idx, rs') \<Longrightarrow> validRandom rn rs \<Longrightarrow> validRandom rn rs'"
  by (induction rs arbitrary: acc) (auto split: if_splits simp: validRandom_def)

lemma drawIndices_sweep:
  assumes dr: "doubleRounding rn" and nb: "n \<le> 2 ^ 25" and q: "quota \<le> int n"
  shows "\<exists>idx rest. drawIndices rn quota n (pre @ sweep rn n @ post) [] = Some (idx, rest @ post)"
proof -
  let ?img = "(\<lambda>r. randomIndex rn r n) ` set (pre @ sweep rn n)"
  have "{..<n} \<subseteq> ?img" using sweep_image[OF dr nb] by auto
  then have "card {..<n} \<le> card ?img" by (intro card_mono) simp_all
  then have "quota \<le> int (card (set [] \<union> ?img))" using q by simp
  from drawIndices_enough[OF _ this]
  obtain idx rest where "drawIndices rn quota n (pre @ sweep rn n) [] = Some (idx, rest)" by auto
  from drawIndices_append[OF this, of post] show ?thesis by auto
qed

lemma drawIndices_trace:
  "drawIndices rn quota n rs acc = Some (idx, rest) \<Longrightarrow>
   \<exists>used. rs = used @ rest \<and>
     idx = foldl addIndex acc (map (\<lambda>r. randomIndex rn r n) used) \<and>
     (\<forall>j<length used.
        int (length (foldl addIndex acc (map (\<lambda>r. randomIndex rn r n) (take j used)))) < quota)"
proof (induction rs arbitrary: acc)
  case Nil
  then show ?case by (auto split: if_splits)
next
  case (Cons r rs)
  show ?case
  proof (cases "int (length acc) < quota")
    case True
    with Cons.prems have
      "drawIndices rn quota n rs (addIndex acc (randomIndex rn r n)) = Some (idx, rest)"
      by (simp add: addIndex_def)
    from Cons.IH[OF this] obtain used where
      u: "rs = used @ rest"
         "idx = foldl addIndex (addIndex acc (randomIndex rn r n)) (map (\<lambda>r. randomIndex rn r n) used)"
         "\<forall>j<length used. int (length (foldl addIndex (addIndex acc (randomIndex rn r n))
              (map (\<lambda>r. randomIndex rn r n) (take j used)))) < quota"
      by blast
    have "\<forall>j<length (r # used).
        int (length (foldl addIndex acc (map (\<lambda>r. randomIndex rn r n) (take j (r # used))))) < quota"
    proof (intro allI impI)
      fix j assume "j < length (r # used)"
      then show "int (length (foldl addIndex acc
                   (map (\<lambda>r. randomIndex rn r n) (take j (r # used))))) < quota"
        using True u(3) by (cases j) auto
    qed
    with u(1,2) show ?thesis by (intro exI[of _ "r # used"]) simp
  next
    case False
    with Cons.prems show ?thesis by (intro exI[of _ "[]"]) auto
  qed
qed

subsection \<open>Point selection: how the loop treats the indices\<close>

text \<open>
  Without rounding a value \<open>r\<close> of \<^verbatim>\<open>Math.random()\<close> would select the index \<open>i\<close> exactly when
  \<open>i \<le> r * n < i + 1\<close>, an interval of length \<open>1 / n\<close> for every index. With rounding the
  ends of the interval move by less than \<open>1 / (2 ^ 27 * n)\<close>: the values with
  \<open>i + 1 / 2 ^ 27 \<le> r * n \<le> i + 1 - 1 / 2 ^ 27\<close> select \<open>i\<close>, and the values that select \<open>i\<close>
  have \<open>i - 1 / 2 ^ 27 \<le> r * n \<le> i + 1 + 1 / 2 ^ 27\<close>. The loop takes the indices as they
  come and so commutes with every renaming of them: among the sequences of a given number
  of index draws, every selection of the same size is produced by equally many.
\<close>

lemma randomIndex_inner:
  assumes dr: "doubleRounding rn" and i: "i < n" and nb: "n \<le> 2 ^ 25"
    and lo: "real i + 1 / 2 ^ 27 \<le> r * real n" and hi: "r * real n \<le> real i + 1 - 1 / 2 ^ 27"
  shows "randomIndex rn r n = i"
proof -
  have n25: "real n \<le> 2 ^ 25" using nb by (metis of_nat_le_iff of_nat_numeral of_nat_power)
  have i1: "real i + 1 \<le> real n" using i by linarith
  have c: "(0::real) \<le> 1 / 2 ^ 27" "(1::real) / 2 ^ 28 < 1 / 2 ^ 27" by simp_all
  have x0: "0 \<le> r * real n" using lo c(1) by linarith
  have x25: "r * real n \<le> 2 ^ 25" using hi i1 n25 c(1) by linarith
  from doubleRounding_near[OF dr x0 x25] have e: "\<bar>rn (r * real n) - r * real n\<bar> \<le> 1 / 2 ^ 28" .
  from abs_le_D1[OF e] abs_le_D2[OF e] lo hi c(2)
  have "real i \<le> rn (r * real n)" "rn (r * real n) < real i + 1" by linarith+
  then have "\<lfloor>rn (r * real n)\<rfloor> = int i" by (simp add: floor_eq_iff)
  then show ?thesis by (simp add: randomIndex_def)
qed

lemma randomIndex_outer:
  assumes dr: "doubleRounding rn" and nb: "n \<le> 2 ^ 25" and r0: "0 \<le> r" and r1: "r \<le> 1"
    and idx: "randomIndex rn r n = i"
  shows "real i - 1 / 2 ^ 27 \<le> r * real n \<and> r * real n \<le> real i + 1 + 1 / 2 ^ 27"
proof -
  have n25: "real n \<le> 2 ^ 25" using nb by (metis of_nat_le_iff of_nat_numeral of_nat_power)
  have c: "(1::real) / 2 ^ 28 < 1 / 2 ^ 27" by simp
  have x0: "0 \<le> r * real n" using r0 by simp
  have "r * real n \<le> 1 * real n" using r1 by (intro mult_right_mono) simp_all
  with n25 have x25: "r * real n \<le> 2 ^ 25" by simp
  from doubleRounding_near[OF dr x0 x25] have e: "\<bar>rn (r * real n) - r * real n\<bar> \<le> 1 / 2 ^ 28" .
  have "0 \<le> \<lfloor>rn (r * real n)\<rfloor>" using doubleRounding_nonneg[OF dr x0] by simp
  with idx have "\<lfloor>rn (r * real n)\<rfloor> = int i" unfolding randomIndex_def by linarith
  then have "real i \<le> rn (r * real n)" "rn (r * real n) < real i + 1"
    by (simp_all add: floor_eq_iff)
  with abs_le_D1[OF e] abs_le_D2[OF e] c show ?thesis by linarith
qed

lemma drawIndices_pick:
  "map_option fst (drawIndices rn quota n rs acc)
     = pickIndices quota (map (\<lambda>r. randomIndex rn r n) rs) acc"
  by (induction rs arbitrary: acc) (simp_all add: addIndex_def)

lemma addIndex_map:
  assumes "inj_on f (insert i (set acc))"
  shows "addIndex (map f acc) (f i) = map f (addIndex acc i)"
proof -
  have "f i \<in> f ` set acc \<longleftrightarrow> i \<in> set acc"
    using assms by (meson inj_on_image_mem_iff insertI1 subset_insertI)
  then show ?thesis by (simp add: addIndex_def)
qed

lemma set_addIndex: "set (addIndex acc i) = insert i (set acc)"
  by (auto simp: addIndex_def)

lemma pickIndices_map:
  assumes "inj_on f (set acc \<union> set is)"
  shows "pickIndices quota (map f is) (map f acc) = map_option (map f) (pickIndices quota is acc)"
  using assms
proof (induction "is" arbitrary: acc)
  case Nil
  then show ?case by simp
next
  case (Cons i "is")
  have a: "inj_on f (insert i (set acc))"
    using Cons.prems by (rule inj_on_subset) auto
  have b: "inj_on f (set (addIndex acc i) \<union> set is)"
    using Cons.prems by (rule inj_on_subset) (auto simp: set_addIndex)
  show ?case using Cons.IH[OF b] by (simp add: addIndex_map[OF a])
qed

lemma extend_to_permutation:
  assumes "distinct A" and "distinct B" and "length A = length B"
    and "set A \<subseteq> {..<n}" and "set B \<subseteq> {..<n::nat}"
  shows "\<exists>f. inj_on f {..<n} \<and> f ` {..<n} \<subseteq> {..<n} \<and> map f A = B"
proof -
  have "card ({..<n} - set A) = card ({..<n} - set B)"
    using assms by (simp add: card_Diff_subset distinct_card)
  then obtain g where g: "bij_betw g ({..<n} - set A) ({..<n} - set B)"
    by (metis finite_Diff finite_lessThan finite_same_card_bij)
  define f where "f x = (if x \<in> set A then the (map_of (zip A B) x) else g x)" for x
  have fA: "f (A ! j) = B ! j" if "j < length A" for j
    using that assms(1,3) by (simp add: f_def map_of_zip_nth)
  have m: "map f A = B"
    using assms(3) fA by (intro nth_equalityI) simp_all
  have fin: "f x \<in> set B" if "x \<in> set A" for x
  proof -
    from that obtain j where "j < length A" "x = A ! j" by (auto simp: in_set_conv_nth)
    then show ?thesis using fA assms(3) by simp
  qed
  have fout: "f x \<in> {..<n} - set B" if "x \<in> {..<n}" "x \<notin> set A" for x
    using that g by (auto simp: f_def bij_betw_def)
  have inj: "inj_on f {..<n}"
  proof (rule inj_onI)
    fix x y assume xy: "x \<in> {..<n}" "y \<in> {..<n}" "f x = f y"
    show "x = y"
    proof (cases "x \<in> set A")
      case xA: True
      show ?thesis
      proof (cases "y \<in> set A")
        case True
        from xA obtain i where i: "i < length A" "x = A ! i" by (auto simp: in_set_conv_nth)
        from True obtain j where j: "j < length A" "y = A ! j" by (auto simp: in_set_conv_nth)
        from xy(3) i j fA have "B ! i = B ! j" by simp
        with assms(2,3) i(1) j(1) have "i = j" by (simp add: nth_eq_iff_index_eq)
        with i j show ?thesis by simp
      next
        case False
        with fin[OF xA] fout[OF xy(2)] xy(3) show ?thesis by auto
      qed
    next
      case xA: False
      show ?thesis
      proof (cases "y \<in> set A")
        case True
        with fin[OF True] fout[OF xy(1) xA] xy(3) show ?thesis by auto
      next
        case False
        with xA xy have "g x = g y" by (simp add: f_def)
        moreover have "inj_on g ({..<n} - set A)" using g by (simp add: bij_betw_def)
        ultimately show ?thesis using xy(1,2) xA False by (auto dest: inj_onD)
      qed
    qed
  qed
  have "f ` {..<n} \<subseteq> {..<n}"
  proof
    fix z assume "z \<in> f ` {..<n}"
    then obtain x where x: "x \<in> {..<n}" "z = f x" by auto
    show "z \<in> {..<n}"
    proof (cases "x \<in> set A")
      case True
      with fin assms(5) x show ?thesis by auto
    next
      case False
      with fout x show ?thesis by auto
    qed
  qed
  with inj m show ?thesis by blast
qed

lemma selections_card_le:
  assumes "distinct A" and "distinct B" and "length A = length B"
    and "set A \<subseteq> {..<n}" and "set B \<subseteq> {..<n::nat}"
  shows "card {is. length is = L \<and> set is \<subseteq> {..<n} \<and> pickIndices quota is [] = Some A}
         \<le> card {is. length is = L \<and> set is \<subseteq> {..<n} \<and> pickIndices quota is [] = Some B}"
proof -
  let ?SA = "{is. length is = L \<and> set is \<subseteq> {..<n} \<and> pickIndices quota is [] = Some A}"
  let ?SB = "{is. length is = L \<and> set is \<subseteq> {..<n} \<and> pickIndices quota is [] = Some B}"
  from extend_to_permutation[OF assms] obtain f where
    f: "inj_on f {..<n}" "f ` {..<n} \<subseteq> {..<n}" "map f A = B" by blast
  have fin: "finite ?SB"
  proof (rule finite_subset)
    show "?SB \<subseteq> {is. set is \<subseteq> {..<n} \<and> length is = L}" by auto
    show "finite {is. set is \<subseteq> {..<n} \<and> length is = L}" by (rule finite_lists_length_eq) simp
  qed
  have img: "map f ` ?SA \<subseteq> ?SB"
  proof
    fix js assume "js \<in> map f ` ?SA"
    then obtain "is" where i: "length is = L" "set is \<subseteq> {..<n}"
      "pickIndices quota is [] = Some A" "js = map f is" by auto
    have "inj_on f (set [] \<union> set is)" using f(1) i(2) by (auto intro: inj_on_subset)
    from pickIndices_map[OF this, of quota] i(3) f(3)
    have "pickIndices quota js [] = Some B" by (simp add: i(4))
    moreover have "set js \<subseteq> {..<n}" using i(2,4) f(2) by auto
    ultimately show "js \<in> ?SB" using i(1,4) by simp
  qed
  have inj: "inj_on (map f) ?SA"
  proof (rule inj_onI)
    fix xs ys assume "xs \<in> ?SA" "ys \<in> ?SA" "map f xs = map f ys"
    then have "set xs \<subseteq> {..<n}" "set ys \<subseteq> {..<n}" "map f xs = map f ys" by simp_all
    then show "xs = ys"
      using f(1) by (metis inj_on_map_eq_map inj_on_subset Un_least)
  qed
  from card_inj_on_le[OF inj img fin] show ?thesis .
qed

lemma selections_equally_many:
  assumes "distinct A" and "distinct B" and "length A = length B"
    and "set A \<subseteq> {..<n}" and "set B \<subseteq> {..<n::nat}"
  shows "card {is. length is = L \<and> set is \<subseteq> {..<n} \<and> pickIndices quota is [] = Some A}
         = card {is. length is = L \<and> set is \<subseteq> {..<n} \<and> pickIndices quota is [] = Some B}"
  using selections_card_le[OF assms(1,2,3,4,5), of L quota]
        selections_card_le[OF assms(2,1) assms(3)[symmetric] assms(5,4), of L quota]
  by (rule order_antisym)

subsection \<open>Point selection: the shape of the result\<close>

lemma samplePoints_structure:
  fixes targetCount :: int
  assumes dr: "doubleRounding rn"
    and T0: "0 \<le> targetCount"
    and TN: "targetCount < int (length points)"
    and N: "length points = length fillPoints + length strokePoints"
    and Nb: "length points \<le> 2 ^ 25"
    and res: "samplePoints rn points strokePoints fillPoints targetCount colors strokeColors
                fillColors rs = Some (res, rs')"
  defines "sc \<equiv> \<lfloor>rn (real_of_int targetCount
                        * rn (real (length strokePoints) / real (length points)))\<rfloor>"
  shows "\<exists>used1 used2.
           rs = used1 @ used2 @ rs' \<and>
           res = map (\<lambda>index. \<lparr>point = strokePoints ! index, isStroke = True,
                                color = colorAt strokeColors index\<rparr>)
                   (collected rn (length strokePoints) used1) @
                 map (\<lambda>index. \<lparr>point = fillPoints ! index, isStroke = False,
                                color = colorAt fillColors index\<rparr>)
                   (collected rn (length fillPoints) used2) \<and>
           distinct (collected rn (length strokePoints) used1) \<and>
           distinct (collected rn (length fillPoints) used2) \<and>
           int (length (collected rn (length strokePoints) used1)) = sc \<and>
           int (length (collected rn (length fillPoints) used2)) = targetCount - sc \<and>
           (\<forall>j<length used1. int (length (collected rn (length strokePoints) (take j used1))) < sc) \<and>
           (\<forall>j<length used2.
              int (length (collected rn (length fillPoints) (take j used2))) < targetCount - sc) \<and>
           (validRandom rn rs \<longrightarrow>
              set (collected rn (length strokePoints) used1) \<subseteq> {..<length strokePoints} \<and>
              set (collected rn (length fillPoints) used2) \<subseteq> {..<length fillPoints})"
proof -
  let ?S = "length strokePoints" and ?F = "length fillPoints"
  have TN': "targetCount < int (?F + ?S)" using TN N by simp
  have Nb': "?F + ?S \<le> 2 ^ 25" using Nb N by simp
  have kb: "0 \<le> sc" "sc \<le> int ?S" "sc \<le> targetCount" "targetCount - sc \<le> int ?F"
    using double_stroke_count[OF dr T0 TN' Nb'] by (simp_all add: sc_def N)
  obtain strokeIndices rs1 where
    s1: "(if ?S > 0 then drawIndices rn (min sc (int ?S)) ?S rs [] else Some ([], rs))
           = Some (strokeIndices, rs1)"
    using res TN unfolding samplePoints_def Let_def sc_def[symmetric]
    by (auto split: if_splits option.splits prod.splits)
  obtain fillIndices rs2 where
    s2: "(if ?F > 0 then drawIndices rn (min (targetCount - sc) (int ?F)) ?F rs1 []
          else Some ([], rs1)) = Some (fillIndices, rs2)"
    using res TN s1 unfolding samplePoints_def Let_def sc_def[symmetric]
    by (auto split: if_splits option.splits prod.splits)
  have ex1: "\<exists>used1. rs = used1 @ rs1 \<and> strokeIndices = collected rn ?S used1 \<and>
               (\<forall>j<length used1. int (length (collected rn ?S (take j used1))) < sc)"
  proof (cases "?S > 0")
    case True
    with s1 have "drawIndices rn (min sc (int ?S)) ?S rs [] = Some (strokeIndices, rs1)" by simp
    from drawIndices_trace[OF this] kb(2) show ?thesis by (simp add: collected_def)
  next
    case False
    with s1 show ?thesis by (intro exI[of _ "[]"]) (simp add: collected_def)
  qed
  have ex2: "\<exists>used2. rs1 = used2 @ rs2 \<and> fillIndices = collected rn ?F used2 \<and>
               (\<forall>j<length used2. int (length (collected rn ?F (take j used2))) < targetCount - sc)"
  proof (cases "?F > 0")
    case True
    with s2 have "drawIndices rn (min (targetCount - sc) (int ?F)) ?F rs1 []
                    = Some (fillIndices, rs2)" by simp
    from drawIndices_trace[OF this] kb(4) show ?thesis by (simp add: collected_def)
  next
    case False
    with s2 show ?thesis by (intro exI[of _ "[]"]) (simp add: collected_def)
  qed
  from ex1 obtain used1 where u1: "rs = used1 @ rs1" "strokeIndices = collected rn ?S used1"
    "\<forall>j<length used1. int (length (collected rn ?S (take j used1))) < sc" by blast
  from ex2 obtain used2 where u2: "rs1 = used2 @ rs2" "fillIndices = collected rn ?F used2"
    "\<forall>j<length used2. int (length (collected rn ?F (take j used2))) < targetCount - sc" by blast
  have ls: "int (length strokeIndices) = sc"
  proof (cases "?S > 0")
    case True
    with s1 have "drawIndices rn (min sc (int ?S)) ?S rs [] = Some (strokeIndices, rs1)" by simp
    from drawIndices_length[OF this] kb show ?thesis by simp
  next
    case False
    with s1 kb show ?thesis by simp
  qed
  have lf: "int (length fillIndices) = targetCount - sc"
  proof (cases "?F > 0")
    case True
    with s2 have "drawIndices rn (min (targetCount - sc) (int ?F)) ?F rs1 []
                    = Some (fillIndices, rs2)" by simp
    from drawIndices_length[OF this] kb show ?thesis by simp
  next
    case False
    with s2 kb show ?thesis by simp
  qed
  have ds: "distinct strokeIndices" using s1 by (auto split: if_splits dest: drawIndices_distinct)
  have df: "distinct fillIndices" using s2 by (auto split: if_splits dest: drawIndices_distinct)
  have rng: "validRandom rn rs \<longrightarrow> set strokeIndices \<subseteq> {..<?S} \<and> set fillIndices \<subseteq> {..<?F}"
  proof
    assume v: "validRandom rn rs"
    have Sb: "?S \<le> 2 ^ 25" and Fb: "?F \<le> 2 ^ 25" using N Nb by simp_all
    have a: "set strokeIndices \<subseteq> {..<?S}"
    proof (cases "?S > 0")
      case True
      with s1 have "drawIndices rn (min sc (int ?S)) ?S rs [] = Some (strokeIndices, rs1)" by simp
      from drawIndices_range[OF this dr v True Sb] show ?thesis by simp
    next
      case False
      with s1 show ?thesis by simp
    qed
    have v1: "validRandom rn rs1"
      using s1 v by (auto split: if_splits dest: drawIndices_rest_valid)
    have b: "set fillIndices \<subseteq> {..<?F}"
    proof (cases "?F > 0")
      case True
      with s2 have "drawIndices rn (min (targetCount - sc) (int ?F)) ?F rs1 []
                      = Some (fillIndices, rs2)" by simp
      from drawIndices_range[OF this dr v1 True Fb] show ?thesis by simp
    next
      case False
      with s2 show ?thesis by simp
    qed
    from a b show "set strokeIndices \<subseteq> {..<?S} \<and> set fillIndices \<subseteq> {..<?F}" by simp
  qed
  have r: "res = map (\<lambda>index. \<lparr>point = strokePoints ! index, isStroke = True,
                                color = colorAt strokeColors index\<rparr>) strokeIndices @
                 map (\<lambda>index. \<lparr>point = fillPoints ! index, isStroke = False,
                                color = colorAt fillColors index\<rparr>) fillIndices \<and> rs' = rs2"
  proof (cases "strokeIndices = [] \<and> fillIndices = []")
    case True
    then have "targetCount = 0" using ls lf by simp
    then show ?thesis using res TN True s1 s2 unfolding samplePoints_def Let_def sc_def[symmetric]
      by (cases rs2) (auto split: if_splits)
  next
    case False
    then show ?thesis using res TN s1 s2 unfolding samplePoints_def Let_def sc_def[symmetric]
      by (auto split: if_splits)
  qed
  have "rs = used1 @ used2 @ rs'" using u1(1) u2(1) r by simp
  then show ?thesis using r ds df ls lf rng u1 u2 by blast
qed

lemma samplePoints_terminates:
  assumes dr: "doubleRounding rn"
    and Sb: "length strokePoints \<le> 2 ^ 25" and Fb: "length fillPoints \<le> 2 ^ 25"
    and Nb: "length points \<le> 2 ^ 25"
  shows "\<exists>rs1. validRandom rn rs1 \<and>
     samplePoints rn points strokePoints fillPoints targetCount colors strokeColors fillColors
       (rs0 @ rs1) \<noteq> None"
proof (cases "int (length points) \<le> targetCount")
  case True
  then have "samplePoints rn points strokePoints fillPoints targetCount colors strokeColors
               fillColors (rs0 @ []) \<noteq> None"
    by (simp add: samplePoints_def)
  moreover have "validRandom rn []" by (simp add: validRandom_def)
  ultimately show ?thesis by blast
next
  case False
  let ?S = "length strokePoints" and ?F = "length fillPoints" and ?N = "length points"
  let ?rs1 = "sweep rn ?S @ sweep rn ?F @ sweep rn ?N"
  define sc where "sc = \<lfloor>rn (real_of_int targetCount * rn (real ?S / real ?N))\<rfloor>"
  define qs where "qs = min sc (int ?S)"
  define qf where "qf = min (targetCount - sc) (int ?F)"
  have "qs \<le> int ?S" by (simp add: qs_def)
  from drawIndices_sweep[OF dr Sb this, of rs0 "sweep rn ?F @ sweep rn ?N"]
  obtain si r1 where 1: "drawIndices rn qs ?S (rs0 @ ?rs1) [] = Some (si, r1 @ sweep rn ?F @ sweep rn ?N)"
    by auto
  define r1' where "r1' = (if ?S > 0 then r1 else rs0 @ sweep rn ?S)"
  define si' where "si' = (if ?S > 0 then si else [])"
  have st1: "(if ?S > 0 then drawIndices rn qs ?S (rs0 @ ?rs1) [] else Some ([], rs0 @ ?rs1))
            = Some (si', r1' @ sweep rn ?F @ sweep rn ?N)"
    using 1 by (simp add: r1'_def si'_def)
  have "qf \<le> int ?F" by (simp add: qf_def)
  from drawIndices_sweep[OF dr Fb this, of r1' "sweep rn ?N"]
  obtain fi r2 where 2: "drawIndices rn qf ?F (r1' @ sweep rn ?F @ sweep rn ?N) [] = Some (fi, r2 @ sweep rn ?N)"
    by auto
  define r2' where "r2' = (if ?F > 0 then r2 else r1' @ sweep rn ?F)"
  define fi' where "fi' = (if ?F > 0 then fi else [])"
  have st2: "(if ?F > 0 then drawIndices rn qf ?F (r1' @ sweep rn ?F @ sweep rn ?N) []
              else Some ([], r1' @ sweep rn ?F @ sweep rn ?N))
            = Some (fi', r2' @ sweep rn ?N)"
    using 2 by (simp add: r2'_def fi'_def)
  have "targetCount \<le> int ?N" using False by simp
  from drawIndices_sweep[OF dr Nb this, of r2' "[]"]
  obtain ai r3 where 3: "drawIndices rn targetCount ?N (r2' @ sweep rn ?N) [] = Some (ai, r3)"
    by auto
  have "samplePoints rn points strokePoints fillPoints targetCount colors strokeColors fillColors
          (rs0 @ ?rs1) \<noteq> None"
    unfolding samplePoints_def Let_def sc_def[symmetric]
    apply (simp only: False if_False st1[unfolded qs_def] st2[unfolded qf_def] option.case
        prod.case 3)
    apply (simp split: if_splits)
    done
  moreover have "validRandom rn ?rs1"
    using sweep_valid[OF dr Sb] sweep_valid[OF dr Fb] sweep_valid[OF dr Nb]
    by (simp add: validRandom_def)
  ultimately show ?thesis by blast
qed

subsection \<open>Point selection: the number and the kind of the selected points\<close>

text \<open>
  Claim C2. For every candidate set made of the fill points and the outline points and every
  target count of at least 1, whenever \<^verbatim>\<open>samplePoints\<close> returns, it returns exactly
  \<open>min(target, |fill| + |outline|)\<close> points, and all candidates in their order when there are
  no more candidates than the target. It can always return: whatever values
  \<^verbatim>\<open>Math.random()\<close> has produced so far, there are further values on which the sampling
  loops end. The rounding of the doubles can lower the number of outline points by one; the
  number of fill points then rises by one and the total is the same. The bound on the
  number \<open>N\<close> of candidates keeps the rounding error of the product below \<open>1 / N\<close>, and an
  exact product that is not an integer is at least that far from the integers. The
  candidates are pixels of the two scans of the 2000 by 2000 canvas, the first with a step
  of at least 2 and the second with a step of at least 1: fewer than 5 000 000, and
  \<open>2\<^sup>2\<^sup>5\<close> is above 33 000 000.
\<close>

theorem C2_selection_returns_min_count:
  fixes targetCount :: int
  assumes "doubleRounding rn"
    and "1 \<le> targetCount"
    and "length points = length fillPoints + length strokePoints"
    and "length points \<le> 2 ^ 25"
  shows "(\<forall>rs res rs'.
            samplePoints rn points strokePoints fillPoints targetCount colors strokeColors
              fillColors rs = Some (res, rs') \<longrightarrow>
            int (length res) = min targetCount (int (length points)) \<and>
            (int (length points) \<le> targetCount \<longrightarrow> map point res = points)) \<and>
         (\<forall>rs0. \<exists>rs1. validRandom rn rs1 \<and>
            samplePoints rn points strokePoints fillPoints targetCount colors strokeColors
              fillColors (rs0 @ rs1) \<noteq> None)"
proof (intro conjI allI impI)
  fix rs res rs'
  assume r: "samplePoints rn points strokePoints fillPoints targetCount colors strokeColors
               fillColors rs = Some (res, rs')"
  show "int (length res) = min targetCount (int (length points))"
  proof (cases "int (length points) \<le> targetCount")
    case True
    with r show ?thesis by (auto simp: samplePoints_def)
  next
    case False
    then have TN: "targetCount < int (length points)" by simp
    have T0: "0 \<le> targetCount" using assms(2) by simp
    from samplePoints_structure[OF assms(1) T0 TN assms(3,4) r]
    obtain used1 used2 where
      "res = map (\<lambda>index. \<lparr>point = strokePoints ! index, isStroke = True,
                                color = colorAt strokeColors index\<rparr>)
               (collected rn (length strokePoints) used1) @
             map (\<lambda>index. \<lparr>point = fillPoints ! index, isStroke = False,
                                color = colorAt fillColors index\<rparr>)
               (collected rn (length fillPoints) used2)"
      and "int (length (collected rn (length strokePoints) used1))
             = \<lfloor>rn (real_of_int targetCount
                     * rn (real (length strokePoints) / real (length points)))\<rfloor>"
      and "int (length (collected rn (length fillPoints) used2))
             = targetCount - \<lfloor>rn (real_of_int targetCount
                     * rn (real (length strokePoints) / real (length points)))\<rfloor>"
      by blast
    then show ?thesis using TN by simp
  qed
  show "map point res = points" if "int (length points) \<le> targetCount"
    using r that by (auto simp: samplePoints_def o_def map_nth)
next
  fix rs0
  show "\<exists>rs1. validRandom rn rs1 \<and>
            samplePoints rn points strokePoints fillPoints targetCount colors strokeColors
              fillColors (rs0 @ rs1) \<noteq> None"
    using assms(3,4) by (intro samplePoints_terminates[OF assms(1)]) simp_all
qed

text \<open>The theorem at four candidates, two of them outline points, and target 3.\<close>

theorem C2_selection_returns_min_count_witness:
  "doubleRounding exampleRounding \<and> (1::int) \<le> 3 \<and>
   length [10, 11, 20, 21 :: nat] = length [10, 11 :: nat] + length [20, 21 :: nat] \<and>
   length [10, 11, 20, 21 :: nat] \<le> 2 ^ 25 \<and>
   validRandom exampleRounding [1/2, 7/8, 1/4, 3/4, 1/8] \<and>
   samplePoints exampleRounding [10, 11, 20, 21 :: nat] [20, 21] [10, 11] 3 [] [] []
      [1/2, 7/8, 1/4, 3/4, 1/8] =
     Some ([\<lparr>point = 21, isStroke = True, color = None\<rparr>,
            \<lparr>point = 11, isStroke = False, color = None\<rparr>,
            \<lparr>point = 10, isStroke = False, color = None\<rparr>], [3/4, 1/8]) \<and>
   int (length [\<lparr>point = 21::nat, isStroke = True, color = None\<rparr>,
            \<lparr>point = 11, isStroke = False, color = None\<rparr>,
            \<lparr>point = 10, isStroke = False, color = None\<rparr>])
     = min 3 (int (length [10, 11, 20, 21 :: nat]))"
proof -
  have v: "validRandom exampleRounding [1/2, 7/8, 1/4, 3/4, 1/8]"
    by (simp add: validRandom_def exampleRounding_def)
  have e: "samplePoints exampleRounding [10, 11, 20, 21 :: nat] [20, 21] [10, 11] 3
      [] [] [] [1/2, 7/8, 1/4, 3/4, 1/8] =
     Some ([\<lparr>point = 21, isStroke = True, color = None\<rparr>,
            \<lparr>point = 11, isStroke = False, color = None\<rparr>,
            \<lparr>point = 10, isStroke = False, color = None\<rparr>], [3/4, 1/8])"
    by (simp add: samplePoints_def exampleRounding_def randomIndex_def colorAt_def)
  have h: "(1::int) \<le> 3" by simp
  have n: "length [10, 11, 20, 21 :: nat] = length [10, 11 :: nat] + length [20, 21 :: nat]"
    by simp
  have b: "length [10, 11, 20, 21 :: nat] \<le> 2 ^ 25" by simp
  note t = C2_selection_returns_min_count[OF exampleRounding_double h n b, THEN conjunct1,
      rule_format, OF e, THEN conjunct1]
  from exampleRounding_double h n b v e t show ?thesis by (intro conjI)
qed

text \<open>
  Claim C5. With \<open>F\<close> fill points, \<open>O\<close> outline points and a target \<open>T < F + O\<close>, the number of
  outline points selected is the floor of the product \<open>T * (O / (F + O))\<close> as computed in
  doubles. It is \<open>\<lfloor>T * O / (F + O)\<rfloor>\<close> or one less, and the fill points are the remaining
  \<open>T\<close> minus that number. Both kinds are sampled without replacement by the draws: the
  outline indices are the different values of \<^verbatim>\<open>Math.floor(Math.random() * O)\<close> among the
  draws \<open>used1\<close> that the first loop consumes, in the order of their first appearance, the
  loop stops with the draw that completes the number, and the fill indices come in the same
  way from the draws \<open>used2\<close> that follow. The sampling can always end. It is uniform in
  that every index \<open>i\<close> of \<open>n\<close> is selected by the values of \<^verbatim>\<open>Math.random()\<close> in an interval
  whose ends are those of \<open>[i / n, (i + 1) / n)\<close> up to \<open>1 / (2 ^ 27 * n)\<close>, and that among the
  sequences of any number of index draws every selection of the same size is produced by
  equally many. How \<^verbatim>\<open>Math.random()\<close> distributes its values is not part of the model.
\<close>

theorem C5_quota_proportionality:
  fixes targetCount :: int
  assumes "doubleRounding rn"
    and "0 \<le> targetCount"
    and "targetCount < int (length fillPoints + length strokePoints)"
    and "length points = length fillPoints + length strokePoints"
    and "length points \<le> 2 ^ 25"
  shows
    "let strokeCount = \<lfloor>rn (real_of_int targetCount
                            * rn (real (length strokePoints) / real (length points)))\<rfloor>;
         exact = \<lfloor>real_of_int targetCount * real (length strokePoints)
                   / real (length fillPoints + length strokePoints)\<rfloor>
     in exact - 1 \<le> strokeCount \<and> strokeCount \<le> exact \<and> 0 \<le> strokeCount \<and>
        strokeCount \<le> targetCount \<and>
        (\<forall>rs res rs'.
           validRandom rn rs \<and>
           samplePoints rn points strokePoints fillPoints targetCount colors strokeColors
             fillColors rs = Some (res, rs') \<longrightarrow>
           (\<exists>used1 used2.
              rs = used1 @ used2 @ rs' \<and>
              res = map (\<lambda>index. \<lparr>point = strokePoints ! index, isStroke = True,
                                   color = colorAt strokeColors index\<rparr>)
                      (collected rn (length strokePoints) used1) @
                    map (\<lambda>index. \<lparr>point = fillPoints ! index, isStroke = False,
                                   color = colorAt fillColors index\<rparr>)
                      (collected rn (length fillPoints) used2) \<and>
              distinct (collected rn (length strokePoints) used1) \<and>
              set (collected rn (length strokePoints) used1) \<subseteq> {..<length strokePoints} \<and>
              int (length (collected rn (length strokePoints) used1)) = strokeCount \<and>
              (\<forall>j<length used1.
                 int (length (collected rn (length strokePoints) (take j used1))) < strokeCount) \<and>
              distinct (collected rn (length fillPoints) used2) \<and>
              set (collected rn (length fillPoints) used2) \<subseteq> {..<length fillPoints} \<and>
              int (length (collected rn (length fillPoints) used2)) = targetCount - strokeCount \<and>
              (\<forall>j<length used2.
                 int (length (collected rn (length fillPoints) (take j used2)))
                   < targetCount - strokeCount) \<and>
              int (length (filter isStroke res)) = strokeCount \<and>
              int (length (filter (\<lambda>e. \<not> isStroke e) res)) = targetCount - strokeCount)) \<and>
        (\<forall>rs0. \<exists>rs1. validRandom rn rs1 \<and>
           samplePoints rn points strokePoints fillPoints targetCount colors strokeColors
             fillColors (rs0 @ rs1) \<noteq> None) \<and>
        (\<forall>quota n rs.
           map_option fst (drawIndices rn quota n rs [])
             = pickIndices quota (map (\<lambda>r. randomIndex rn r n) rs) []) \<and>
        (\<forall>n i r. i < n \<and> n \<le> 2 ^ 25 \<and>
           real i + 1 / 2 ^ 27 \<le> r * real n \<and> r * real n \<le> real i + 1 - 1 / 2 ^ 27 \<longrightarrow>
           randomIndex rn r n = i) \<and>
        (\<forall>n i r. n \<le> 2 ^ 25 \<and> 0 \<le> r \<and> r \<le> 1 \<and> randomIndex rn r n = i \<longrightarrow>
           real i - 1 / 2 ^ 27 \<le> r * real n \<and> r * real n \<le> real i + 1 + 1 / 2 ^ 27) \<and>
        (\<forall>quota n L A B.
           distinct A \<and> distinct B \<and> length A = length B \<and>
           set A \<subseteq> {..<n} \<and> set B \<subseteq> {..<n} \<longrightarrow>
           card {is. length is = L \<and> set is \<subseteq> {..<n} \<and> pickIndices quota is [] = Some A}
             = card {is. length is = L \<and> set is \<subseteq> {..<n} \<and> pickIndices quota is [] = Some B})"
proof -
  define sc where "sc = \<lfloor>rn (real_of_int targetCount
                            * rn (real (length strokePoints) / real (length points)))\<rfloor>"
  define ex where "ex = \<lfloor>real_of_int targetCount * real (length strokePoints)
                   / real (length fillPoints + length strokePoints)\<rfloor>"
  have TN: "targetCount < int (length points)" using assms(3,4) by simp
  have Nb: "length fillPoints + length strokePoints \<le> 2 ^ 25" using assms(4,5) by simp
  have exk: "ex = (targetCount * int (length strokePoints))
                    div int (length fillPoints + length strokePoints)"
    using strokeCount_div[of targetCount "length strokePoints"
        "length fillPoints + length strokePoints"]
    by (simp add: ex_def)
  note b = double_stroke_count[OF assms(1,2,3) Nb, folded exk,
      unfolded assms(4)[symmetric], folded sc_def]
  have c1: "ex - 1 \<le> sc \<and> sc \<le> ex \<and> 0 \<le> sc \<and> sc \<le> targetCount"
    using b by simp
  have c2: "\<forall>rs res rs'.
           validRandom rn rs \<and>
           samplePoints rn points strokePoints fillPoints targetCount colors strokeColors
             fillColors rs = Some (res, rs') \<longrightarrow>
           (\<exists>used1 used2.
              rs = used1 @ used2 @ rs' \<and>
              res = map (\<lambda>index. \<lparr>point = strokePoints ! index, isStroke = True,
                                   color = colorAt strokeColors index\<rparr>)
                      (collected rn (length strokePoints) used1) @
                    map (\<lambda>index. \<lparr>point = fillPoints ! index, isStroke = False,
                                   color = colorAt fillColors index\<rparr>)
                      (collected rn (length fillPoints) used2) \<and>
              distinct (collected rn (length strokePoints) used1) \<and>
              set (collected rn (length strokePoints) used1) \<subseteq> {..<length strokePoints} \<and>
              int (length (collected rn (length strokePoints) used1)) = sc \<and>
              (\<forall>j<length used1.
                 int (length (collected rn (length strokePoints) (take j used1))) < sc) \<and>
              distinct (collected rn (length fillPoints) used2) \<and>
              set (collected rn (length fillPoints) used2) \<subseteq> {..<length fillPoints} \<and>
              int (length (collected rn (length fillPoints) used2)) = targetCount - sc \<and>
              (\<forall>j<length used2.
                 int (length (collected rn (length fillPoints) (take j used2)))
                   < targetCount - sc) \<and>
              int (length (filter isStroke res)) = sc \<and>
              int (length (filter (\<lambda>e. \<not> isStroke e) res)) = targetCount - sc)"
  proof (intro allI impI)
    fix rs res rs'
    assume a: "validRandom rn rs \<and>
           samplePoints rn points strokePoints fillPoints targetCount colors strokeColors
             fillColors rs = Some (res, rs')"
    then have v: "validRandom rn rs" and r: "samplePoints rn points strokePoints fillPoints
        targetCount colors strokeColors fillColors rs = Some (res, rs')" by simp_all
    from samplePoints_structure[OF assms(1,2) TN assms(4,5) r, folded sc_def] v
    obtain used1 used2 where
      u: "rs = used1 @ used2 @ rs'"
      and re: "res = map (\<lambda>index. \<lparr>point = strokePoints ! index, isStroke = True,
                                   color = colorAt strokeColors index\<rparr>)
                      (collected rn (length strokePoints) used1) @
                    map (\<lambda>index. \<lparr>point = fillPoints ! index, isStroke = False,
                                   color = colorAt fillColors index\<rparr>)
                      (collected rn (length fillPoints) used2)"
      and d: "distinct (collected rn (length strokePoints) used1)"
             "distinct (collected rn (length fillPoints) used2)"
      and l: "int (length (collected rn (length strokePoints) used1)) = sc"
             "int (length (collected rn (length fillPoints) used2)) = targetCount - sc"
      and m: "\<forall>j<length used1.
                 int (length (collected rn (length strokePoints) (take j used1))) < sc"
             "\<forall>j<length used2.
                 int (length (collected rn (length fillPoints) (take j used2))) < targetCount - sc"
      and s: "set (collected rn (length strokePoints) used1) \<subseteq> {..<length strokePoints}"
             "set (collected rn (length fillPoints) used2) \<subseteq> {..<length fillPoints}"
      by blast
    have f1: "int (length (filter isStroke res)) = sc"
      unfolding re using l(1) by (simp add: filter_map o_def)
    have f2: "int (length (filter (\<lambda>e. \<not> isStroke e) res)) = targetCount - sc"
      unfolding re using l(2) by (simp add: filter_map o_def)
    from u re d l m s f1 f2 show "\<exists>used1 used2.
              rs = used1 @ used2 @ rs' \<and>
              res = map (\<lambda>index. \<lparr>point = strokePoints ! index, isStroke = True,
                                   color = colorAt strokeColors index\<rparr>)
                      (collected rn (length strokePoints) used1) @
                    map (\<lambda>index. \<lparr>point = fillPoints ! index, isStroke = False,
                                   color = colorAt fillColors index\<rparr>)
                      (collected rn (length fillPoints) used2) \<and>
              distinct (collected rn (length strokePoints) used1) \<and>
              set (collected rn (length strokePoints) used1) \<subseteq> {..<length strokePoints} \<and>
              int (length (collected rn (length strokePoints) used1)) = sc \<and>
              (\<forall>j<length used1.
                 int (length (collected rn (length strokePoints) (take j used1))) < sc) \<and>
              distinct (collected rn (length fillPoints) used2) \<and>
              set (collected rn (length fillPoints) used2) \<subseteq> {..<length fillPoints} \<and>
              int (length (collected rn (length fillPoints) used2)) = targetCount - sc \<and>
              (\<forall>j<length used2.
                 int (length (collected rn (length fillPoints) (take j used2)))
                   < targetCount - sc) \<and>
              int (length (filter isStroke res)) = sc \<and>
              int (length (filter (\<lambda>e. \<not> isStroke e) res)) = targetCount - sc"
      by (intro exI[of _ used1] exI[of _ used2] conjI)
  qed
  have c3: "\<forall>rs0. \<exists>rs1. validRandom rn rs1 \<and>
           samplePoints rn points strokePoints fillPoints targetCount colors strokeColors
             fillColors (rs0 @ rs1) \<noteq> None"
    using assms(4,5) by (intro allI samplePoints_terminates[OF assms(1)]) simp_all
  have c4: "\<forall>quota n rs.
           map_option fst (drawIndices rn quota n rs [])
             = pickIndices quota (map (\<lambda>r. randomIndex rn r n) rs) []"
    by (intro allI drawIndices_pick)
  have c5: "\<forall>n i r. i < n \<and> n \<le> 2 ^ 25 \<and>
           real i + 1 / 2 ^ 27 \<le> r * real n \<and> r * real n \<le> real i + 1 - 1 / 2 ^ 27 \<longrightarrow>
           randomIndex rn r n = i"
    using randomIndex_inner[OF assms(1)] by blast
  have c5': "\<forall>n i r. n \<le> 2 ^ 25 \<and> 0 \<le> r \<and> r \<le> 1 \<and> randomIndex rn r n = i \<longrightarrow>
           real i - 1 / 2 ^ 27 \<le> r * real n \<and> r * real n \<le> real i + 1 + 1 / 2 ^ 27"
    using randomIndex_outer[OF assms(1)] by blast
  have c6: "\<forall>quota n L A B.
           distinct A \<and> distinct B \<and> length A = length B \<and>
           set A \<subseteq> {..<n} \<and> set B \<subseteq> {..<n} \<longrightarrow>
           card {is. length is = L \<and> set is \<subseteq> {..<n} \<and> pickIndices quota is [] = Some A}
             = card {is. length is = L \<and> set is \<subseteq> {..<n} \<and> pickIndices quota is [] = Some B}"
    by (intro allI impI selections_equally_many) simp_all
  from c1 c2 c3 c4 c5 c5' c6 show ?thesis
    unfolding Let_def sc_def[symmetric] ex_def[symmetric] by (intro conjI) simp_all
qed

text \<open>
  The theorem at 14 fill points, 30 outline points and target 22, where the exact product is
  15 and the product in doubles is just below it, on draws that select the outline indices
  0 to 13 and then the fill indices 0 to 7: 14 outline points and 8 fill points are
  selected.
\<close>

theorem C5_quota_proportionality_witness:
  "doubleRounding exampleRounding \<and> (0::int) \<le> 22 \<and>
   (22::int) < int (length [0..<14] + length [14..<44]) \<and>
   length [0..<44] = length [0..<14] + length [14..<44] \<and>
   length [0..<44] \<le> 2 ^ 25 \<and>
   \<lfloor>real_of_int 22 * real (length [14..<44]) / real (length [0..<14] + length [14..<44])\<rfloor>
     = 15 \<and>
   \<lfloor>exampleRounding (real_of_int 22
       * exampleRounding (real (length [14..<44]) / real (length [0..<44])))\<rfloor> = 14 \<and>
   validRandom exampleRounding
     [0, 3/64, 5/64, 7/64, 9/64, 11/64, 13/64, 15/64, 18/64, 20/64, 22/64, 24/64, 26/64, 28/64,
      1/32, 3/32, 5/32, 7/32, 10/32, 12/32, 14/32, 16/32] \<and>
   samplePoints exampleRounding [0..<44] [14..<44] [0..<14] 22 [] [] []
     [0, 3/64, 5/64, 7/64, 9/64, 11/64, 13/64, 15/64, 18/64, 20/64, 22/64, 24/64, 26/64, 28/64,
      1/32, 3/32, 5/32, 7/32, 10/32, 12/32, 14/32, 16/32]
     = Some (map (\<lambda>index. \<lparr>point = [14..<44] ! index, isStroke = True, color = None\<rparr>)
              [0..<14] @
            map (\<lambda>index. \<lparr>point = [0..<14] ! index, isStroke = False, color = None\<rparr>)
              [0..<8], []) \<and>
   int (length (filter isStroke
           (map (\<lambda>index. \<lparr>point = [14..<44] ! index, isStroke = True, color = None\<rparr>)
              [0..<14] @
            map (\<lambda>index. \<lparr>point = [0..<14] ! index, isStroke = False, color = None\<rparr>)
              [0..<8]))) = 14 \<and>
   int (length (filter (\<lambda>e. \<not> isStroke e)
           (map (\<lambda>index. \<lparr>point = [14..<44] ! index, isStroke = True, color = None\<rparr>)
              [0..<14] @
            map (\<lambda>index. \<lparr>point = [0..<14] ! index, isStroke = False, color = None\<rparr>)
              [0..<8]))) = 8 \<and>
   randomIndex exampleRounding (7/64) 30 = 3 \<and>
   real 3 - 1 / 2 ^ 27 \<le> 7/64 * real 30 \<and> 7/64 * real 30 \<le> real 3 + 1 + 1 / 2 ^ 27 \<and>
   card {is. length is = 3 \<and> set is \<subseteq> {..<30} \<and> pickIndices 2 is [] = Some [0, 1]}
     = card {is. length is = 3 \<and> set is \<subseteq> {..<30} \<and> pickIndices 2 is [] = Some [5, 2]}"
proof -
  let ?rs = "[0, 3/64, 5/64, 7/64, 9/64, 11/64, 13/64, 15/64, 18/64, 20/64, 22/64, 24/64, 26/64, 28/64,
      1/32, 3/32, 5/32, 7/32, 10/32, 12/32, 14/32, 16/32] :: real list"
  let ?res = "map (\<lambda>index. \<lparr>point = [14..<44] ! index, isStroke = True, color = None\<rparr>)
              [0..<14] @
            map (\<lambda>index. \<lparr>point = [0..<14] ! index, isStroke = False, color = None\<rparr>)
              [0..<8]"
  have h2: "(0::int) \<le> 22" by simp
  have h3: "(22::int) < int (length [0..<14] + length [14..<44])" by simp
  have h4: "length [0..<44] = length [0..<14] + length [14..<44]" by simp
  have h5: "length [0..<44] \<le> 2 ^ 25" by simp
  have ex: "\<lfloor>real_of_int 22 * real (length [14..<44])
              / real (length [0..<14] + length [14..<44])\<rfloor> = 15" by simp
  have sc: "\<lfloor>exampleRounding (real_of_int 22
       * exampleRounding (real (length [14..<44]) / real (length [0..<44])))\<rfloor> = 14"
    by (simp add: exampleRounding_def)
  have v: "validRandom exampleRounding ?rs" by (simp add: validRandom_def exampleRounding_def)
  have e: "samplePoints exampleRounding [0..<44] [14..<44] [0..<14] 22 [] [] [] ?rs
             = Some (?res, [])"
    unfolding samplePoints_def Let_def sc
    by (simp add: randomIndex_def exampleRounding_def colorAt_def upt_conv_Cons)
  note inst = C5_quota_proportionality[OF exampleRounding_double h2 h3 h4 h5,
      where colors = "[]" and strokeColors = "[]" and fillColors = "[]",
      unfolded Let_def sc,
      THEN conjunct2, THEN conjunct2, THEN conjunct2, THEN conjunct2]
  note t = inst[THEN conjunct1, rule_format, OF conjI[OF v e]]
  from t obtain used1 used2 where
      c1: "int (length (filter isStroke ?res)) = 14"
      and c2: "int (length (filter (\<lambda>e. \<not> isStroke e) ?res)) = 22 - 14"
    by blast
  from c2 have c2': "int (length (filter (\<lambda>e. \<not> isStroke e) ?res)) = 8" by simp
  have i3: "(3::nat) < 30 \<and> (30::nat) \<le> 2 ^ 25 \<and>
            real 3 + 1 / 2 ^ 27 \<le> 7/64 * real 30 \<and> 7/64 * real 30 \<le> real 3 + 1 - 1 / 2 ^ 27"
    by simp
  note u = inst[THEN conjunct2, THEN conjunct2, THEN conjunct2, THEN conjunct1, rule_format,
      OF i3]
  have o3: "(30::nat) \<le> 2 ^ 25 \<and> (0::real) \<le> 7/64 \<and> (7/64::real) \<le> 1 \<and>
            randomIndex exampleRounding (7/64) 30 = 3"
    using u by simp
  note u' = inst[THEN conjunct2, THEN conjunct2, THEN conjunct2, THEN conjunct2, THEN conjunct1,
      rule_format, OF o3]
  have ab: "distinct [0, 1 :: nat] \<and> distinct [5, 2 :: nat] \<and>
            length [0, 1 :: nat] = length [5, 2 :: nat] \<and>
            set [0, 1 :: nat] \<subseteq> {..<30} \<and> set [5, 2 :: nat] \<subseteq> {..<30}" by simp
  note w = inst[THEN conjunct2, THEN conjunct2, THEN conjunct2, THEN conjunct2, THEN conjunct2,
      rule_format, OF ab, of 3 2]
  from exampleRounding_double h2 h3 h4 h5 ex sc v e c1 c2' u u' w show ?thesis
    by (intro conjI) simp_all
qed

subsection \<open>The choice of the representation\<close>

text \<open>
  Claim C1, amended. The batched representation is built for a layer exactly when the
  layer's \<^verbatim>\<open>useInstanced\<close> flag is set and the number of candidate points, counted before
  the target-count selection, is greater than 500; the number of selected points plays no
  part. With the flag set and at most 500 candidates the per-object representation is built.
  In both cases \<^verbatim>\<open>layer.particleCount\<close> is the number of selected points.
\<close>

theorem C1_representation_decided_on_candidate_count:
  assumes "createParticles rn coords l points strokePoints fillPoints st colors strokeColors
             fillColors rs ds = Some (l', rs')"
  shows "(layer_useInstanced l \<and> 500 < length points \<longrightarrow>
            layer_particles l' = [] \<and>
            length (layer_instanceData l') = layer_particleCount l') \<and>
         (\<not> (layer_useInstanced l \<and> 500 < length points) \<longrightarrow>
            layer_instanceData l' = layer_instanceData l \<and>
            length (layer_particles l') = layer_particleCount l') \<and>
         (\<exists>sampledPoints.
            samplePoints rn points strokePoints fillPoints (particleCount st) colors strokeColors
              fillColors rs = Some (sampledPoints, rs') \<and>
            layer_particleCount l' = length sampledPoints)"
  using assms
  by (auto simp: createParticles_def Let_def createInstancedParticles_def
        createTraditionalParticles_def split: option.splits)

text \<open>The theorem for three candidates, of which two are selected, with the flag set.\<close>

theorem C1_representation_decided_on_candidate_count_witness:
  "createParticles exampleRounding pointOnLine
      ((layerOf [])\<lparr>layer_useInstanced := True\<rparr>) [0, 1, 2] [] [0, 1, 2]
      (defaultSettings\<lparr>particleCount := 2\<rparr>) [] [] [] [1 / 2, 0]
      zeroDraws
     = Some ((createTraditionalParticles pointOnLine
               ((layerOf [])\<lparr>layer_useInstanced := True\<rparr>)
               [\<lparr>point = 1, isStroke = False, color = None\<rparr>,
                \<lparr>point = 0, isStroke = False, color = None\<rparr>]
               (defaultSettings\<lparr>particleCount := 2\<rparr>)
               zeroDraws)
              \<lparr>layer_scale := 1, layer_particleCount := 2\<rparr>, []) \<and>
   \<not> (layer_useInstanced ((layerOf [])\<lparr>layer_useInstanced := True\<rparr>) \<and>
        500 < length [0, 1, 2 :: nat]) \<and>
   length (layer_particles
     ((createTraditionalParticles pointOnLine
               ((layerOf [])\<lparr>layer_useInstanced := True\<rparr>)
               [\<lparr>point = 1, isStroke = False, color = None\<rparr>,
                \<lparr>point = 0, isStroke = False, color = None\<rparr>]
               (defaultSettings\<lparr>particleCount := 2\<rparr>)
               zeroDraws)
              \<lparr>layer_scale := 1, layer_particleCount := 2\<rparr>))
   = layer_particleCount
     ((createTraditionalParticles pointOnLine
               ((layerOf [])\<lparr>layer_useInstanced := True\<rparr>)
               [\<lparr>point = 1, isStroke = False, color = None\<rparr>,
                \<lparr>point = 0, isStroke = False, color = None\<rparr>]
               (defaultSettings\<lparr>particleCount := 2\<rparr>)
               zeroDraws)
              \<lparr>layer_scale := 1, layer_particleCount := 2\<rparr>)"
proof -
  let ?l = "(layerOf [])\<lparr>layer_useInstanced := True\<rparr>"
  let ?c = "pointOnLine"
  let ?d = "zeroDraws"
  let ?l' = "(createTraditionalParticles ?c ?l
               [\<lparr>point = 1, isStroke = False, color = None\<rparr>,
                \<lparr>point = 0, isStroke = False, color = None\<rparr>]
               (defaultSettings\<lparr>particleCount := 2\<rparr>) ?d)
              \<lparr>layer_scale := 1, layer_particleCount := 2\<rparr>"
  have e: "createParticles exampleRounding ?c ?l [0, 1, 2] [] [0, 1, 2]
      (defaultSettings\<lparr>particleCount := 2\<rparr>) [] [] [] [1 / 2, 0] ?d = Some (?l', [])"
    by (simp add: createParticles_def samplePoints_def exampleRounding_def randomIndex_def
          colorAt_def defaultSettings_def layerOf_def Let_def)
  have n: "\<not> (layer_useInstanced ?l \<and> 500 < length [0, 1, 2 :: nat])" by simp
  note t = C1_representation_decided_on_candidate_count[OF e, THEN conjunct2, THEN conjunct1,
      rule_format, OF n, THEN conjunct2]
  from e n t show ?thesis by (intro conjI)
qed

lemma sample_501:
  "\<exists>sampledPoints rs'.
     samplePoints exampleRounding [0..<501] [] [0..<501] 500 [] [] [] (sweep exampleRounding 501)
       = Some (sampledPoints, rs') \<and>
     length sampledPoints = 500"
proof -
  have b: "(501::nat) \<le> 2 ^ 25" by simp
  have "(500::int) \<le> int 501" by simp
  from drawIndices_sweep[OF exampleRounding_double b this, of "[]" "[]"]
  obtain idx rest where
    d: "drawIndices exampleRounding 500 501 (sweep exampleRounding 501) [] = Some (idx, rest)"
    by auto
  from drawIndices_length[OF d] have l: "length idx = 500" by simp
  then have ne: "idx \<noteq> []" by auto
  have fl: "\<lfloor>exampleRounding (real_of_int 500
              * exampleRounding (real (length ([]::nat list)) / real (length [0..<501])))\<rfloor> = 0"
    by (simp add: exampleRounding_def)
  have "samplePoints exampleRounding [0..<501] [] [0..<501] 500 [] [] []
          (sweep exampleRounding 501) =
          Some (map (\<lambda>index. \<lparr>point = [0..<501] ! index, isStroke = False,
                               color = colorAt [] index\<rparr>) idx, rest)"
    unfolding samplePoints_def Let_def fl using d ne by simp
  then show ?thesis using l by simp
qed

text \<open>
  Claim C1 as stated fails for 501 candidates and target 500 with the flag set: exactly 500
  points are selected, and the layer gets 500 slots of the batched representation and no
  primitive of the per-object one. The draws are the midpoints \<open>(i + 1/2) / 501\<close>, which
  select the indices 0 to 499 in turn.
\<close>

theorem C1_counterexample:
  "builtCounts (createParticles exampleRounding pointOnLine
      ((layerOf [])\<lparr>layer_useInstanced := True\<rparr>)
      [0..<501] [] [0..<501] (defaultSettings\<lparr>particleCount := 500\<rparr>) [] [] []
      (sweep exampleRounding 501) zeroDraws) = Some (500, 500, 0)"
proof -
  from sample_501 obtain sp rs' where
    s: "samplePoints exampleRounding [0..<501] [] [0..<501] 500 [] [] [] (sweep exampleRounding 501)
          = Some (sp, rs')"
    and l: "length sp = 500" by blast
  show ?thesis
    using s l
    by (simp add: builtCounts_def createParticles_def Let_def createInstancedParticles_def
          layerOf_def defaultSettings_def)
qed

subsection \<open>The motion model: vectors and the pointer at the origin\<close>

lemmas vec_defs = vzero_def vadd_def vsub_def multiplyScalar_def vlength_def
  distanceTo_def normalize_def

lemma vlength_vzero: "vlength vzero = 0"
  by (simp add: vec_defs)

lemma applyMouse_origin: "applyMouse vzero sc fr pos np p = (np, p)"
  by (simp add: applyMouse_def vlength_vzero)

lemma applyMouse_off: "\<not> frMouseInteraction fr \<Longrightarrow> applyMouse m sc fr pos np p = (np, p)"
  by (simp add: applyMouse_def)

lemma applyProcedural_mouse_flag:
  "applyProcedural noise3D (fr\<lparr>frMouseInteraction := b\<rparr>) p = applyProcedural noise3D fr p"
  by (simp add: applyProcedural_def Let_def cong: if_cong)

lemma applySand_mouse_flag:
  "applySand l (fr\<lparr>frMouseInteraction := b\<rparr>) index cur np p = applySand l fr index cur np p"
  by (simp add: applySand_def Let_def cong: if_cong)

lemma updateTraditionalParticle_origin:
  "updateTraditionalParticle noise3D vzero l fr index p =
   updateTraditionalParticle noise3D m l (fr\<lparr>frMouseInteraction := False\<rparr>) index p"
  by (simp add: updateTraditionalParticle_def applyMouse_origin applyMouse_off
        applyProcedural_mouse_flag applySand_mouse_flag)

lemma updateInstancedParticle_origin:
  "updateInstancedParticle noise3D vzero l fr index p =
   updateInstancedParticle noise3D m l (fr\<lparr>frMouseInteraction := False\<rparr>) index p"
  by (simp add: updateInstancedParticle_def applyMouse_origin applyMouse_off
        applyProcedural_mouse_flag applySand_mouse_flag)

lemma frameOf_clear:
  "frameOf st now (clearMousePosition s) = (frameOf st now s)\<lparr>frMouseInteraction := False\<rparr>"
  by (simp add: frameOf_def clearMousePosition_def)

text \<open>
  Claim C10. A pointer position that is exactly the origin switches the pointer force off:
  for every particle, in both representations, the frame update with the pointer at the
  origin gives what it gives with pointer interaction disabled, wherever the pointer is
  then. \<^verbatim>\<open>clearMousePosition\<close> stores the origin, and a whole frame with the pointer stored
  at the origin changes the layers as a frame after \<^verbatim>\<open>clearMousePosition\<close> does, also when
  the pointer has moved to that position.
\<close>

theorem C10_pointer_at_origin_is_ignored:
  "updateTraditionalParticle noise3D vzero l fr index p =
     updateTraditionalParticle noise3D m l (fr\<lparr>frMouseInteraction := False\<rparr>) index p \<and>
   updateInstancedParticle noise3D vzero l fr index p =
     updateInstancedParticle noise3D m l (fr\<lparr>frMouseInteraction := False\<rparr>) index p \<and>
   mousePosition (clearMousePosition s) = vzero \<and>
   (mousePosition s = vzero \<longrightarrow>
      layers (updateParticlesAnimation parseInt parseFloat noise3D doc now s) =
      layers (updateParticlesAnimation parseInt parseFloat noise3D doc now (clearMousePosition s)))"
proof (intro conjI impI)
  show "updateTraditionalParticle noise3D vzero l fr index p =
     updateTraditionalParticle noise3D m l (fr\<lparr>frMouseInteraction := False\<rparr>) index p"
    by (rule updateTraditionalParticle_origin)
  show "updateInstancedParticle noise3D vzero l fr index p =
     updateInstancedParticle noise3D m l (fr\<lparr>frMouseInteraction := False\<rparr>) index p"
    by (rule updateInstancedParticle_origin)
  show "mousePosition (clearMousePosition s) = vzero"
    by (simp add: clearMousePosition_def)
  assume z: "mousePosition s = vzero"
  let ?st = "getSettings parseInt parseFloat doc"
  have t: "updateTraditionalParticles noise3D vzero l' (frameOf ?st now s) =
           updateTraditionalParticles noise3D vzero l' ((frameOf ?st now s)\<lparr>frMouseInteraction := False\<rparr>)" for l'
    unfolding updateTraditionalParticles_def
    using updateTraditionalParticle_origin[of noise3D l' _ _ _ vzero]
    by (simp add: updateTraditionalParticle_origin[of noise3D l' "(frameOf ?st now s)\<lparr>frMouseInteraction := False\<rparr>" _ _ vzero, simplified])
  have i: "updateInstancedParticles noise3D vzero l' (frameOf ?st now s) =
           updateInstancedParticles noise3D vzero l' ((frameOf ?st now s)\<lparr>frMouseInteraction := False\<rparr>)" for l'
    unfolding updateInstancedParticles_def
    using updateInstancedParticle_origin[of noise3D l' _ _ _ vzero]
    by (simp add: updateInstancedParticle_origin[of noise3D l' "(frameOf ?st now s)\<lparr>frMouseInteraction := False\<rparr>" _ _ vzero, simplified])
  show "layers (updateParticlesAnimation parseInt parseFloat noise3D doc now s) =
      layers (updateParticlesAnimation parseInt parseFloat noise3D doc now (clearMousePosition s))"
    unfolding updateParticlesAnimation_def Let_def frameOf_clear
    using z by (simp add: t i clearMousePosition_def)
qed

text \<open>The theorem for a pointer that has moved to the origin, over a layer of one particle.\<close>

theorem C10_pointer_at_origin_is_ignored_witness:
  "mousePosition \<lparr>layers = [\<lparr>layer_visible = True, layer_useInstanced = False, layer_scale = 1,
        layer_particles = [newParticle defaultSettings \<lparr>vx = 1, vy = 2, vz = 0\<rparr> False
           \<lparr>rSize = 0, rAngle = 0, rSpeed = 0, rAmplitude = 0,
            rNoiseX = 0, rNoiseY = 0, rNoiseZ = 0\<rparr>],
        layer_instanceData = [], layer_originalPositions = [\<lparr>vx = 1, vy = 2, vz = 0\<rparr>],
        layer_particleCount = 1\<rparr>],
      mousePosition = vzero, mouseMoved = True\<rparr> = vzero \<and>
   layers (updateParticlesAnimation (\<lambda>v. 0) (\<lambda>v. 1) (\<lambda>a b c. 1 / 2) (\<lambda>i. None) 1000
     \<lparr>layers = [\<lparr>layer_visible = True, layer_useInstanced = False, layer_scale = 1,
        layer_particles = [newParticle defaultSettings \<lparr>vx = 1, vy = 2, vz = 0\<rparr> False
           \<lparr>rSize = 0, rAngle = 0, rSpeed = 0, rAmplitude = 0,
            rNoiseX = 0, rNoiseY = 0, rNoiseZ = 0\<rparr>],
        layer_instanceData = [], layer_originalPositions = [\<lparr>vx = 1, vy = 2, vz = 0\<rparr>],
        layer_particleCount = 1\<rparr>],
      mousePosition = vzero, mouseMoved = True\<rparr>) =
   layers (updateParticlesAnimation (\<lambda>v. 0) (\<lambda>v. 1) (\<lambda>a b c. 1 / 2) (\<lambda>i. None) 1000
     (clearMousePosition \<lparr>layers = [\<lparr>layer_visible = True, layer_useInstanced = False,
        layer_scale = 1,
        layer_particles = [newParticle defaultSettings \<lparr>vx = 1, vy = 2, vz = 0\<rparr> False
           \<lparr>rSize = 0, rAngle = 0, rSpeed = 0, rAmplitude = 0,
            rNoiseX = 0, rNoiseY = 0, rNoiseZ = 0\<rparr>],
        layer_instanceData = [], layer_originalPositions = [\<lparr>vx = 1, vy = 2, vz = 0\<rparr>],
        layer_particleCount = 1\<rparr>],
      mousePosition = vzero, mouseMoved = True\<rparr>))"
proof -
  let ?s = "\<lparr>layers = [\<lparr>layer_visible = True, layer_useInstanced = False, layer_scale = 1,
        layer_particles = [newParticle defaultSettings \<lparr>vx = 1, vy = 2, vz = 0\<rparr> False
           \<lparr>rSize = 0, rAngle = 0, rSpeed = 0, rAmplitude = 0,
            rNoiseX = 0, rNoiseY = 0, rNoiseZ = 0\<rparr>],
        layer_instanceData = [], layer_originalPositions = [\<lparr>vx = 1, vy = 2, vz = 0\<rparr>],
        layer_particleCount = 1\<rparr>],
      mousePosition = vzero, mouseMoved = True\<rparr>"
  have h: "mousePosition ?s = vzero" by simp
  note t = C10_pointer_at_origin_is_ignored[THEN conjunct2, THEN conjunct2, THEN conjunct2,
      rule_format, OF h]
  from h t show ?thesis by (intro conjI)
qed

subsection \<open>The settings reader\<close>

text \<open>
  Claim C9. Whatever the page holds, the seven options that \<^verbatim>\<open>getSettings\<close> reads with
  \<^verbatim>\<open>element?.checked || true\<close> are true: for a checked, an unchecked and a missing
  checkbox alike. So the settings of a frame always have \<^verbatim>\<open>noiseMovement\<close> set, and the
  frame update never advances the angle of the oscillator. The three options read with
  \<^verbatim>\<open>|| false\<close> are the state of their checkbox, and false when it is missing.
\<close>

theorem C9_checked_or_true_is_always_true:
  "useGradient (getSettings parseInt parseFloat doc) \<and>
   mouseInteraction (getSettings parseInt parseFloat doc) \<and>
   glowEffect (getSettings parseInt parseFloat doc) \<and>
   noiseMovement (getSettings parseInt parseFloat doc) \<and>
   includeStrokes (getSettings parseInt parseFloat doc) \<and>
   enableOrbit (getSettings parseInt parseFloat doc) \<and>
   useInstanced (getSettings parseInt parseFloat doc) \<and>
   noiseMovement (frSettings (frameOf (getSettings parseInt parseFloat doc) now s)) \<and>
   angle (applyProcedural noise3D (frameOf (getSettings parseInt parseFloat doc) now s) p)
     = angle p \<and>
   sandEffect (getSettings parseInt parseFloat doc) =
     (case doc ''sand-effect'' of None \<Rightarrow> False | Some el \<Rightarrow> checked el) \<and>
   repelEffect (getSettings parseInt parseFloat doc) =
     (case doc ''repel-effect'' of None \<Rightarrow> False | Some el \<Rightarrow> checked el) \<and>
   preserveColors (getSettings parseInt parseFloat doc) =
     (case doc ''preserve-colors'' of None \<Rightarrow> False | Some el \<Rightarrow> checked el)"
  by (simp add: getSettings_def js_or_def optChecked_def frameOf_def applyProcedural_def Let_def
        split: option.splits)

subsection \<open>The motion model: one frame\<close>

text \<open>
  Both builders store the original position of every particle in the layer at the index of
  the particle, which is what spring mode reads.
\<close>

lemma createTraditionalParticles_originalPositions:
  assumes "index < length sampledPoints"
  shows "index < length (layer_originalPositions
                   (createTraditionalParticles coords l sampledPoints st ds)) \<and>
         layer_originalPositions (createTraditionalParticles coords l sampledPoints st ds) ! index
           = originalPosition
               (layer_particles (createTraditionalParticles coords l sampledPoints st ds) ! index)"
  using assms by (simp add: createTraditionalParticles_def newParticle_def)

lemma createInstancedParticles_originalPositions:
  assumes "index < length sampledPoints"
  shows "index < length (layer_originalPositions
                   (createInstancedParticles coords l sampledPoints st ds)) \<and>
         layer_originalPositions (createInstancedParticles coords l sampledPoints st ds) ! index
           = originalPosition
               (layer_instanceData (createInstancedParticles coords l sampledPoints st ds) ! index)"
  using assms by (simp add: createInstancedParticles_def newParticle_def)

lemma applyProcedural_keeps:
  "position (applyProcedural noise3D fr p) = position p"
  "velocity (applyProcedural noise3D fr p) = velocity p"
  "originalPosition (applyProcedural noise3D fr p) = originalPosition p"
  "visible (applyProcedural noise3D fr p) = visible p"
  "stroke (applyProcedural noise3D fr p) = stroke p"
  "amplitude (applyProcedural noise3D fr p) = amplitude p"
  by (simp_all add: applyProcedural_def Let_def)

text \<open>
  Claim C3, amended. For a visible particle within the interaction radius, with pointer
  interaction on and spring mode off, the pointer force is measured from the position the
  particle has at the start of the frame (the position the previous frame left), not from
  its base position: the distance to the pointer and the unit vector from the pointer are
  taken there. With \<open>forceFactor = (radius * scale - distance) / (radius * scale)\<close> and
  \<open>force = interactionStrength * forceFactor\<close>, the new position is the position that the
  frame gives the particle without the pointer, plus \<open>direction * force\<close> in repel mode and
  minus it otherwise. For a fill particle the position without the pointer is the base
  position, the original position plus the procedural displacement. What it is for an
  outline particle is left open here.
\<close>

theorem C3_pointer_force_from_rendered_position:
  assumes "visible p" and "frMouseInteraction fr" and "vlength mousePos > 0"
    and "distanceTo (position p) mousePos < real_of_int (frInteractionRadius fr) * layer_scale l"
    and "\<not> frSandEffect fr"
  shows "let reach = real_of_int (frInteractionRadius fr) * layer_scale l;
             forceFactor = (reach - distanceTo (position p) mousePos) / reach;
             force = frInteractionStrength fr * forceFactor;
             direction = normalize (vsub (position p) mousePos);
             pointerOff = fr\<lparr>frMouseInteraction := False\<rparr>
         in position (updateTraditionalParticle noise3D mousePos l fr index p) =
              (if frRepelEffect fr
               then vadd (position (updateTraditionalParticle noise3D mousePos l pointerOff index p))
                      (multiplyScalar direction force)
               else vsub (position (updateTraditionalParticle noise3D mousePos l pointerOff index p))
                      (multiplyScalar direction force)) \<and>
            position (updateInstancedParticle noise3D mousePos l fr index p) =
              (if frRepelEffect fr
               then vadd (position (updateInstancedParticle noise3D mousePos l pointerOff index p))
                      (multiplyScalar direction force)
               else vsub (position (updateInstancedParticle noise3D mousePos l pointerOff index p))
                      (multiplyScalar direction force)) \<and>
            (\<not> stroke p \<longrightarrow>
               position (updateTraditionalParticle noise3D mousePos l pointerOff index p)
                 = vadd (originalPosition p) (offset (applyProcedural noise3D fr p)) \<and>
               position (updateInstancedParticle noise3D mousePos l pointerOff index p)
                 = vadd (originalPosition p) (offset (applyProcedural noise3D fr p)) \<and>
               offset (updateTraditionalParticle noise3D mousePos l fr index p)
                 = offset (applyProcedural noise3D fr p) \<and>
               offset (updateInstancedParticle noise3D mousePos l fr index p)
                 = offset (applyProcedural noise3D fr p))"
  using assms
  by (simp add: updateTraditionalParticle_def updateInstancedParticle_def Let_def split_def
        applyMouse_def applySand_def scaleStroke_def applyProcedural_mouse_flag
        applyProcedural_keeps)

text \<open>
  The theorem for a fill particle at \<open>(2, 0, 0)\<close> with original position at the origin, the
  pointer at \<open>(1, 0, 0)\<close> and the default settings, which attract.
\<close>

theorem C3_pointer_force_from_rendered_position_witness:
  "visible (particleAt \<lparr>vx = 2, vy = 0, vz = 0\<rparr> vzero vzero False) \<and>
   frMouseInteraction (frameAt defaultSettings True) \<and>
   vlength \<lparr>vx = 1, vy = 0, vz = 0\<rparr> > 0 \<and>
   distanceTo (position (particleAt \<lparr>vx = 2, vy = 0, vz = 0\<rparr> vzero vzero False))
      \<lparr>vx = 1, vy = 0, vz = 0\<rparr>
     < real_of_int (frInteractionRadius (frameAt defaultSettings True))
         * layer_scale (layerOf [particleAt \<lparr>vx = 2, vy = 0, vz = 0\<rparr> vzero vzero False]) \<and>
   \<not> frSandEffect (frameAt defaultSettings True) \<and>
   \<not> stroke (particleAt \<lparr>vx = 2, vy = 0, vz = 0\<rparr> vzero vzero False) \<and>
   position (updateTraditionalParticle (constNoise 0) \<lparr>vx = 1, vy = 0, vz = 0\<rparr>
      (layerOf [particleAt \<lparr>vx = 2, vy = 0, vz = 0\<rparr> vzero vzero False])
      (frameAt defaultSettings True) 0
      (particleAt \<lparr>vx = 2, vy = 0, vz = 0\<rparr> vzero vzero False))
     = \<lparr>vx = - (237 / 80), vy = 0, vz = 0\<rparr>"
proof -
  let ?p = "particleAt \<lparr>vx = 2, vy = 0, vz = 0\<rparr> vzero vzero False"
  let ?m = "\<lparr>vx = 1, vy = 0, vz = 0\<rparr>"
  let ?fr = "frameAt defaultSettings True"
  let ?l = "layerOf [?p]"
  have d: "distanceTo (position ?p) ?m = 1" by (simp add: particleAt_def vec_defs)
  have h1: "visible ?p" by (simp add: particleAt_def)
  have h2: "frMouseInteraction ?fr" by (simp add: frameAt_def frameOf_def defaultSettings_def)
  have h3: "vlength ?m > 0" by (simp add: vec_defs)
  have h4: "distanceTo (position ?p) ?m < real_of_int (frInteractionRadius ?fr) * layer_scale ?l"
    unfolding d by (simp add: frameAt_def frameOf_def defaultSettings_def layerOf_def)
  have h5: "\<not> frSandEffect ?fr" by (simp add: frameAt_def frameOf_def defaultSettings_def)
  have h6: "\<not> stroke ?p" by (simp add: particleAt_def)
  note t = C3_pointer_force_from_rendered_position[OF h1 h2 h3 h4 h5,
      where noise3D = "constNoise 0" and index = 0, unfolded Let_def]
  note t1 = t[THEN conjunct1]
  note t3 = t[THEN conjunct2, THEN conjunct2, rule_format, OF h6, THEN conjunct1]
  from t1 t3
  have "position (updateTraditionalParticle (constNoise 0) ?m ?l ?fr 0 ?p)
          = \<lparr>vx = - (237 / 80), vy = 0, vz = 0\<rparr>"
    by (simp add: particleAt_def applyProcedural_def layerOf_def frameAt_def frameOf_def
          defaultSettings_def constNoise_def vec_defs Let_def)
  with h1 h2 h3 h4 h5 h6 show ?thesis by (intro conjI)
qed

text \<open>
  Claim C3 as stated fails there: the base position is the origin, so the specification
  pulls the particle towards the pointer on its right, to \<open>237/80\<close>; the source measures from
  \<open>(2, 0, 0)\<close>, beyond the pointer, and puts the particle at \<open>-237/80\<close>.
\<close>

theorem C3_counterexample:
  "position (updateTraditionalParticle (constNoise 0) \<lparr>vx = 1, vy = 0, vz = 0\<rparr>
      (layerOf [particleAt \<lparr>vx = 2, vy = 0, vz = 0\<rparr> vzero vzero False])
      (frameAt defaultSettings True) 0
      (particleAt \<lparr>vx = 2, vy = 0, vz = 0\<rparr> vzero vzero False))
     = \<lparr>vx = - (237 / 80), vy = 0, vz = 0\<rparr> \<and>
   position (updateInstancedParticle (constNoise 0) \<lparr>vx = 1, vy = 0, vz = 0\<rparr>
      (layerOf [particleAt \<lparr>vx = 2, vy = 0, vz = 0\<rparr> vzero vzero False])
      (frameAt defaultSettings True) 0
      (particleAt \<lparr>vx = 2, vy = 0, vz = 0\<rparr> vzero vzero False))
     = \<lparr>vx = - (237 / 80), vy = 0, vz = 0\<rparr> \<and>
   vadd (originalPosition (particleAt \<lparr>vx = 2, vy = 0, vz = 0\<rparr> vzero vzero False))
      (offset (applyProcedural (constNoise 0) (frameAt defaultSettings True)
         (particleAt \<lparr>vx = 2, vy = 0, vz = 0\<rparr> vzero vzero False))) = vzero \<and>
   specPointerStep \<lparr>vx = 1, vy = 0, vz = 0\<rparr> 1 (frameAt defaultSettings True) vzero
     = \<lparr>vx = 237 / 80, vy = 0, vz = 0\<rparr> \<and>
   position (updateTraditionalParticle (constNoise 0) \<lparr>vx = 1, vy = 0, vz = 0\<rparr>
      (layerOf [particleAt \<lparr>vx = 2, vy = 0, vz = 0\<rparr> vzero vzero False])
      (frameAt defaultSettings True) 0
      (particleAt \<lparr>vx = 2, vy = 0, vz = 0\<rparr> vzero vzero False))
     \<noteq> specPointerStep \<lparr>vx = 1, vy = 0, vz = 0\<rparr> 1 (frameAt defaultSettings True) vzero"
  by (simp add: updateTraditionalParticle_def updateInstancedParticle_def applyProcedural_def
        scaleStroke_def applyMouse_def applySand_def specPointerStep_def particleAt_def
        layerOf_def frameAt_def frameOf_def defaultSettings_def constNoise_def vec_defs Let_def)

text \<open>
  Claim C4. In spring mode the target is the original position plus the procedural
  displacement stored for the frame; the pointer force is not part of the target. With
  \<open>vel\<close> the velocity after the pointer step of the frame (the velocity of the particle when
  the pointer does not act), the new velocity is
  \<open>0.95 * (vel + (target - current) * 0.05 * sandReturn)\<close> and the new position is the
  position at the start of the frame plus the new velocity, whatever the procedural and
  pointer steps had computed for the position.
\<close>

theorem C4_spring_step_overrides_position:
  assumes "visible p" and "frSandEffect fr"
    and "index < length (layer_originalPositions l)"
    and "layer_originalPositions l ! index = originalPosition p"
  shows "let proceduralDisplacement = offset (scaleStroke (applyProcedural noise3D fr p));
             target = vadd (originalPosition p) proceduralDisplacement;
             reach = real_of_int (frInteractionRadius fr) * layer_scale l;
             mouseDisplacement =
               multiplyScalar (normalize (vsub (position p) mousePos))
                 (frInteractionStrength fr
                    * ((reach - distanceTo (position p) mousePos) / reach));
             vel = (if frMouseInteraction fr \<and> vlength mousePos > 0 \<and>
                       distanceTo (position p) mousePos < reach
                    then (if frRepelEffect fr
                          then vadd (velocity p)
                                 (multiplyScalar mouseDisplacement (frSandStrength fr * 0.1))
                          else vsub (velocity p)
                                 (multiplyScalar mouseDisplacement (frSandStrength fr * 0.1)))
                    else velocity p);
             vel' = multiplyScalar
                      (vadd vel (multiplyScalar (vsub target (position p))
                                   (0.05 * frSandReturn fr))) 0.95
         in velocity (updateTraditionalParticle noise3D mousePos l fr index p) = vel' \<and>
            position (updateTraditionalParticle noise3D mousePos l fr index p)
              = vadd (position p) vel' \<and>
            velocity (updateInstancedParticle noise3D mousePos l fr index p) = vel' \<and>
            position (updateInstancedParticle noise3D mousePos l fr index p)
              = vadd (position p) vel'"
  using assms
  by (simp add: updateTraditionalParticle_def updateInstancedParticle_def Let_def split_def
        applyMouse_def applySand_def scaleStroke_def applyProcedural_keeps)

text \<open>The theorem for a particle at rest at \<open>(1, 0, 0)\<close> whose original position is the origin.\<close>

theorem C4_spring_step_overrides_position_witness:
  "visible (particleAt \<lparr>vx = 1, vy = 0, vz = 0\<rparr> vzero vzero False) \<and>
   frSandEffect (frameAt (defaultSettings\<lparr>sandEffect := True\<rparr>) False) \<and>
   0 < length (layer_originalPositions
                 (layerOf [particleAt \<lparr>vx = 1, vy = 0, vz = 0\<rparr> vzero vzero False])) \<and>
   layer_originalPositions (layerOf [particleAt \<lparr>vx = 1, vy = 0, vz = 0\<rparr> vzero vzero False]) ! 0
     = originalPosition (particleAt \<lparr>vx = 1, vy = 0, vz = 0\<rparr> vzero vzero False) \<and>
   position (updateTraditionalParticle (\<lambda>a b c. 0) vzero
      (layerOf [particleAt \<lparr>vx = 1, vy = 0, vz = 0\<rparr> vzero vzero False])
      (frameAt (defaultSettings\<lparr>sandEffect := True\<rparr>) False) 0
      (particleAt \<lparr>vx = 1, vy = 0, vz = 0\<rparr> vzero vzero False))
     = \<lparr>vx = 381 / 400, vy = 0, vz = 0\<rparr>"
proof -
  let ?p = "particleAt \<lparr>vx = 1, vy = 0, vz = 0\<rparr> vzero vzero False"
  let ?fr = "frameAt (defaultSettings\<lparr>sandEffect := True\<rparr>) False"
  let ?l = "layerOf [?p]"
  have h1: "visible ?p" by (simp add: particleAt_def)
  have h2: "frSandEffect ?fr" by (simp add: frameAt_def frameOf_def defaultSettings_def)
  have h3: "0 < length (layer_originalPositions ?l)" by (simp add: layerOf_def)
  have h4: "layer_originalPositions ?l ! 0 = originalPosition ?p" by (simp add: layerOf_def)
  from C4_spring_step_overrides_position[OF h1 h2 h3 h4, of "\<lambda>a b c. 0" vzero]
  have "position (updateTraditionalParticle (\<lambda>a b c. 0) vzero ?l ?fr 0 ?p)
          = \<lparr>vx = 381 / 400, vy = 0, vz = 0\<rparr>"
    by (simp add: Let_def particleAt_def applyProcedural_def scaleStroke_def layerOf_def
          frameAt_def frameOf_def defaultSettings_def vec_defs)
  with h1 h2 h3 h4 show ?thesis by (intro conjI)
qed

text \<open>
  Claim C6 fails on the source. A stroke particle at the origin under the default settings,
  with constant noise \<open>1/2\<close>, no pointer and spring mode off: the mode computes the
  displacement \<open>(1, 1, 1/2)\<close> and the particle is put at exactly that displacement, while the
  displacement scaled by 1.2 is only stored in \<^verbatim>\<open>offset\<close>, because the scaling follows
  \<^verbatim>\<open>newPosition.add(offset)\<close>.
\<close>

theorem C6_stroke_displacement_is_not_scaled:
  "position (updateTraditionalParticle (constNoise (1 / 2)) vzero
      (layerOf [particleAt vzero vzero vzero True]) (frameAt defaultSettings False) 0
      (particleAt vzero vzero vzero True)) = \<lparr>vx = 1, vy = 1, vz = 1 / 2\<rparr> \<and>
   offset (updateTraditionalParticle (constNoise (1 / 2)) vzero
      (layerOf [particleAt vzero vzero vzero True]) (frameAt defaultSettings False) 0
      (particleAt vzero vzero vzero True)) = \<lparr>vx = 6 / 5, vy = 6 / 5, vz = 3 / 5\<rparr> \<and>
   position (updateInstancedParticle (constNoise (1 / 2)) vzero
      (layerOf [particleAt vzero vzero vzero True]) (frameAt defaultSettings False) 0
      (particleAt vzero vzero vzero True)) = \<lparr>vx = 1, vy = 1, vz = 1 / 2\<rparr> \<and>
   offset (updateInstancedParticle (constNoise (1 / 2)) vzero
      (layerOf [particleAt vzero vzero vzero True]) (frameAt defaultSettings False) 0
      (particleAt vzero vzero vzero True)) = \<lparr>vx = 6 / 5, vy = 6 / 5, vz = 3 / 5\<rparr>"
  by (simp add: updateTraditionalParticle_def updateInstancedParticle_def applyProcedural_def
        scaleStroke_def applyMouse_def applySand_def particleAt_def layerOf_def frameAt_def
        frameOf_def defaultSettings_def constNoise_def vec_defs Let_def)

subsection \<open>The motion model: depth range 0\<close>

lemma samplePoint_flat: "vz (samplePoint x y 0 depthFactor) = 0"
  by (simp add: samplePoint_def)

lemma applyProcedural_offset_z:
  "svgDepth (frSettings fr) = 0 \<Longrightarrow> vz (offset p) = 0 \<Longrightarrow>
   vz (offset (applyProcedural noise3D fr p)) = 0"
  by (simp add: applyProcedural_def Let_def)

lemma update_offset:
  "offset (updateTraditionalParticle noise3D m l fr index p) =
     (if visible p then offset (scaleStroke (applyProcedural noise3D fr p)) else offset p)"
  "offset (updateInstancedParticle noise3D m l fr index p) =
     (if visible p then offset (scaleStroke (applyProcedural noise3D fr p)) else offset p)"
  by (simp_all add: updateTraditionalParticle_def updateInstancedParticle_def Let_def split_def
        applyMouse_def applySand_def)

lemma scaleStroke_offset_z: "vz (offset p) = 0 \<Longrightarrow> vz (offset (scaleStroke p)) = 0"
  by (simp add: scaleStroke_def multiplyScalar_def)

lemma update_offset_z:
  assumes "svgDepth (frSettings fr) = 0" and "vz (offset p) = 0"
  shows "vz (offset (updateTraditionalParticle noise3D m l fr index p)) = 0"
    and "vz (offset (updateInstancedParticle noise3D m l fr index p)) = 0"
  using assms
  by (simp_all add: update_offset scaleStroke_offset_z applyProcedural_offset_z)

lemma update_flat:
  assumes "svgDepth (frSettings fr) = 0" and "vz m = 0"
    and "list_all (\<lambda>v. vz v = 0) (layer_originalPositions l)" and "flat p"
  shows "flat (updateTraditionalParticle noise3D m l fr index p)"
    and "flat (updateInstancedParticle noise3D m l fr index p)"
proof -
  have o: "index < length (layer_originalPositions l) \<Longrightarrow> vz (layer_originalPositions l ! index) = 0"
    using assms(3) by (simp add: list_all_length)
  have z: "vz (offset (applyProcedural noise3D fr p)) = 0"
    using assms by (simp add: applyProcedural_offset_z flat_def)
  show "flat (updateTraditionalParticle noise3D m l fr index p)"
    using assms(2,4) o z
    by (simp add: flat_def updateTraditionalParticle_def Let_def split_def applyMouse_def
          applySand_def scaleStroke_def applyProcedural_keeps vec_defs)
  show "flat (updateInstancedParticle noise3D m l fr index p)"
    using assms(2,4) o z
    by (simp add: flat_def updateInstancedParticle_def Let_def split_def applyMouse_def
          applySand_def scaleStroke_def applyProcedural_keeps vec_defs)
qed

lemma run_offset_z:
  assumes "list_all (\<lambda>(m, fr). svgDepth (frSettings fr) = 0) steps" and "vz (offset p) = 0"
  shows "vz (offset (runTraditional noise3D l index steps p)) = 0"
    and "vz (offset (runInstanced noise3D l index steps p)) = 0"
  using assms
  by (induction steps arbitrary: p)
     (auto simp: runTraditional_def runInstanced_def update_offset_z)

lemma run_flat:
  assumes "list_all (\<lambda>(m, fr). svgDepth (frSettings fr) = 0 \<and> vz m = 0) steps"
    and "list_all (\<lambda>v. vz v = 0) (layer_originalPositions l)" and "flat p"
  shows "flat (runTraditional noise3D l index steps p)"
    and "flat (runInstanced noise3D l index steps p)"
  using assms
  by (induction steps arbitrary: p)
     (auto simp: runTraditional_def runInstanced_def update_flat)

lemma newParticle_flat: "vz pt = 0 \<Longrightarrow> flat (newParticle st pt isStr d)"
  by (simp add: flat_def newParticle_def vzero_def)

text \<open>
  Claim C8. With depth range 0 every sample point has \<open>z = 0\<close>. A particle built from such a
  point keeps a procedural displacement with \<open>z = 0\<close> through any number of frames whose depth
  range is 0, in the noise mode and in the oscillator mode, in both representations and
  whatever the pointer does. Its position keeps \<open>z = 0\<close> as well, given that the pointer
  positions lie in the plane \<open>z = 0\<close>, where \<^verbatim>\<open>updateMousePosition\<close> intersects the pointer
  ray, and that the original positions stored in the layer have \<open>z = 0\<close>.
\<close>

theorem C8_depth_zero_keeps_z_zero:
  assumes "list_all (\<lambda>(m, fr). svgDepth (frSettings fr) = 0) steps"
  shows "vz (samplePoint x y 0 depthFactor) = 0 \<and>
         vz (offset (runTraditional noise3D l index steps
               (newParticle st (samplePoint x y 0 depthFactor) isStr d))) = 0 \<and>
         vz (offset (runInstanced noise3D l index steps
               (newParticle st (samplePoint x y 0 depthFactor) isStr d))) = 0 \<and>
         (list_all (\<lambda>(m, fr). vz m = 0) steps \<and>
          list_all (\<lambda>v. vz v = 0) (layer_originalPositions l) \<longrightarrow>
            vz (position (runTraditional noise3D l index steps
                  (newParticle st (samplePoint x y 0 depthFactor) isStr d))) = 0 \<and>
            vz (position (runInstanced noise3D l index steps
                  (newParticle st (samplePoint x y 0 depthFactor) isStr d))) = 0)"
proof (intro conjI impI)
  let ?p = "newParticle st (samplePoint x y 0 depthFactor) isStr d"
  show "vz (samplePoint x y 0 depthFactor) = 0" by (rule samplePoint_flat)
  have f: "flat ?p" by (simp add: newParticle_flat samplePoint_flat)
  then have o: "vz (offset ?p) = 0" by (simp add: flat_def)
  show "vz (offset (runTraditional noise3D l index steps ?p)) = 0"
    by (rule run_offset_z(1)[OF assms o])
  show "vz (offset (runInstanced noise3D l index steps ?p)) = 0"
    by (rule run_offset_z(2)[OF assms o])
  assume a: "list_all (\<lambda>(m, fr). vz m = 0) steps \<and>
          list_all (\<lambda>v. vz v = 0) (layer_originalPositions l)"
  have b: "list_all (\<lambda>(m, fr). svgDepth (frSettings fr) = 0 \<and> vz m = 0) steps"
    using assms a by (auto simp: list_all_iff)
  from a have c: "list_all (\<lambda>v. vz v = 0) (layer_originalPositions l)" by simp
  show "vz (position (runTraditional noise3D l index steps ?p)) = 0"
    using run_flat(1)[OF b c f] by (simp add: flat_def)
  show "vz (position (runInstanced noise3D l index steps ?p)) = 0"
    using run_flat(2)[OF b c f] by (simp add: flat_def)
qed

text \<open>
  The theorem over a frame in noise mode with the pointer at \<open>(1, 0, 0)\<close> and a frame in
  oscillator mode.
\<close>

theorem C8_depth_zero_keeps_z_zero_witness:
  "list_all (\<lambda>(m, fr). svgDepth (frSettings fr) = 0)
     [(\<lparr>vx = 1, vy = 0, vz = 0\<rparr>, frameAt (defaultSettings\<lparr>svgDepth := 0\<rparr>) True),
      (vzero, frameAt (defaultSettings\<lparr>svgDepth := 0, noiseMovement := False\<rparr>) False)] \<and>
   list_all (\<lambda>(m, fr). vz m = 0)
     [(\<lparr>vx = 1, vy = 0, vz = 0\<rparr>, frameAt (defaultSettings\<lparr>svgDepth := 0\<rparr>) True),
      (vzero, frameAt (defaultSettings\<lparr>svgDepth := 0, noiseMovement := False\<rparr>) False)] \<and>
   list_all (\<lambda>v. vz v = 0) (layer_originalPositions (layerOf [])) \<and>
   vz (samplePoint 1200 800 0 (1 / 3)) = 0 \<and>
   vz (offset (runTraditional (\<lambda>a b c. 1 / 2) (layerOf []) 0
     [(\<lparr>vx = 1, vy = 0, vz = 0\<rparr>, frameAt (defaultSettings\<lparr>svgDepth := 0\<rparr>) True),
      (vzero, frameAt (defaultSettings\<lparr>svgDepth := 0, noiseMovement := False\<rparr>) False)]
     (newParticle defaultSettings (samplePoint 1200 800 0 (1 / 3)) True
        \<lparr>rSize = 0, rAngle = 0, rSpeed = 0, rAmplitude = 1 / 2,
         rNoiseX = 0, rNoiseY = 0, rNoiseZ = 0\<rparr>))) = 0 \<and>
   vz (position (runTraditional (\<lambda>a b c. 1 / 2) (layerOf []) 0
     [(\<lparr>vx = 1, vy = 0, vz = 0\<rparr>, frameAt (defaultSettings\<lparr>svgDepth := 0\<rparr>) True),
      (vzero, frameAt (defaultSettings\<lparr>svgDepth := 0, noiseMovement := False\<rparr>) False)]
     (newParticle defaultSettings (samplePoint 1200 800 0 (1 / 3)) True
        \<lparr>rSize = 0, rAngle = 0, rSpeed = 0, rAmplitude = 1 / 2,
         rNoiseX = 0, rNoiseY = 0, rNoiseZ = 0\<rparr>))) = 0"
proof -
  let ?steps = "[(\<lparr>vx = 1, vy = 0, vz = 0\<rparr>, frameAt (defaultSettings\<lparr>svgDepth := 0\<rparr>) True),
      (vzero, frameAt (defaultSettings\<lparr>svgDepth := 0, noiseMovement := False\<rparr>) False)]"
  have h1: "list_all (\<lambda>(m, fr). svgDepth (frSettings fr) = 0) ?steps"
    by (simp add: frameAt_def frameOf_def defaultSettings_def)
  have h2: "list_all (\<lambda>(m, fr). vz m = 0) ?steps" by (simp add: vzero_def)
  have h3: "list_all (\<lambda>v. vz v = 0) (layer_originalPositions (layerOf []))"
    by (simp add: layerOf_def)
  note t = C8_depth_zero_keeps_z_zero[OF h1, of 1200 800 "1 / 3" "\<lambda>a b c. 1 / 2" "layerOf []" 0
      defaultSettings True "\<lparr>rSize = 0, rAngle = 0, rSpeed = 0, rAmplitude = 1 / 2,
         rNoiseX = 0, rNoiseY = 0, rNoiseZ = 0\<rparr>"]
  note t1 = t[THEN conjunct1]
  note t2 = t[THEN conjunct2, THEN conjunct1]
  note t4 = t[THEN conjunct2, THEN conjunct2, THEN conjunct2, rule_format, OF conjI[OF h2 h3],
      THEN conjunct1]
  from h1 h2 h3 t1 t2 t4 show ?thesis by (intro conjI)
qed

subsection \<open>The motion model: spring mode over successive frames\<close>

lemma spring_coordinate_energy:
  fixes d v k :: real
  shows "k * ((d + (19 / 20 * v - k * d)) * (d + (19 / 20 * v - k * d)))
         + (1 / 20 - k) * ((d + (19 / 20 * v - k * d)) * (19 / 20 * v - k * d))
         + 19 / 20 * ((19 / 20 * v - k * d) * (19 / 20 * v - k * d))
         = 19 / 20 * (k * (d * d) + (1 / 20 - k) * (d * v) + 19 / 20 * (v * v))"
  by (simp add: field_simps)

lemma quadratic_form_bounds:
  fixes a b c d v :: real
  shows "(4 * a * c - b * b) * (d * d) \<le> 4 * c * (a * (d * d) + b * (d * v) + c * (v * v))"
    and "(4 * a * c - b * b) * (v * v) \<le> 4 * a * (a * (d * d) + b * (d * v) + c * (v * v))"
proof -
  have "4 * c * (a * (d * d) + b * (d * v) + c * (v * v)) - (4 * a * c - b * b) * (d * d)
        = (2 * c * v + b * d) * (2 * c * v + b * d)" by (simp add: algebra_simps)
  moreover have "0 \<le> (2 * c * v + b * d) * (2 * c * v + b * d)" by simp
  ultimately show "(4 * a * c - b * b) * (d * d) \<le> 4 * c * (a * (d * d) + b * (d * v) + c * (v * v))"
    by linarith
  have "4 * a * (a * (d * d) + b * (d * v) + c * (v * v)) - (4 * a * c - b * b) * (v * v)
        = (2 * a * d + b * v) * (2 * a * d + b * v)" by (simp add: algebra_simps)
  moreover have "0 \<le> (2 * a * d + b * v) * (2 * a * d + b * v)" by simp
  ultimately show "(4 * a * c - b * b) * (v * v) \<le> 4 * a * (a * (d * d) + b * (d * v) + c * (v * v))"
    by linarith
qed

lemma springDiscriminant_pos:
  assumes "1 / 50 \<le> s" and "s \<le> 80"
  shows "0 < springDiscriminant s"
proof -
  define k where "k = 19 * s / 400"
  have lo: "19 / 20000 \<le> k" and hi: "k \<le> 19 / 5" using assms by (simp_all add: k_def)
  have "0 \<le> (k - 19 / 20000) * (19 / 5 - k)" using lo hi by simp
  moreover have "(k - 19 / 20000) * (19 / 5 - k)
                 = 76019 / 20000 * k - 361 / 100000 - k * k"
    by (simp add: field_simps)
  ultimately have kk: "k * k \<le> 76019 / 20000 * k - 361 / 100000"
    by linarith
  have e: "19 / 5 * k - (1 / 20 - k) * (1 / 20 - k) = 39 / 10 * k - 1 / 400 - k * k"
    by (simp add: field_simps)
  have "19 / 5 * k - (1 / 20 - k) * (1 / 20 - k) > 0" unfolding e using kk lo by linarith
  then show ?thesis by (simp add: springDiscriminant_def k_def Let_def)
qed

lemma oscillator_at_rest:
  assumes "amplitude p = 0" and "vz (offset p) = 0" and "\<not> noiseMovement (frSettings fr)"
  shows "offset (scaleStroke (applyProcedural noise3D fr p)) = vzero"
    and "offset (applyProcedural noise3D fr p) = vzero"
  using assms by (simp_all add: applyProcedural_def scaleStroke_def Let_def vec_defs)

lemma scaleStroke_keeps:
  "position (scaleStroke p) = position p"
  "velocity (scaleStroke p) = velocity p"
  "originalPosition (scaleStroke p) = originalPosition p"
  "visible (scaleStroke p) = visible p"
  "amplitude (scaleStroke p) = amplitude p"
  by (simp_all add: scaleStroke_def)

lemma spring_frame:
  assumes "visible p" and "amplitude p = 0" and "vz (offset p) = 0"
    and "\<not> frMouseInteraction fr" and "frSandEffect fr" and "\<not> noiseMovement (frSettings fr)"
    and "index < length (layer_originalPositions l)"
    and "layer_originalPositions l ! index = originalPosition p"
  shows "updateTraditionalParticle noise3D m l fr index p =
           (scaleStroke (applyProcedural noise3D fr p))
             \<lparr>velocity := multiplyScalar (vadd (velocity p)
                   (multiplyScalar (vsub (originalPosition p) (position p))
                      (0.05 * frSandReturn fr))) 0.95,
              position := vadd (position p) (multiplyScalar (vadd (velocity p)
                   (multiplyScalar (vsub (originalPosition p) (position p))
                      (0.05 * frSandReturn fr))) 0.95),
              rotationX := rotationX p + 0.01 * animationSpeed (frSettings fr),
              rotationY := rotationY p + 0.01 * animationSpeed (frSettings fr)\<rparr>"
    and "updateInstancedParticle noise3D m l fr index p =
           (scaleStroke (applyProcedural noise3D fr p))
             \<lparr>velocity := multiplyScalar (vadd (velocity p)
                   (multiplyScalar (vsub (originalPosition p) (position p))
                      (0.05 * frSandReturn fr))) 0.95,
              position := vadd (position p) (multiplyScalar (vadd (velocity p)
                   (multiplyScalar (vsub (originalPosition p) (position p))
                      (0.05 * frSandReturn fr))) 0.95),
              rotationX := 0.01 * animationSpeed (frSettings fr),
              rotationY := 0.01 * animationSpeed (frSettings fr)\<rparr>"
proof -
  have o: "offset (scaleStroke (applyProcedural noise3D fr p)) = vzero"
    using assms by (simp add: oscillator_at_rest)
  have z: "vadd (originalPosition p) vzero = originalPosition p" by (simp add: vec_defs)
  have r: "rotationX (scaleStroke (applyProcedural noise3D fr p)) = rotationX p"
          "rotationY (scaleStroke (applyProcedural noise3D fr p)) = rotationY p"
    by (simp_all add: scaleStroke_def applyProcedural_def Let_def)
  show "updateTraditionalParticle noise3D m l fr index p =
           (scaleStroke (applyProcedural noise3D fr p))
             \<lparr>velocity := multiplyScalar (vadd (velocity p)
                   (multiplyScalar (vsub (originalPosition p) (position p))
                      (0.05 * frSandReturn fr))) 0.95,
              position := vadd (position p) (multiplyScalar (vadd (velocity p)
                   (multiplyScalar (vsub (originalPosition p) (position p))
                      (0.05 * frSandReturn fr))) 0.95),
              rotationX := rotationX p + 0.01 * animationSpeed (frSettings fr),
              rotationY := rotationY p + 0.01 * animationSpeed (frSettings fr)\<rparr>"
    using assms(1,4,5,7,8)
    by (simp add: updateTraditionalParticle_def Let_def split_def applyMouse_def applySand_def
          o z r scaleStroke_keeps applyProcedural_keeps)
  show "updateInstancedParticle noise3D m l fr index p =
           (scaleStroke (applyProcedural noise3D fr p))
             \<lparr>velocity := multiplyScalar (vadd (velocity p)
                   (multiplyScalar (vsub (originalPosition p) (position p))
                      (0.05 * frSandReturn fr))) 0.95,
              position := vadd (position p) (multiplyScalar (vadd (velocity p)
                   (multiplyScalar (vsub (originalPosition p) (position p))
                      (0.05 * frSandReturn fr))) 0.95),
              rotationX := 0.01 * animationSpeed (frSettings fr),
              rotationY := 0.01 * animationSpeed (frSettings fr)\<rparr>"
    using assms(1,4,5,7,8)
    by (simp add: updateInstancedParticle_def Let_def split_def applyMouse_def applySand_def
          o z r scaleStroke_keeps applyProcedural_keeps)
qed

lemma spring_frame_ready:
  assumes "springReady l index p" and "springFrame s fr"
  shows "springReady l index (updateTraditionalParticle noise3D m l fr index p)"
    and "springReady l index (updateInstancedParticle noise3D m l fr index p)"
    and "originalPosition (updateTraditionalParticle noise3D m l fr index p) = originalPosition p"
    and "originalPosition (updateInstancedParticle noise3D m l fr index p) = originalPosition p"
proof -
  from assms have a: "visible p" "amplitude p = 0" "vz (offset p) = 0"
    "\<not> frMouseInteraction fr" "frSandEffect fr" "\<not> noiseMovement (frSettings fr)"
    "index < length (layer_originalPositions l)"
    "layer_originalPositions l ! index = originalPosition p"
    by (simp_all add: springReady_def springFrame_def)
  have o: "offset (scaleStroke (applyProcedural noise3D fr p)) = vzero"
    using a by (simp add: oscillator_at_rest)
  show "springReady l index (updateTraditionalParticle noise3D m l fr index p)"
    unfolding spring_frame(1)[OF a] using a
    by (simp add: springReady_def o scaleStroke_keeps applyProcedural_keeps vzero_def)
  show "springReady l index (updateInstancedParticle noise3D m l fr index p)"
    unfolding spring_frame(2)[OF a] using a
    by (simp add: springReady_def o scaleStroke_keeps applyProcedural_keeps vzero_def)
  show "originalPosition (updateTraditionalParticle noise3D m l fr index p) = originalPosition p"
    unfolding spring_frame(1)[OF a] by (simp add: scaleStroke_keeps applyProcedural_keeps)
  show "originalPosition (updateInstancedParticle noise3D m l fr index p) = originalPosition p"
    unfolding spring_frame(2)[OF a] by (simp add: scaleStroke_keeps applyProcedural_keeps)
qed

lemma spring_frame_energy:
  assumes "springReady l index p" and "springFrame s fr"
  shows "springEnergy s (updateTraditionalParticle noise3D m l fr index p)
           = 19 / 20 * springEnergy s p"
    and "springEnergy s (updateInstancedParticle noise3D m l fr index p)
           = 19 / 20 * springEnergy s p"
proof -
  from assms have a: "visible p" "amplitude p = 0" "vz (offset p) = 0"
    "\<not> frMouseInteraction fr" "frSandEffect fr" "\<not> noiseMovement (frSettings fr)"
    "index < length (layer_originalPositions l)"
    "layer_originalPositions l ! index = originalPosition p"
    and s: "frSandReturn fr = s"
    by (simp_all add: springReady_def springFrame_def)
  define k where "k = 19 * s / 400"
  have cx: "\<And>d v. 19 / 20 * (v + (- d) * (s / 20)) = 19 / 20 * v - k * d"
    by (simp add: k_def field_simps)
  have e: "springEnergy s q = 19 / 20 * springEnergy s p"
    if "originalPosition q = originalPosition p"
      and "velocity q = multiplyScalar (vadd (velocity p)
                   (multiplyScalar (vsub (originalPosition p) (position p))
                      (0.05 * frSandReturn fr))) 0.95"
      and "position q = vadd (position p) (velocity q)" for q
  proof -
    let ?dx = "vx (position p) - vx (originalPosition p)"
    let ?dy = "vy (position p) - vy (originalPosition p)"
    let ?dz = "vz (position p) - vz (originalPosition p)"
    have vx': "vx (velocity q) = 19 / 20 * vx (velocity p) - k * ?dx"
      and vy': "vy (velocity q) = 19 / 20 * vy (velocity p) - k * ?dy"
      and vz': "vz (velocity q) = 19 / 20 * vz (velocity p) - k * ?dz"
      unfolding that(2) s by (simp_all add: vec_defs k_def field_simps)
    have dx': "vx (position q) - vx (originalPosition q) = ?dx + (19 / 20 * vx (velocity p) - k * ?dx)"
      and dy': "vy (position q) - vy (originalPosition q) = ?dy + (19 / 20 * vy (velocity p) - k * ?dy)"
      and dz': "vz (position q) - vz (originalPosition q) = ?dz + (19 / 20 * vz (velocity p) - k * ?dz)"
      unfolding that(1) that(3) vadd_def by (simp_all add: vx' vy' vz')
    have "springEnergy s q =
        (k * ((?dx + (19 / 20 * vx (velocity p) - k * ?dx)) * (?dx + (19 / 20 * vx (velocity p) - k * ?dx)))
         + (1 / 20 - k) * ((?dx + (19 / 20 * vx (velocity p) - k * ?dx)) * (19 / 20 * vx (velocity p) - k * ?dx))
         + 19 / 20 * ((19 / 20 * vx (velocity p) - k * ?dx) * (19 / 20 * vx (velocity p) - k * ?dx)))
      + (k * ((?dy + (19 / 20 * vy (velocity p) - k * ?dy)) * (?dy + (19 / 20 * vy (velocity p) - k * ?dy)))
         + (1 / 20 - k) * ((?dy + (19 / 20 * vy (velocity p) - k * ?dy)) * (19 / 20 * vy (velocity p) - k * ?dy))
         + 19 / 20 * ((19 / 20 * vy (velocity p) - k * ?dy) * (19 / 20 * vy (velocity p) - k * ?dy)))
      + (k * ((?dz + (19 / 20 * vz (velocity p) - k * ?dz)) * (?dz + (19 / 20 * vz (velocity p) - k * ?dz)))
         + (1 / 20 - k) * ((?dz + (19 / 20 * vz (velocity p) - k * ?dz)) * (19 / 20 * vz (velocity p) - k * ?dz))
         + 19 / 20 * ((19 / 20 * vz (velocity p) - k * ?dz) * (19 / 20 * vz (velocity p) - k * ?dz)))"
      unfolding springEnergy_def Let_def vdot_def vsub_def k_def[symmetric]
      by (simp add: dx' dy' dz' vx' vy' vz' distrib_left)
    also have "\<dots> = 19 / 20 * (k * (?dx * ?dx) + (1 / 20 - k) * (?dx * vx (velocity p)) + 19 / 20 * (vx (velocity p) * vx (velocity p)))
       + 19 / 20 * (k * (?dy * ?dy) + (1 / 20 - k) * (?dy * vy (velocity p)) + 19 / 20 * (vy (velocity p) * vy (velocity p)))
       + 19 / 20 * (k * (?dz * ?dz) + (1 / 20 - k) * (?dz * vz (velocity p)) + 19 / 20 * (vz (velocity p) * vz (velocity p)))"
      by (simp only: spring_coordinate_energy)
    also have "\<dots> = 19 / 20 * springEnergy s p"
      unfolding springEnergy_def Let_def vdot_def vsub_def k_def[symmetric]
      by (simp add: distrib_left)
    finally show ?thesis .
  qed
  show "springEnergy s (updateTraditionalParticle noise3D m l fr index p) = 19 / 20 * springEnergy s p"
    by (rule e) (simp_all add: spring_frame(1)[OF a] scaleStroke_keeps applyProcedural_keeps)
  show "springEnergy s (updateInstancedParticle noise3D m l fr index p) = 19 / 20 * springEnergy s p"
    by (rule e) (simp_all add: spring_frame(2)[OF a] scaleStroke_keeps applyProcedural_keeps)
qed

lemma run_Cons:
  "runTraditional noise3D l index ((m, fr) # steps) p =
     runTraditional noise3D l index steps (updateTraditionalParticle noise3D m l fr index p)"
  "runInstanced noise3D l index ((m, fr) # steps) p =
     runInstanced noise3D l index steps (updateInstancedParticle noise3D m l fr index p)"
  by (simp_all add: runTraditional_def runInstanced_def)

lemma run_Nil:
  "runTraditional noise3D l index [] p = p" "runInstanced noise3D l index [] p = p"
  by (simp_all add: runTraditional_def runInstanced_def)

lemma spring_run_traditional:
  assumes "springReady l index p" and "list_all (\<lambda>(m, fr). springFrame s fr) steps"
  shows "springEnergy s (runTraditional noise3D l index steps p)
           = (19 / 20) ^ length steps * springEnergy s p \<and>
         originalPosition (runTraditional noise3D l index steps p) = originalPosition p"
  using assms
proof (induction steps arbitrary: p)
  case Nil
  then show ?case by (simp add: run_Nil)
next
  case (Cons step steps)
  obtain m fr where st: "step = (m, fr)" by (cases step)
  from Cons.prems st have f: "springFrame s fr" and r: "list_all (\<lambda>(m, fr). springFrame s fr) steps"
    by simp_all
  let ?q = "updateTraditionalParticle noise3D m l fr index p"
  have q: "springReady l index ?q" by (rule spring_frame_ready(1)[OF Cons.prems(1) f])
  from Cons.IH[OF q r] spring_frame_energy(1)[OF Cons.prems(1) f, of noise3D m]
    spring_frame_ready(3)[OF Cons.prems(1) f, of noise3D m]
  show ?case by (simp add: st run_Cons)
qed

lemma spring_run_instanced:
  assumes "springReady l index p" and "list_all (\<lambda>(m, fr). springFrame s fr) steps"
  shows "springEnergy s (runInstanced noise3D l index steps p)
           = (19 / 20) ^ length steps * springEnergy s p \<and>
         originalPosition (runInstanced noise3D l index steps p) = originalPosition p"
  using assms
proof (induction steps arbitrary: p)
  case Nil
  then show ?case by (simp add: run_Nil)
next
  case (Cons step steps)
  obtain m fr where st: "step = (m, fr)" by (cases step)
  from Cons.prems st have f: "springFrame s fr" and r: "list_all (\<lambda>(m, fr). springFrame s fr) steps"
    by simp_all
  let ?q = "updateInstancedParticle noise3D m l fr index p"
  have q: "springReady l index ?q" by (rule spring_frame_ready(2)[OF Cons.prems(1) f])
  from Cons.IH[OF q r] spring_frame_energy(2)[OF Cons.prems(1) f, of noise3D m]
    spring_frame_ready(4)[OF Cons.prems(1) f, of noise3D m]
  show ?case by (simp add: st run_Cons)
qed

lemma vlength_square: "(vlength a)\<^sup>2 = vdot a a"
  by (simp add: vlength_def vdot_def)

lemma distanceTo_square: "(distanceTo a b)\<^sup>2 = vdot (vsub a b) (vsub a b)"
  by (simp add: distanceTo_def vlength_square)

lemma springEnergy_bounds:
  "springDiscriminant s * (distanceTo (position q) (originalPosition q))\<^sup>2
     \<le> 19 / 5 * springEnergy s q"
  "springDiscriminant s * (vlength (velocity q))\<^sup>2 \<le> 19 * s / 100 * springEnergy s q"
proof -
  define k where "k = 19 * s / 400"
  define D where "D = 4 * k * (19 / 20) - (1 / 20 - k) * (1 / 20 - k)"
  let ?dx = "vx (position q) - vx (originalPosition q)"
  let ?dy = "vy (position q) - vy (originalPosition q)"
  let ?dz = "vz (position q) - vz (originalPosition q)"
  let ?E = "\<lambda>d v. k * (d * d) + (1 / 20 - k) * (d * v) + 19 / 20 * (v * v)"
  have D: "springDiscriminant s = D"
    by (simp add: springDiscriminant_def Let_def D_def k_def)
  have E: "springEnergy s q = ?E ?dx (vx (velocity q)) + ?E ?dy (vy (velocity q))
             + ?E ?dz (vz (velocity q))"
    unfolding springEnergy_def Let_def vdot_def vsub_def k_def[symmetric]
    by (simp add: distrib_left)
  have bx: "D * (?dx * ?dx) \<le> 4 * (19 / 20) * ?E ?dx (vx (velocity q))"
    unfolding D_def by (rule quadratic_form_bounds(1))
  have by': "D * (?dy * ?dy) \<le> 4 * (19 / 20) * ?E ?dy (vy (velocity q))"
    unfolding D_def by (rule quadratic_form_bounds(1))
  have bz: "D * (?dz * ?dz) \<le> 4 * (19 / 20) * ?E ?dz (vz (velocity q))"
    unfolding D_def by (rule quadratic_form_bounds(1))
  have "D * (?dx * ?dx + ?dy * ?dy + ?dz * ?dz) \<le> 4 * (19 / 20) * springEnergy s q"
    unfolding E using bx by' bz by (simp add: distrib_left)
  then show "springDiscriminant s * (distanceTo (position q) (originalPosition q))\<^sup>2
     \<le> 19 / 5 * springEnergy s q"
    unfolding D distanceTo_square vdot_def vsub_def by simp
  have cx: "D * (vx (velocity q) * vx (velocity q)) \<le> 4 * k * ?E ?dx (vx (velocity q))"
    unfolding D_def by (rule quadratic_form_bounds(2))
  have cy: "D * (vy (velocity q) * vy (velocity q)) \<le> 4 * k * ?E ?dy (vy (velocity q))"
    unfolding D_def by (rule quadratic_form_bounds(2))
  have cz: "D * (vz (velocity q) * vz (velocity q)) \<le> 4 * k * ?E ?dz (vz (velocity q))"
    unfolding D_def by (rule quadratic_form_bounds(2))
  have "D * (vx (velocity q) * vx (velocity q) + vy (velocity q) * vy (velocity q)
          + vz (velocity q) * vz (velocity q)) \<le> 4 * k * springEnergy s q"
    unfolding E using cx cy cz by (simp add: distrib_left)
  moreover have "4 * k = 19 * s / 100" by (simp add: k_def)
  ultimately show "springDiscriminant s * (vlength (velocity q))\<^sup>2 \<le> 19 * s / 100 * springEnergy s q"
    unfolding D vlength_square vdot_def by simp
qed

text \<open>
  Claim C7, amended. With pointer interaction off, spring mode on and no procedural
  displacement (oscillator mode with amplitude 0), for a return setting \<open>s\<close> between 0.02 and
  80 (the default is 1), every frame multiplies the energy of the spring by exactly 0.95, in
  both representations. So after \<open>n\<close> frames the squared distance of the particle from its
  original position and its squared speed are at most a constant times \<open>0.95 ^ n\<close>: both tend
  to 0, for every initial position and velocity. The distance need not decrease from one
  frame to the next.
\<close>

theorem C7_spring_decays_geometrically:
  assumes "1 / 50 \<le> s" and "s \<le> 80"
    and "springReady l index p"
    and "list_all (\<lambda>(m, fr). springFrame s fr) steps"
  shows "0 < springDiscriminant s \<and>
         springEnergy s (runTraditional noise3D l index steps p)
           = (19 / 20) ^ length steps * springEnergy s p \<and>
         springDiscriminant s *
           (distanceTo (position (runTraditional noise3D l index steps p)) (originalPosition p))\<^sup>2
           \<le> 19 / 5 * ((19 / 20) ^ length steps * springEnergy s p) \<and>
         springDiscriminant s * (vlength (velocity (runTraditional noise3D l index steps p)))\<^sup>2
           \<le> 19 * s / 100 * ((19 / 20) ^ length steps * springEnergy s p) \<and>
         springEnergy s (runInstanced noise3D l index steps p)
           = (19 / 20) ^ length steps * springEnergy s p \<and>
         springDiscriminant s *
           (distanceTo (position (runInstanced noise3D l index steps p)) (originalPosition p))\<^sup>2
           \<le> 19 / 5 * ((19 / 20) ^ length steps * springEnergy s p) \<and>
         springDiscriminant s * (vlength (velocity (runInstanced noise3D l index steps p)))\<^sup>2
           \<le> 19 * s / 100 * ((19 / 20) ^ length steps * springEnergy s p)"
proof -
  note t = spring_run_traditional[OF assms(3,4), of noise3D]
  note i = spring_run_instanced[OF assms(3,4), of noise3D]
  from t have te: "springEnergy s (runTraditional noise3D l index steps p)
           = (19 / 20) ^ length steps * springEnergy s p"
    and to: "originalPosition (runTraditional noise3D l index steps p) = originalPosition p"
    by simp_all
  from i have ie: "springEnergy s (runInstanced noise3D l index steps p)
           = (19 / 20) ^ length steps * springEnergy s p"
    and io: "originalPosition (runInstanced noise3D l index steps p) = originalPosition p"
    by simp_all
  note bt = springEnergy_bounds[of s "runTraditional noise3D l index steps p", unfolded te to]
  note bi = springEnergy_bounds[of s "runInstanced noise3D l index steps p", unfolded ie io]
  from springDiscriminant_pos[OF assms(1,2)] te ie bt bi show ?thesis by (intro conjI)
qed

text \<open>The theorem for a particle at rest at distance 1 from its original position, over two frames.\<close>

theorem C7_spring_decays_geometrically_witness:
  "(1 / 50 :: real) \<le> 1 \<and> (1 :: real) \<le> 80 \<and>
   springReady (layerOf [particleAt \<lparr>vx = 1, vy = 0, vz = 0\<rparr> vzero vzero False]) 0
     (particleAt \<lparr>vx = 1, vy = 0, vz = 0\<rparr> vzero vzero False) \<and>
   list_all (\<lambda>(m, fr). springFrame 1 fr)
     [(vzero, frameAt (defaultSettings\<lparr>sandEffect := True, noiseMovement := False\<rparr>) False),
      (vzero, frameAt (defaultSettings\<lparr>sandEffect := True, noiseMovement := False\<rparr>) False)] \<and>
   springDiscriminant 1 *
     (distanceTo (position (runTraditional (constNoise 0)
        (layerOf [particleAt \<lparr>vx = 1, vy = 0, vz = 0\<rparr> vzero vzero False]) 0
        [(vzero, frameAt (defaultSettings\<lparr>sandEffect := True, noiseMovement := False\<rparr>) False),
         (vzero, frameAt (defaultSettings\<lparr>sandEffect := True, noiseMovement := False\<rparr>) False)]
        (particleAt \<lparr>vx = 1, vy = 0, vz = 0\<rparr> vzero vzero False)))
      (originalPosition (particleAt \<lparr>vx = 1, vy = 0, vz = 0\<rparr> vzero vzero False)))\<^sup>2
     \<le> 19 / 5 * ((19 / 20) ^ length
        [(vzero, frameAt (defaultSettings\<lparr>sandEffect := True, noiseMovement := False\<rparr>) False),
         (vzero, frameAt (defaultSettings\<lparr>sandEffect := True, noiseMovement := False\<rparr>) False)]
        * springEnergy 1 (particleAt \<lparr>vx = 1, vy = 0, vz = 0\<rparr> vzero vzero False))"
proof -
  let ?p = "particleAt \<lparr>vx = 1, vy = 0, vz = 0\<rparr> vzero vzero False"
  let ?fr = "frameAt (defaultSettings\<lparr>sandEffect := True, noiseMovement := False\<rparr>) False"
  have h1: "(1 / 50 :: real) \<le> 1" and h2: "(1 :: real) \<le> 80" by simp_all
  have h3: "springReady (layerOf [?p]) 0 ?p"
    by (simp add: springReady_def layerOf_def particleAt_def vzero_def)
  have h4: "list_all (\<lambda>(m, fr). springFrame 1 fr) [(vzero, ?fr), (vzero, ?fr)]"
    by (simp add: springFrame_def frameAt_def frameOf_def defaultSettings_def)
  note t = C7_spring_decays_geometrically[OF h1 h2 h3 h4, of "constNoise 0",
      THEN conjunct2, THEN conjunct2, THEN conjunct1]
  from h1 h2 h3 h4 t show ?thesis by (intro conjI)
qed

text \<open>
  Claim C7 as stated fails for a particle that passes through its original position with
  velocity \<open>(1, 0, 0)\<close> under the default return setting 1: after one frame it is at distance
  \<open>19/20\<close> from the original position, further than before. It also fails from rest for a
  large return setting: with the setting 100 a particle at rest at distance 1 is at distance
  \<open>15/4\<close> after one frame.
\<close>

theorem C7_counterexample:
  "springReady (layerOf [particleAt vzero vzero \<lparr>vx = 1, vy = 0, vz = 0\<rparr> False]) 0
     (particleAt vzero vzero \<lparr>vx = 1, vy = 0, vz = 0\<rparr> False) \<and>
   springFrame 1 (frameAt (defaultSettings\<lparr>sandEffect := True, noiseMovement := False\<rparr>) False) \<and>
   position (runTraditional (constNoise 0)
      (layerOf [particleAt vzero vzero \<lparr>vx = 1, vy = 0, vz = 0\<rparr> False]) 0
      [(vzero, frameAt (defaultSettings\<lparr>sandEffect := True, noiseMovement := False\<rparr>) False)]
      (particleAt vzero vzero \<lparr>vx = 1, vy = 0, vz = 0\<rparr> False))
     = \<lparr>vx = 19 / 20, vy = 0, vz = 0\<rparr> \<and>
   distanceTo (position (particleAt vzero vzero \<lparr>vx = 1, vy = 0, vz = 0\<rparr> False))
      (originalPosition (particleAt vzero vzero \<lparr>vx = 1, vy = 0, vz = 0\<rparr> False))
     < distanceTo (position (runTraditional (constNoise 0)
          (layerOf [particleAt vzero vzero \<lparr>vx = 1, vy = 0, vz = 0\<rparr> False]) 0
          [(vzero, frameAt (defaultSettings\<lparr>sandEffect := True, noiseMovement := False\<rparr>) False)]
          (particleAt vzero vzero \<lparr>vx = 1, vy = 0, vz = 0\<rparr> False)))
        (originalPosition (particleAt vzero vzero \<lparr>vx = 1, vy = 0, vz = 0\<rparr> False)) \<and>
   springReady (layerOf [particleAt \<lparr>vx = 1, vy = 0, vz = 0\<rparr> vzero vzero False]) 0
     (particleAt \<lparr>vx = 1, vy = 0, vz = 0\<rparr> vzero vzero False) \<and>
   springFrame 100 (frameAt (defaultSettings\<lparr>sandEffect := True, sandReturn := 100,
      noiseMovement := False\<rparr>) False) \<and>
   position (runTraditional (constNoise 0)
      (layerOf [particleAt \<lparr>vx = 1, vy = 0, vz = 0\<rparr> vzero vzero False]) 0
      [(vzero, frameAt (defaultSettings\<lparr>sandEffect := True, sandReturn := 100,
          noiseMovement := False\<rparr>) False)]
      (particleAt \<lparr>vx = 1, vy = 0, vz = 0\<rparr> vzero vzero False))
     = \<lparr>vx = - (15 / 4), vy = 0, vz = 0\<rparr> \<and>
   distanceTo (position (particleAt \<lparr>vx = 1, vy = 0, vz = 0\<rparr> vzero vzero False))
      (originalPosition (particleAt \<lparr>vx = 1, vy = 0, vz = 0\<rparr> vzero vzero False))
     < distanceTo (position (runTraditional (constNoise 0)
          (layerOf [particleAt \<lparr>vx = 1, vy = 0, vz = 0\<rparr> vzero vzero False]) 0
          [(vzero, frameAt (defaultSettings\<lparr>sandEffect := True, sandReturn := 100,
              noiseMovement := False\<rparr>) False)]
          (particleAt \<lparr>vx = 1, vy = 0, vz = 0\<rparr> vzero vzero False)))
        (originalPosition (particleAt \<lparr>vx = 1, vy = 0, vz = 0\<rparr> vzero vzero False))"
  by (simp add: springReady_def springFrame_def runTraditional_def updateTraditionalParticle_def
        applyProcedural_def scaleStroke_def applyMouse_def applySand_def particleAt_def
        layerOf_def frameAt_def frameOf_def defaultSettings_def vec_defs Let_def)

end
